theory Spec2Isabelle
  imports Main "HOL-Library.Word" "HOL-Library.Monad_Syntax"
begin

section \<open>The specification executor of Gauge (package execution)\<close>

text \<open>
  The source is \<^verbatim>\<open>specExecutor\<close>: it resolves the static tree of a specification into
  proto items, walks them, and talks to the runner one message at a time.

  Conventions of the embedding:
  \<^item> a Go pointer to a \<^verbatim>\<open>ProtoExecutionResult\<close> is an address into \<open>heap\<close>; every
    \<^verbatim>\<open>&ProtoExecutionResult{...}\<close> and every result decoded from a response allocates a
    fresh address, so that two holders of one pointer see each other's writes;
  \<^item> an optional protobuf scalar is an \<open>option\<close>; the generated getters
    (\<^verbatim>\<open>GetFailed\<close>, \<^verbatim>\<open>GetExecutionTime\<close>, ...) return the zero value on \<open>None\<close> and on a
    nil receiver;
  \<^item> \<^verbatim>\<open>int64\<close> is \<open>64 word\<close>, so sums of execution times wrap as they do in Go;
  \<^item> a panic (index out of range, nil dereference) is the value \<open>None\<close>;
  \<^item> the runner connection is the function \<open>runner\<close>, from the messages written so far
    and the message being written to the reply; \<open>sent\<close> lists the messages written;
  \<^item> calls to the console reporter and to the logger only print, return nothing, and
    are left out; notifications to plugins are listed in \<open>notified\<close>.
\<close>

type_synonym addr = nat
type_synonym int64 = "64 word"

subsection \<open>The static tree (package gauge)\<close>

datatype parameter = Parameter (paramName: string) (paramValue: string)

datatype fragment = Fragment_Text string | Fragment_Parameter parameter

datatype argType = Static | Dynamic | TableArg | SpecialString | SpecialTable

datatype stepArg = StepArg (argKind: argType) (argValue: string)

type_synonym argLookup = "(string \<times> stepArg) list"

text \<open>
  \<^verbatim>\<open>gauge.Step\<close>. \<open>stepRef\<close> is the address of the step object: the skip map is keyed by
  \<^verbatim>\<open>*gauge.Step\<close>. \<open>conceptSteps\<close> are the child steps a concept owns (\<^verbatim>\<open>[]*Step\<close>),
  \<open>parent\<close> is the back reference to the invoking concept.
\<close>

record stepData =
  stepRef :: addr
  lineNo :: int
  lineText :: string
  stepValue :: string
  isConcept :: bool
  stepArgs :: "stepArg list"
  stepFragments :: "fragment list"
  lookup :: argLookup

datatype step = Step (stepData: stepData) (parent: "step option") (conceptSteps: "step list")

datatype item = StepItem step | CommentItem string | TearDownItem

record scenario =
  scenarioRef :: addr
  scenarioHeading :: string
  scenarioTags :: "string list option"
  scenarioItems :: "item list"

record table =
  headers :: "string list"
  tableRows :: "string list list"

record gaugeSpecification =
  specRef :: addr
  specHeading :: string
  specFileName :: string
  specTags :: "string list option"
  contexts :: "step list"
  tearDownSteps :: "step list"
  dataTable :: table
  scenarios :: "scenario list"
  specItems :: "item list"

subsection \<open>The validation maps\<close>

text \<open>
  \<^verbatim>\<open>stepValidationError\<close>: the file, the step it is about (line number and line text are
  what the executor reads) and the text \<^verbatim>\<open>Error()\<close> returns.
\<close>

record stepValidationError =
  errFileName :: string
  errStepLineNo :: int
  errStepLineText :: string
  errMessage :: string

record validationErrMaps =
  specErrs :: "addr \<rightharpoonup> stepValidationError list"
  scenarioErrs :: "addr \<rightharpoonup> stepValidationError list"
  stepErrs :: "addr \<rightharpoonup> stepValidationError list"

subsection \<open>Messages and results (package gauge_messages)\<close>

record protoExecutionResult =
  failed :: "bool option"
  recoverableError :: "bool option"
  errorMessage :: "string option"
  stackTrace :: "string option"
  executionTime :: "int64 option"
  message :: "string list"

record protoHookFailure =
  hookStackTrace :: "string option"
  hookErrorMessage :: "string option"

record protoStepExecutionResult =
  executionResult :: "addr option"
  preHookFailure :: "protoHookFailure option"
  postHookFailure :: "protoHookFailure option"
  skipped :: "bool option"
  skippedReason :: "string option"

record protoStep =
  actualText :: string
  parsedText :: string
  fragments :: "fragment list"
  stepExecutionResult :: "protoStepExecutionResult option"

text \<open>
  \<^verbatim>\<open>ProtoItem\<close> with its item type; a concept is its representative step, its child
  items and its own result (\<^verbatim>\<open>ConceptStep\<close>, \<^verbatim>\<open>Steps\<close>, \<^verbatim>\<open>ConceptExecutionResult\<close>).
\<close>

datatype protoItem =
    ProtoItem_Step protoStep
  | ProtoItem_Concept protoStep "protoItem list" "protoStepExecutionResult option"
  | ProtoItem_Comment string

record protoScenario =
  pScenarioHeading :: string
  pFailed :: "bool option"
  pContexts :: "protoItem list"
  pScenarioItems :: "protoItem list"
  pTearDownSteps :: "protoItem list"
  pPreHookFailure :: "protoHookFailure option"
  pPostHookFailure :: "protoHookFailure option"
  pSkipped :: "bool option"
  pSkipErrors :: "string list"
  pExecutionTime :: "int64 option"

record executeStepRequest =
  reqParsedStepText :: string
  reqActualStepText :: string
  reqParameters :: "parameter list"

record specInfo =
  specInfoName :: string
  specInfoFileName :: string
  specInfoIsFailed :: bool
  specInfoTags :: "string list"

record scenarioInfo =
  scenarioInfoName :: string
  scenarioInfoIsFailed :: bool
  scenarioInfoTags :: "string list"

record stepInfo =
  stepInfoStep :: executeStepRequest
  stepInfoIsFailed :: bool

record executionInfo =
  currentSpec :: "specInfo option"
  currentScenario :: "scenarioInfo option"
  currentStep :: "stepInfo option"

text \<open>
  A message is serialised when it is written, so a hook message carries the value the
  execution info has at that moment.
\<close>

datatype message =
    SpecExecutionStarting executionInfo
  | SpecExecutionEnding executionInfo
  | ScenarioExecutionStarting executionInfo
  | ScenarioExecutionEnding executionInfo
  | StepExecutionStarting executionInfo
  | StepExecutionEnding executionInfo
  | ExecuteStep executeStepRequest
  | SpecDataStoreInit
  | ScenarioDataStoreInit

text \<open>
  What \<^verbatim>\<open>conn.GetResponseForGaugeMessage\<close> returns: an error, or a response that is an
  execution status response (whose inner result may be absent) or a message of another
  type, given by the name \<^verbatim>\<open>%s\<close> prints for it.
\<close>

datatype response =
    ExecutionStatusResponse "protoExecutionResult option"
  | OtherResponse string

datatype reply = TransportError string | Reply response

subsection \<open>Results (package result)\<close>

record specResult =
  resSpecHeading :: string
  resSpecItems :: "protoItem list"
  resScenarioResults :: "protoScenario list"
  resTableDrivenResults :: "protoScenario list list"
  resPreHookFailure :: "protoHookFailure option"
  resPostHookFailure :: "protoHookFailure option"
  resIsFailed :: bool
  resSkipped :: bool
  scenarioSkippedCount :: nat
  resExecutionTime :: int64

record indexRange =
  rangeStart :: int
  rangeEnd :: int

text \<open>
  \<^verbatim>\<open>specExecutor\<close>, with the heap of execution results and the message logs. The plugin
  handler and the console reporter hold no state the executor reads.
\<close>

record specExecutor =
  specification' :: gaugeSpecification
  dataTableIndex :: indexRange
  runner :: "message list \<Rightarrow> message \<Rightarrow> reply"
  currentExecutionInfo :: executionInfo
  specResult :: specResult
  currentTableRow :: int
  errMap :: validationErrMaps
  heap :: "addr \<Rightarrow> protoExecutionResult"
  nextAddr :: addr
  sent :: "message list"
  notified :: "message list"

section \<open>Resolution of items\<close>

subsection \<open>The collaborators outside the source\<close>

text \<open>
  Modelled from the spec: the parameter resolver and the argument lookup (packages parser
  and gauge) are not under src/. The parameter resolver is a ``pure function of (step,
  enclosing concept, lookup)''; populating a concept writes ``the copy's own dynamic
  arguments from the active row''; the lookup of a row is ``a per-row binding of column
  name to value''. What they compute is left open: a \<open>resolver\<close> holds the three
  functions, which read the fields of the step itself, of the enclosing concept itself
  and the lookup of the row.
\<close>

record resolver =
  resolveParams :: "stepData \<Rightarrow> stepData option \<Rightarrow> argLookup \<Rightarrow> parameter list"
  populateLookup :: "stepData \<Rightarrow> stepData option \<Rightarrow> argLookup \<Rightarrow> argLookup"
  fromDataTableRow :: "table \<Rightarrow> int \<Rightarrow> argLookup"

definition getResolvedParams :: "resolver \<Rightarrow> step \<Rightarrow> step option \<Rightarrow> argLookup \<Rightarrow> parameter list" where
  "getResolvedParams R st par look = resolveParams R (stepData st) (map_option stepData par) look"

definition populateConceptDynamicParams :: "resolver \<Rightarrow> step \<Rightarrow> argLookup \<Rightarrow> step" where
  "populateConceptDynamicParams R concept look =
     Step ((stepData concept)\<lparr>lookup := populateLookup R (stepData concept) (map_option stepData (parent concept)) look\<rparr>)
          (parent concept) (conceptSteps concept)"

text \<open>
  Modelled from the spec: \<^verbatim>\<open>gauge.ConvertToProtoItem\<close> is not under src/. It is the
  ``generic structural conversion with no parameter resolution'': a step becomes a proto
  step with its texts and fragments and no result yet, a concept becomes its
  representative step and the conversion of its children, a comment stays a comment.
  (A tear-down item is never converted: \<open>resolveItems\<close> leaves it out.)
\<close>

definition convertToProtoStep :: "step \<Rightarrow> protoStep" where
  "convertToProtoStep st =
     \<lparr>actualText = lineText (stepData st), parsedText = stepValue (stepData st),
      fragments = stepFragments (stepData st), stepExecutionResult = None\<rparr>"

fun convertStepToProtoItem :: "step \<Rightarrow> protoItem" where
  "convertStepToProtoItem (Step d p cs) =
     (if isConcept d
      then ProtoItem_Concept (convertToProtoStep (Step d p cs)) (map convertStepToProtoItem cs) None
      else ProtoItem_Step (convertToProtoStep (Step d p cs)))"

fun convertToProtoItem :: "item \<Rightarrow> protoItem" where
  "convertToProtoItem (StepItem st) = convertStepToProtoItem st"
| "convertToProtoItem (CommentItem c) = ProtoItem_Comment c"
| "convertToProtoItem TearDownItem = ProtoItem_Comment []"

subsection \<open>Resolution (lines 285 to 375)\<close>

definition emptyStepExecutionResult :: protoStepExecutionResult where
  "emptyStepExecutionResult =
     \<lparr>executionResult = None, preHookFailure = None, postHookFailure = None,
      skipped = None, skippedReason = None\<rparr>"

text \<open>
  \<^verbatim>\<open>updateProtoStepParameters\<close>: every parameter fragment takes the next parameter;
  \<^verbatim>\<open>parameters[paramIndex]\<close> panics when the parameters run out.
\<close>

fun updateFragments :: "fragment list \<Rightarrow> parameter list \<Rightarrow> fragment list option" where
  "updateFragments [] ps = Some []"
| "updateFragments (Fragment_Text t # fs) ps = map_option ((#) (Fragment_Text t)) (updateFragments fs ps)"
| "updateFragments (Fragment_Parameter q # fs) [] = None"
| "updateFragments (Fragment_Parameter q # fs) (p # ps) =
     map_option ((#) (Fragment_Parameter p)) (updateFragments fs ps)"

definition updateProtoStepParameters :: "protoStep \<Rightarrow> parameter list \<Rightarrow> protoStep option" where
  "updateProtoStepParameters protoStep parameters =
     map_option (\<lambda>fs. protoStep\<lparr>fragments := fs\<rparr>) (updateFragments (fragments protoStep) parameters)"

definition setSkipInfo :: "validationErrMaps \<Rightarrow> protoStep \<Rightarrow> step \<Rightarrow> protoStep" where
  "setSkipInfo em protoStep st =
     (case stepErrs em (stepRef (stepData st)) of
        Some errs \<Rightarrow> protoStep\<lparr>stepExecutionResult :=
          Some (emptyStepExecutionResult\<lparr>skipped := Some True,
                  skippedReason := Some ''Step implemenatation not found''\<rparr>)\<rparr>
      | None \<Rightarrow> protoStep\<lparr>stepExecutionResult :=
          Some (emptyStepExecutionResult\<lparr>skipped := Some False\<rparr>)\<rparr>)"

text \<open>The number of steps a concept owns, itself included: what the resolution recurses on.\<close>

fun csize :: "step \<Rightarrow> nat" where
  "csize (Step d p cs) = Suc (sum_list (map csize cs))"

lemma csize_conceptSteps: "csize st = Suc (sum_list (map csize (conceptSteps st)))"
  by (cases st) simp

text \<open>
  \<^verbatim>\<open>resolveToProtoConceptItem\<close> takes the concept by value: \<open>concept\<close> below is the local
  copy, and \<^verbatim>\<open>&concept\<close> is written as \<open>Some concept\<close>. The children are not copied:
  \<^verbatim>\<open>concept.ConceptSteps\<close> are pointers to the child steps of the template, so
  \<^verbatim>\<open>step.Parent = &concept\<close> (line 351) writes into the template's child. The function
  returns, next to the proto item, the child steps as the call leaves them.
\<close>

function (sequential)
  resolveToProtoConceptItem ::
    "resolver \<Rightarrow> validationErrMaps \<Rightarrow> argLookup \<Rightarrow> step \<Rightarrow> (step list \<times> protoItem) option"
and resolveConceptSteps ::
    "resolver \<Rightarrow> validationErrMaps \<Rightarrow> argLookup \<Rightarrow> step \<Rightarrow> step list \<Rightarrow> protoItem list
       \<Rightarrow> (step list \<times> protoItem list) option"
where
  "resolveToProtoConceptItem R em look concept0 =
     (let concept = populateConceptDynamicParams R concept0 look in
      case convertStepToProtoItem concept of
        ProtoItem_Concept conceptStep steps cres \<Rightarrow>
          (case resolveConceptSteps R em look concept (conceptSteps concept0) steps of
             None \<Rightarrow> None
           | Some (children, steps') \<Rightarrow>
               Some (children,
                     ProtoItem_Concept
                       (conceptStep\<lparr>stepExecutionResult :=
                          Some (emptyStepExecutionResult\<lparr>skipped := Some False\<rparr>)\<rparr>)
                       steps' cres))
      | _ \<Rightarrow> None)"
| "resolveConceptSteps R em look concept [] steps = Some ([], steps)"
| "resolveConceptSteps R em look concept (st # sts) [] = None"
| "resolveConceptSteps R em look concept (st # sts) (p # ps) =
     (if isConcept (stepData st)
      then (case resolveToProtoConceptItem R em look (Step (stepData st) (Some concept) (conceptSteps st)) of
              None \<Rightarrow> None
            | Some (grandChildren, p') \<Rightarrow>
                (case resolveConceptSteps R em look concept sts ps of
                   None \<Rightarrow> None
                 | Some (sts', ps') \<Rightarrow>
                     Some (Step (stepData st) (Some concept) grandChildren # sts', p' # ps')))
      else (case p of
              ProtoItem_Step protoStep \<Rightarrow>
                (case updateProtoStepParameters protoStep (getResolvedParams R st (Some concept) look) of
                   None \<Rightarrow> None
                 | Some protoStep' \<Rightarrow>
                     (case resolveConceptSteps R em look concept sts ps of
                        None \<Rightarrow> None
                      | Some (sts', ps') \<Rightarrow>
                          Some (st # sts', ProtoItem_Step (setSkipInfo em protoStep' st) # ps')))
            | _ \<Rightarrow> None))"
  by pat_completeness auto
termination
  by (relation "measure (\<lambda>x. case x of
          Inl (R, em, look, c) \<Rightarrow> 2 * csize c
        | Inr (R, em, look, c, sts, ps) \<Rightarrow> 2 * sum_list (map csize sts) + 1)")
     (auto simp: csize_conceptSteps)

definition resolveToProtoStepItem ::
    "resolver \<Rightarrow> validationErrMaps \<Rightarrow> argLookup \<Rightarrow> step \<Rightarrow> protoItem option" where
  "resolveToProtoStepItem R em look st =
     (case updateProtoStepParameters (convertToProtoStep st) (getResolvedParams R st None look) of
        None \<Rightarrow> None
      | Some protoStep \<Rightarrow> Some (ProtoItem_Step (setSkipInfo em protoStep st)))"

fun resolveToProtoItem :: "resolver \<Rightarrow> validationErrMaps \<Rightarrow> argLookup \<Rightarrow> item \<Rightarrow> protoItem option" where
  "resolveToProtoItem R em look (StepItem st) =
     (if isConcept (stepData st)
      then map_option snd (resolveToProtoConceptItem R em look st)
      else resolveToProtoStepItem R em look st)"
| "resolveToProtoItem R em look it = Some (convertToProtoItem it)"

fun resolveItemsWith :: "resolver \<Rightarrow> validationErrMaps \<Rightarrow> argLookup \<Rightarrow> item list \<Rightarrow> protoItem list option" where
  "resolveItemsWith R em look [] = Some []"
| "resolveItemsWith R em look (TearDownItem # its) = resolveItemsWith R em look its"
| "resolveItemsWith R em look (it # its) =
     (case resolveToProtoItem R em look it of
        None \<Rightarrow> None
      | Some p \<Rightarrow> map_option ((#) p) (resolveItemsWith R em look its))"

definition dataTableLookup :: "resolver \<Rightarrow> specExecutor \<Rightarrow> argLookup" where
  "dataTableLookup R e = fromDataTableRow R (dataTable (specification' e)) (currentTableRow e)"

definition resolveItems :: "resolver \<Rightarrow> specExecutor \<Rightarrow> item list \<Rightarrow> protoItem list option" where
  "resolveItems R e its = resolveItemsWith R (errMap e) (dataTableLookup R e) its"

definition getContextItemsForScenarioExecution ::
    "resolver \<Rightarrow> specExecutor \<Rightarrow> step list \<Rightarrow> protoItem list option" where
  "getContextItemsForScenarioExecution R e steps = resolveItems R e (map StepItem steps)"

section \<open>Execution\<close>

subsection \<open>Getters, allocation and the runner round trip (lines 526 to 549)\<close>

definition getFailed :: "protoExecutionResult \<Rightarrow> bool" where
  "getFailed r = (case failed r of Some b \<Rightarrow> b | None \<Rightarrow> False)"

definition getExecutionTime :: "protoExecutionResult \<Rightarrow> int64" where
  "getExecutionTime r = (case executionTime r of Some t \<Rightarrow> t | None \<Rightarrow> 0)"

definition getRecoverableError :: "protoExecutionResult \<Rightarrow> bool" where
  "getRecoverableError r = (case recoverableError r of Some b \<Rightarrow> b | None \<Rightarrow> False)"

definition getErrorMessage :: "protoExecutionResult \<Rightarrow> string" where
  "getErrorMessage r = (case errorMessage r of Some m \<Rightarrow> m | None \<Rightarrow> [])"

text \<open>The getters through a pointer that may be nil.\<close>

definition failedAt :: "(addr \<Rightarrow> protoExecutionResult) \<Rightarrow> addr option \<Rightarrow> bool" where
  "failedAt h p = (case p of None \<Rightarrow> False | Some a \<Rightarrow> getFailed (h a))"

definition timeAt :: "(addr \<Rightarrow> protoExecutionResult) \<Rightarrow> addr option \<Rightarrow> int64" where
  "timeAt h p = (case p of None \<Rightarrow> 0 | Some a \<Rightarrow> getExecutionTime (h a))"

definition getExecutionResult :: "protoStepExecutionResult option \<Rightarrow> addr option" where
  "getExecutionResult r = (case r of None \<Rightarrow> None | Some x \<Rightarrow> executionResult x)"

definition alloc :: "protoExecutionResult \<Rightarrow> specExecutor \<Rightarrow> addr \<times> specExecutor" where
  "alloc r e = (nextAddr e, e\<lparr>heap := (heap e)(nextAddr e := r), nextAddr := Suc (nextAddr e)\<rparr>)"

definition errorResult :: "string \<Rightarrow> protoExecutionResult" where
  "errorResult msg =
     \<lparr>failed = Some True, recoverableError = Some False, errorMessage = Some msg,
      stackTrace = None, executionTime = None, message = []\<rparr>"

definition executeAndGetStatus :: "specExecutor \<Rightarrow> message \<Rightarrow> addr \<times> specExecutor" where
  "executeAndGetStatus e m =
     (let e1 = e\<lparr>sent := sent e @ [m]\<rparr> in
      case runner e (sent e) m of
        TransportError err \<Rightarrow>
          alloc \<lparr>failed = Some True, recoverableError = None, errorMessage = Some err,
                 stackTrace = None, executionTime = None, message = []\<rparr> e1
      | Reply (ExecutionStatusResponse None) \<Rightarrow>
          alloc (errorResult ''ProtoExecutionResult obtained is nil'') e1
      | Reply (ExecutionStatusResponse (Some result)) \<Rightarrow> alloc result e1
      | Reply (OtherResponse ty) \<Rightarrow>
          alloc (errorResult (''Expected ExecutionStatusResponse. Obtained: '' @ ty)) e1)"

definition notifyPlugins :: "specExecutor \<Rightarrow> message \<Rightarrow> specExecutor" where
  "notifyPlugins e m = e\<lparr>notified := notified e @ [m]\<rparr>"

subsection \<open>Failure flags of the execution info (lines 551 to 563)\<close>

definition setSpecFailure :: "executionInfo \<Rightarrow> executionInfo option" where
  "setSpecFailure i =
     (case currentSpec i of
        None \<Rightarrow> None
      | Some sp \<Rightarrow> Some (i\<lparr>currentSpec := Some (sp\<lparr>specInfoIsFailed := True\<rparr>)\<rparr>))"

definition setScenarioFailure :: "executionInfo \<Rightarrow> executionInfo option" where
  "setScenarioFailure i =
     (case setSpecFailure i of
        None \<Rightarrow> None
      | Some i1 \<Rightarrow>
          (case currentScenario i1 of
             None \<Rightarrow> None
           | Some sc \<Rightarrow> Some (i1\<lparr>currentScenario := Some (sc\<lparr>scenarioInfoIsFailed := True\<rparr>)\<rparr>)))"

definition setStepFailure :: "executionInfo \<Rightarrow> executionInfo option" where
  "setStepFailure i =
     (case setScenarioFailure i of
        None \<Rightarrow> None
      | Some i1 \<Rightarrow>
          (case currentStep i1 of
             None \<Rightarrow> None
           | Some st \<Rightarrow> Some (i1\<lparr>currentStep := Some (st\<lparr>stepInfoIsFailed := True\<rparr>)\<rparr>)))"

definition markFailed ::
    "(executionInfo \<Rightarrow> executionInfo option) \<Rightarrow> specExecutor \<Rightarrow> specExecutor option" where
  "markFailed setFailure e =
     map_option (\<lambda>i. e\<lparr>currentExecutionInfo := i\<rparr>) (setFailure (currentExecutionInfo e))"

subsection \<open>Steps (lines 445 to 520, 565 to 573)\<close>

text \<open>
  Modelled from the spec: \<^verbatim>\<open>result.GetProtoHookFailure\<close> is not under src/; it builds
  the entry ``carrying the hook failure detail'' from the hook's result.
\<close>

definition getProtoHookFailure :: "protoExecutionResult \<Rightarrow> protoHookFailure" where
  "getProtoHookFailure r = \<lparr>hookStackTrace = stackTrace r, hookErrorMessage = errorMessage r\<rparr>"

fun getParameters :: "fragment list \<Rightarrow> parameter list" where
  "getParameters [] = []"
| "getParameters (Fragment_Parameter p # fs) = p # getParameters fs"
| "getParameters (Fragment_Text t # fs) = getParameters fs"

definition createStepRequest :: "protoStep \<Rightarrow> executeStepRequest" where
  "createStepRequest protoStep =
     \<lparr>reqParsedStepText = parsedText protoStep, reqActualStepText = actualText protoStep,
      reqParameters = getParameters (fragments protoStep)\<rparr>"

definition executeBeforeStepHook :: "specExecutor \<Rightarrow> addr \<times> specExecutor" where
  "executeBeforeStepHook e =
     (let m = StepExecutionStarting (currentExecutionInfo e)
      in executeAndGetStatus (notifyPlugins e m) m)"

definition executeAfterStepHook :: "specExecutor \<Rightarrow> addr \<times> specExecutor" where
  "executeAfterStepHook e =
     (let m = StepExecutionEnding (currentExecutionInfo e)
      in executeAndGetStatus (notifyPlugins e m) m)"

fun addExecutionTimes ::
    "(addr \<Rightarrow> protoExecutionResult) \<Rightarrow> addr \<Rightarrow> addr list \<Rightarrow> (addr \<Rightarrow> protoExecutionResult)" where
  "addExecutionTimes h a [] = h"
| "addExecutionTimes h a (r # rs) =
     addExecutionTimes
       (h(a := (h a)\<lparr>executionTime :=
            Some (case executionTime (h a) of
                    None \<Rightarrow> getExecutionTime (h r)
                  | Some t \<Rightarrow> t + getExecutionTime (h r))\<rparr>))
       a rs"

text \<open>
  \<^verbatim>\<open>executeStep\<close> in two parts. \<open>runStep\<close> is lines 453 to 466: the before-step hook
  and, when it passed, the \<^verbatim>\<open>ExecuteStep\<close> round trip. It returns the address of the
  before hook's status, the step's result so far, whose \<open>executionResult\<close> is set, and
  the executor.
\<close>

definition runStep ::
    "specExecutor \<Rightarrow> executeStepRequest \<Rightarrow> (addr \<times> protoStepExecutionResult \<times> specExecutor) option" where
  "runStep e stepRequest =
     (let (beforeHookStatus, e1) = executeBeforeStepHook e in
      if getFailed (heap e1 beforeHookStatus)
      then (let (a, e2) = alloc \<lparr>failed = Some True, recoverableError = None, errorMessage = None,
                                   stackTrace = None, executionTime = None, message = []\<rparr> e1
            in map_option
                 (\<lambda>e3. (beforeHookStatus,
                         emptyStepExecutionResult
                           \<lparr>preHookFailure := Some (getProtoHookFailure (heap e1 beforeHookStatus)),
                            executionResult := Some a\<rparr>,
                         e3))
                 (markFailed setStepFailure e2))
      else (let (stepExecutionStatus, e2) = executeAndGetStatus e1 (ExecuteStep stepRequest)
            in map_option
                 (\<lambda>e3. (beforeHookStatus,
                         emptyStepExecutionResult\<lparr>executionResult := Some stepExecutionStatus\<rparr>,
                         e3))
                 (if getFailed (heap e2 stepExecutionStatus)
                  then markFailed setStepFailure e2 else Some e2)))"

definition executeStep :: "specExecutor \<Rightarrow> protoStep \<Rightarrow> (bool \<times> protoStep \<times> specExecutor) option" where
  "executeStep e0 protoStep =
     (let stepRequest = createStepRequest protoStep;
          e = e0\<lparr>currentExecutionInfo := (currentExecutionInfo e0)
                 \<lparr>currentStep := Some \<lparr>stepInfoStep = stepRequest, stepInfoIsFailed = False\<rparr>\<rparr>\<rparr>
      in case runStep e stepRequest of
           None \<Rightarrow> None
         | Some (beforeHookStatus, res, e1) \<Rightarrow>
             (case executionResult res of
                None \<Rightarrow> None
              | Some a \<Rightarrow>
                  (let (afterStepHookStatus, e2) = executeAfterStepHook e1;
                       e3 = e2\<lparr>heap := addExecutionTimes (heap e2) a [beforeHookStatus, afterStepHookStatus]\<rparr>
                   in case (if getFailed (heap e3 afterStepHookStatus)
                            then map_option
                                   (\<lambda>e4. (res\<lparr>postHookFailure :=
                                                  Some (getProtoHookFailure (heap e3 afterStepHookStatus))\<rparr>,
                                           e4\<lparr>heap := (heap e4)(a := (heap e4 a)\<lparr>failed := Some True\<rparr>)\<rparr>))
                                   (markFailed setStepFailure e3)
                            else Some (res, e3)) of
                        None \<Rightarrow> None
                      | Some (res1, e5) \<Rightarrow>
                          (let e6 = e5\<lparr>heap := (heap e5)
                                      (a := (heap e5 a)\<lparr>message := message (heap e5 afterStepHookStatus)\<rparr>)\<rparr>
                           in case stepExecutionResult protoStep of
                                None \<Rightarrow> None
                              | Some old \<Rightarrow>
                                  Some (getFailed (heap e6 a),
                                        protoStep\<lparr>stepExecutionResult :=
                                          Some (res1\<lparr>skipped := skipped old,
                                                     skippedReason := skippedReason old\<rparr>)\<rparr>,
                                        e6)))))"

subsection \<open>Concepts (lines 377 to 438)\<close>

text \<open>
  The loop of \<^verbatim>\<open>setExecutionResultForConcept\<close>: the time so far, and the pointer to the
  result of the first child that has failed, if there is one.
\<close>

fun walkConceptSteps ::
    "(addr \<Rightarrow> protoExecutionResult) \<Rightarrow> int64 \<Rightarrow> protoItem list \<Rightarrow> addr option \<times> int64" where
  "walkConceptSteps h t [] = (None, t)"
| "walkConceptSteps h t (ProtoItem_Concept conceptStep steps cres # xs) =
     (let r = getExecutionResult cres; t' = t + timeAt h r
      in if failedAt h r then (r, t') else walkConceptSteps h t' xs)"
| "walkConceptSteps h t (ProtoItem_Step protoStep # xs) =
     (let r = getExecutionResult (stepExecutionResult protoStep); t' = t + timeAt h r
      in if failedAt h r then (r, t') else walkConceptSteps h t' xs)"
| "walkConceptSteps h t (ProtoItem_Comment c # xs) = walkConceptSteps h t xs"

text \<open>
  The new wrapper is stored in the concept's own slot and in its representative step:
  the function returns both, and the executor whose heap holds the result the wrapper
  points to. When a child has failed that result is the child's own object.
\<close>

definition setExecutionResultForConcept ::
    "specExecutor \<Rightarrow> protoStep \<Rightarrow> protoItem list
       \<Rightarrow> protoStep \<times> protoStepExecutionResult option \<times> specExecutor" where
  "setExecutionResultForConcept e conceptStep steps =
     (case walkConceptSteps (heap e) 0 steps of
        (Some a, conceptExecutionTime) \<Rightarrow>
          (let conceptExecutionResult =
                 emptyStepExecutionResult\<lparr>executionResult := Some a, skipped := Some False\<rparr>
           in (conceptStep\<lparr>stepExecutionResult := Some conceptExecutionResult\<rparr>,
               Some conceptExecutionResult,
               e\<lparr>heap := (heap e)(a := (heap e a)\<lparr>executionTime := Some conceptExecutionTime\<rparr>)\<rparr>))
      | (None, conceptExecutionTime) \<Rightarrow>
          (let (a, e1) = alloc \<lparr>failed = Some False, recoverableError = None, errorMessage = None,
                                 stackTrace = None, executionTime = Some conceptExecutionTime,
                                 message = []\<rparr> e;
               conceptExecutionResult =
                 emptyStepExecutionResult\<lparr>executionResult := Some a, skipped := Some False\<rparr>
           in (conceptStep\<lparr>stepExecutionResult := Some conceptExecutionResult\<rparr>,
               Some conceptExecutionResult, e1)))"

text \<open>
  \<^verbatim>\<open>executeItem\<close> and \<^verbatim>\<open>executeConcept\<close>. The items are updated in place in Go; here the
  updated item is returned. \<open>executeConceptSteps\<close> is the loop of \<^verbatim>\<open>executeConcept\<close>:
  \<open>done\<close> are the children already walked, the last argument those still to walk.
\<close>

fun executeItem :: "specExecutor \<Rightarrow> protoItem \<Rightarrow> (bool \<times> protoItem \<times> specExecutor) option"
and executeConceptSteps ::
    "specExecutor \<Rightarrow> protoStep \<Rightarrow> protoStepExecutionResult option \<Rightarrow> protoItem list \<Rightarrow> protoItem list
       \<Rightarrow> (bool \<times> protoItem \<times> specExecutor) option"
where
  "executeItem e (ProtoItem_Concept conceptStep steps cres) =
     executeConceptSteps e conceptStep cres [] steps"
| "executeItem e (ProtoItem_Step protoStep) =
     (case executeStep e protoStep of
        None \<Rightarrow> None
      | Some (failure, protoStep', e1) \<Rightarrow> Some (failure, ProtoItem_Step protoStep', e1))"
| "executeItem e (ProtoItem_Comment c) = Some (False, ProtoItem_Comment c, e)"
| "executeConceptSteps e conceptStep cres done [] =
     Some (failedAt (heap e) (getExecutionResult cres), ProtoItem_Concept conceptStep done cres, e)"
| "executeConceptSteps e conceptStep cres done (step # rest) =
     (case executeItem e step of
        None \<Rightarrow> None
      | Some (failure, step', e1) \<Rightarrow>
          (case setExecutionResultForConcept e1 conceptStep (done @ step' # rest) of
             (conceptStep', cres', e2) \<Rightarrow>
               if failure
               then Some (True, ProtoItem_Concept conceptStep' (done @ step' # rest) cres', e2)
               else executeConceptSteps e2 conceptStep' cres' (done @ [step']) rest))"

definition executeConcept ::
    "specExecutor \<Rightarrow> protoStep \<Rightarrow> protoItem list \<Rightarrow> protoStepExecutionResult option
       \<Rightarrow> (bool \<times> protoItem \<times> specExecutor) option" where
  "executeConcept e conceptStep steps cres = executeItem e (ProtoItem_Concept conceptStep steps cres)"

fun executeItems :: "specExecutor \<Rightarrow> protoItem list \<Rightarrow> (bool \<times> protoItem list \<times> specExecutor) option" where
  "executeItems e [] = Some (False, [], e)"
| "executeItems e (x # xs) =
     (case executeItem e x of
        None \<Rightarrow> None
      | Some (failure, x', e1) \<Rightarrow>
          if failure then Some (True, x' # xs, e1)
          else (case executeItems e1 xs of
                  None \<Rightarrow> None
                | Some (failure', xs', e2) \<Rightarrow> Some (failure', x' # xs', e2)))"

subsection \<open>Scenario results and spec results (package result)\<close>

text \<open>
  Modelled from the spec: the result types of package result and their constructors in
  package gauge are not under src/. A scenario result is the proto scenario it wraps: it
  starts not failed and with no items; the resolved contexts, tear-down steps and items
  are attached to it; \<open>setFailure\<close> and \<open>getFailure\<close> write and read its failed flag;
  \<open>addExecTime\<close> adds to its time; a hook failure is recorded as a pre-hook or post-hook
  entry when the hook's status is failed, and marks the result failed; the total time
  adds the recorded times of the context and scenario items. A spec result starts empty,
  with a skipped count of zero; resolved items, scenario results and the per-row lists
  of scenario results are attached to it in order.
\<close>

type_synonym scenarioResult = protoScenario

definition newProtoScenario :: "scenario \<Rightarrow> scenarioResult" where
  "newProtoScenario scn =
     \<lparr>pScenarioHeading = scenarioHeading scn, pFailed = Some False, pContexts = [],
      pScenarioItems = [], pTearDownSteps = [], pPreHookFailure = None, pPostHookFailure = None,
      pSkipped = None, pSkipErrors = [], pExecutionTime = None\<rparr>"

definition setFailure :: "scenarioResult \<Rightarrow> scenarioResult" where
  "setFailure res = res\<lparr>pFailed := Some True\<rparr>"

definition getFailure :: "scenarioResult \<Rightarrow> bool" where
  "getFailure res = (case pFailed res of Some b \<Rightarrow> b | None \<Rightarrow> False)"

definition addExecTime :: "int64 \<Rightarrow> scenarioResult \<Rightarrow> scenarioResult" where
  "addExecTime t res =
     res\<lparr>pExecutionTime := Some ((case pExecutionTime res of Some u \<Rightarrow> u | None \<Rightarrow> 0) + t)\<rparr>"

definition addPreHook :: "scenarioResult \<Rightarrow> protoExecutionResult \<Rightarrow> scenarioResult" where
  "addPreHook res r =
     (if getFailed r then setFailure (res\<lparr>pPreHookFailure := Some (getProtoHookFailure r)\<rparr>) else res)"

definition addPostHook :: "scenarioResult \<Rightarrow> protoExecutionResult \<Rightarrow> scenarioResult" where
  "addPostHook res r =
     (if getFailed r then setFailure (res\<lparr>pPostHookFailure := Some (getProtoHookFailure r)\<rparr>) else res)"

fun itemTime :: "(addr \<Rightarrow> protoExecutionResult) \<Rightarrow> protoItem \<Rightarrow> int64" where
  "itemTime h (ProtoItem_Step protoStep) = timeAt h (getExecutionResult (stepExecutionResult protoStep))"
| "itemTime h (ProtoItem_Concept conceptStep steps cres) = timeAt h (getExecutionResult cres)"
| "itemTime h (ProtoItem_Comment c) = 0"

definition updateExecutionTime :: "(addr \<Rightarrow> protoExecutionResult) \<Rightarrow> scenarioResult \<Rightarrow> scenarioResult" where
  "updateExecutionTime h res =
     addExecTime (sum_list (map (itemTime h) (pScenarioItems res)))
       (addExecTime (sum_list (map (itemTime h) (pContexts res))) res)"

definition newSpecResult :: "gaugeSpecification \<Rightarrow> specResult" where
  "newSpecResult sp =
     \<lparr>resSpecHeading = specHeading sp, resSpecItems = [], resScenarioResults = [],
      resTableDrivenResults = [], resPreHookFailure = None, resPostHookFailure = None,
      resIsFailed = False, resSkipped = False, scenarioSkippedCount = 0, resExecutionTime = 0\<rparr>"

definition addSpecItems :: "protoItem list \<Rightarrow> specResult \<Rightarrow> specResult" where
  "addSpecItems items res = res\<lparr>resSpecItems := resSpecItems res @ items\<rparr>"

definition addScenarioResults :: "scenarioResult list \<Rightarrow> specResult \<Rightarrow> specResult" where
  "addScenarioResults rs res = res\<lparr>resScenarioResults := resScenarioResults res @ rs\<rparr>"

definition addTableDrivenScenarioResult :: "scenarioResult list list \<Rightarrow> specResult \<Rightarrow> specResult" where
  "addTableDrivenScenarioResult rss res = res\<lparr>resTableDrivenResults := resTableDrivenResults res @ rss\<rparr>"

definition addSpecExecTime :: "int64 \<Rightarrow> specResult \<Rightarrow> specResult" where
  "addSpecExecTime t res = res\<lparr>resExecutionTime := resExecutionTime res + t\<rparr>"

definition addSpecPreHook :: "specResult \<Rightarrow> protoExecutionResult \<Rightarrow> specResult" where
  "addSpecPreHook res r =
     (if getFailed r
      then res\<lparr>resPreHookFailure := Some (getProtoHookFailure r), resIsFailed := True\<rparr> else res)"

definition addSpecPostHook :: "specResult \<Rightarrow> protoExecutionResult \<Rightarrow> specResult" where
  "addSpecPostHook res r =
     (if getFailed r
      then res\<lparr>resPostHookFailure := Some (getProtoHookFailure r), resIsFailed := True\<rparr> else res)"

text \<open>
  Modelled from the spec: the data table of package gauge is not under src/; it is
  ``ordered column headers plus ordered rows''. \<^verbatim>\<open>GetRowCount\<close> is the number of rows.
\<close>

definition getRowCount :: "table \<Rightarrow> int" where
  "getRowCount t = int (length (tableRows t))"

subsection \<open>Hooks of scenarios and specifications (lines 70 to 97, 174 to 194)\<close>

text \<open>
  \<^verbatim>\<open>executeHook\<close>: notify the plugins, make the round trip, add the time to the tracker.
  The tracker is the spec result of the executor or the scenario result at hand.
\<close>

definition executeSpecHook :: "specExecutor \<Rightarrow> message \<Rightarrow> addr \<times> specExecutor" where
  "executeSpecHook e m =
     (let (executionResult, e1) = executeAndGetStatus (notifyPlugins e m) m
      in (executionResult,
          e1\<lparr>specResult := addSpecExecTime (getExecutionTime (heap e1 executionResult)) (specResult e1)\<rparr>))"

definition executeScenarioHook ::
    "specExecutor \<Rightarrow> message \<Rightarrow> scenarioResult \<Rightarrow> addr \<times> scenarioResult \<times> specExecutor" where
  "executeScenarioHook e m res =
     (let (executionResult, e1) = executeAndGetStatus (notifyPlugins e m) m
      in (executionResult, addExecTime (getExecutionTime (heap e1 executionResult)) res, e1))"

definition executeBeforeSpecHook :: "specExecutor \<Rightarrow> addr \<times> specExecutor" where
  "executeBeforeSpecHook e = executeSpecHook e (SpecExecutionStarting (currentExecutionInfo e))"

definition executeAfterSpecHook :: "specExecutor \<Rightarrow> addr \<times> specExecutor" where
  "executeAfterSpecHook e = executeSpecHook e (SpecExecutionEnding (currentExecutionInfo e))"

definition executeBeforeScenarioHook ::
    "specExecutor \<Rightarrow> scenarioResult \<Rightarrow> addr \<times> scenarioResult \<times> specExecutor" where
  "executeBeforeScenarioHook e res =
     executeScenarioHook e (ScenarioExecutionStarting (currentExecutionInfo e)) res"

definition executeAfterScenarioHook ::
    "specExecutor \<Rightarrow> scenarioResult \<Rightarrow> addr \<times> scenarioResult \<times> specExecutor" where
  "executeAfterScenarioHook e res =
     executeScenarioHook e (ScenarioExecutionEnding (currentExecutionInfo e)) res"

subsection \<open>Scenarios (lines 196 to 283)\<close>

fun getTagValue :: "string list option \<Rightarrow> string list" where
  "getTagValue None = []"
| "getTagValue (Some vs) = vs"

definition addAllItemsForScenarioExecution ::
    "resolver \<Rightarrow> specExecutor \<Rightarrow> scenario \<Rightarrow> scenarioResult \<Rightarrow> scenarioResult option" where
  "addAllItemsForScenarioExecution R e scn res =
     (case getContextItemsForScenarioExecution R e (contexts (specification' e)) of
        None \<Rightarrow> None
      | Some cs \<Rightarrow>
          (case getContextItemsForScenarioExecution R e (tearDownSteps (specification' e)) of
             None \<Rightarrow> None
           | Some ts \<Rightarrow>
               (case resolveItems R e (scenarioItems scn) of
                  None \<Rightarrow> None
                | Some its \<Rightarrow>
                    Some (res\<lparr>pContexts := pContexts res @ cs,
                              pTearDownSteps := pTearDownSteps res @ ts,
                              pScenarioItems := pScenarioItems res @ its\<rparr>))))"

text \<open>Decimal digits of a number, for \<^verbatim>\<open>%d\<close>.\<close>

fun showNat :: "nat \<Rightarrow> string" where
  "showNat n = (if n < 10 then [''0123456789'' ! n] else showNat (n div 10) @ [''0123456789'' ! (n mod 10)])"

definition showInt :: "int \<Rightarrow> string" where
  "showInt i = (if i < 0 then CHR ''-'' # showNat (nat (- i)) else showNat (nat i))"

definition skipError :: "stepValidationError \<Rightarrow> string" where
  "skipError err =
     errFileName err @ '':'' @ showInt (errStepLineNo err) @ '': '' @ errMessage err @ ''. ''
       @ errStepLineText err"

definition setSkipInfoInResult ::
    "specExecutor \<Rightarrow> scenarioResult \<Rightarrow> scenario \<Rightarrow> scenarioResult \<times> specExecutor" where
  "setSkipInfoInResult e res scn =
     (res\<lparr>pSkipped := Some True,
          pSkipErrors := map skipError
            (case scenarioErrs (errMap e) (scenarioRef scn) of None \<Rightarrow> [] | Some errs \<Rightarrow> errs)\<rparr>,
      e\<lparr>specResult := (specResult e)\<lparr>scenarioSkippedCount := scenarioSkippedCount (specResult e) + 1\<rparr>\<rparr>)"

definition executeContextItems ::
    "specExecutor \<Rightarrow> scenarioResult \<Rightarrow> (scenarioResult \<times> specExecutor) option" where
  "executeContextItems e res =
     (case executeItems e (pContexts res) of
        None \<Rightarrow> None
      | Some (failure, items, e1) \<Rightarrow>
          Some (if failure then setFailure (res\<lparr>pContexts := items\<rparr>) else res\<lparr>pContexts := items\<rparr>, e1))"

definition executeTearDownItems ::
    "specExecutor \<Rightarrow> scenarioResult \<Rightarrow> (scenarioResult \<times> specExecutor) option" where
  "executeTearDownItems e res =
     (case executeItems e (pTearDownSteps res) of
        None \<Rightarrow> None
      | Some (failure, items, e1) \<Rightarrow>
          Some (if failure then setFailure (res\<lparr>pTearDownSteps := items\<rparr>)
                else res\<lparr>pTearDownSteps := items\<rparr>, e1))"

definition executeScenarioItems ::
    "specExecutor \<Rightarrow> scenarioResult \<Rightarrow> (scenarioResult \<times> specExecutor) option" where
  "executeScenarioItems e res =
     (case executeItems e (pScenarioItems res) of
        None \<Rightarrow> None
      | Some (failure, items, e1) \<Rightarrow>
          Some (if failure then setFailure (res\<lparr>pScenarioItems := items\<rparr>)
                else res\<lparr>pScenarioItems := items\<rparr>, e1))"

text \<open>\<open>runItems\<close> is the else branch at lines 221 to 225 of \<^verbatim>\<open>executeScenario\<close>.\<close>

definition runItems :: "specExecutor \<Rightarrow> scenarioResult \<Rightarrow> (scenarioResult \<times> specExecutor) option" where
  "runItems e res =
     (case executeContextItems e res of
        None \<Rightarrow> None
      | Some (res1, e1) \<Rightarrow>
          (case (if \<not> getFailure res1 then executeScenarioItems e1 res1 else Some (res1, e1)) of
             None \<Rightarrow> None
           | Some (res2, e2) \<Rightarrow> executeTearDownItems e2 res2))"

text \<open>\<open>runScenario\<close> is \<^verbatim>\<open>executeScenario\<close> from line 213 on, for a scenario that is not skipped.\<close>

definition runScenario :: "specExecutor \<Rightarrow> scenarioResult \<Rightarrow> (scenarioResult \<times> specExecutor) option" where
  "runScenario e res =
     (let (beforeHookExecutionStatus, res1, e1) = executeBeforeScenarioHook e res in
      case (if getFailed (heap e1 beforeHookExecutionStatus)
            then map_option (\<lambda>e2. (addPreHook res1 (heap e1 beforeHookExecutionStatus), e2))
                   (markFailed setScenarioFailure e1)
            else runItems e1 res1) of
        None \<Rightarrow> None
      | Some (res2, e2) \<Rightarrow>
          (let (afterHookExecutionStatus, res3, e3) = executeAfterScenarioHook e2 res2;
               res4 = updateExecutionTime (heap e3) (addPostHook res3 (heap e3 afterHookExecutionStatus))
           in map_option (\<lambda>e4. (res4, e4))
                (if getFailed (heap e3 afterHookExecutionStatus)
                 then markFailed setScenarioFailure e3 else Some e3)))"

definition executeScenario ::
    "resolver \<Rightarrow> specExecutor \<Rightarrow> scenario \<Rightarrow> (scenarioResult \<times> specExecutor) option" where
  "executeScenario R e0 scn =
     (let e = e0\<lparr>currentExecutionInfo := (currentExecutionInfo e0)
                \<lparr>currentScenario := Some \<lparr>scenarioInfoName = scenarioHeading scn,
                                          scenarioInfoIsFailed = False,
                                          scenarioInfoTags = getTagValue (scenarioTags scn)\<rparr>\<rparr>\<rparr>
      in case addAllItemsForScenarioExecution R e scn (newProtoScenario scn) of
           None \<Rightarrow> None
         | Some shell \<Rightarrow>
             (let scenarioResult = shell\<lparr>pSkipped := Some False\<rparr>
              in if scenarioRef scn \<in> dom (scenarioErrs (errMap e))
                 then Some (setSkipInfoInResult e scenarioResult scn)
                 else runScenario e scenarioResult))"

fun executeScenariosOf ::
    "resolver \<Rightarrow> specExecutor \<Rightarrow> scenario list \<Rightarrow> (scenarioResult list \<times> specExecutor) option" where
  "executeScenariosOf R e [] = Some ([], e)"
| "executeScenariosOf R e (scn # scns) =
     (case executeScenario R e scn of
        None \<Rightarrow> None
      | Some (res, e1) \<Rightarrow>
          (case executeScenariosOf R e1 scns of
             None \<Rightarrow> None
           | Some (rs, e2) \<Rightarrow> Some (res # rs, e2)))"

definition executeScenarios :: "resolver \<Rightarrow> specExecutor \<Rightarrow> (scenarioResult list \<times> specExecutor) option" where
  "executeScenarios R e = executeScenariosOf R e (scenarios (specification' e))"

subsection \<open>Specifications (lines 99 to 164)\<close>

definition getSkippedScenarioResult ::
    "resolver \<Rightarrow> specExecutor \<Rightarrow> scenario \<Rightarrow> (scenarioResult \<times> specExecutor) option" where
  "getSkippedScenarioResult R e scn =
     (case addAllItemsForScenarioExecution R e scn (newProtoScenario scn) of
        None \<Rightarrow> None
      | Some scenarioResult \<Rightarrow> Some (setSkipInfoInResult e scenarioResult scn))"

fun getSkippedScenarioResults ::
    "resolver \<Rightarrow> specExecutor \<Rightarrow> scenario list \<Rightarrow> (scenarioResult list \<times> specExecutor) option" where
  "getSkippedScenarioResults R e [] = Some ([], e)"
| "getSkippedScenarioResults R e (scn # scns) =
     (case getSkippedScenarioResult R e scn of
        None \<Rightarrow> None
      | Some (res, e1) \<Rightarrow>
          (case getSkippedScenarioResults R e1 scns of
             None \<Rightarrow> None
           | Some (rs, e2) \<Rightarrow> Some (res # rs, e2)))"

definition getSkippedSpecResult :: "resolver \<Rightarrow> specExecutor \<Rightarrow> (specResult \<times> specExecutor) option" where
  "getSkippedSpecResult R e =
     (case getSkippedScenarioResults R e (scenarios (specification' e)) of
        None \<Rightarrow> None
      | Some (scenarioResults, e1) \<Rightarrow>
          (let e2 = e1\<lparr>specResult := (addScenarioResults scenarioResults (specResult e1))\<lparr>resSkipped := True\<rparr>\<rparr>
           in Some (specResult e2, e2)))"

text \<open>
  The loop of \<^verbatim>\<open>executeTableDrivenSpec\<close>, from row \<open>row\<close> to row \<open>endRow\<close> (the end of the
  executor's range, which nothing in the loop writes). \<^verbatim>\<open>Rows()[currentTableRow]\<close>
  panics outside the table.
\<close>

function executeRows ::
    "resolver \<Rightarrow> int \<Rightarrow> int \<Rightarrow> specExecutor \<Rightarrow> scenarioResult list list
       \<Rightarrow> (scenarioResult list list \<times> specExecutor) option" where
  "executeRows R endRow row e0 acc =
     (let e = e0\<lparr>currentTableRow := row\<rparr> in
      if row \<le> endRow
      then (if row < 0 \<or> getRowCount (dataTable (specification' e)) \<le> row then None
            else (case executeScenarios R e of
                    None \<Rightarrow> None
                  | Some (rs, e1) \<Rightarrow> executeRows R endRow (row + 1) e1 (acc @ [rs])))
      else Some (acc, e))"
  by pat_completeness auto
termination
  by (relation "measure (\<lambda>(R, endRow, row, e, acc). nat (endRow + 1 - row))") auto

definition executeTableDrivenSpec :: "resolver \<Rightarrow> specExecutor \<Rightarrow> specExecutor option" where
  "executeTableDrivenSpec R e =
     (case executeRows R (rangeEnd (dataTableIndex e)) (rangeStart (dataTableIndex e)) e [] of
        None \<Rightarrow> None
      | Some (dataTableScenarioExecutionResult, e1) \<Rightarrow>
          Some (e1\<lparr>specResult := addTableDrivenScenarioResult dataTableScenarioExecutionResult (specResult e1)\<rparr>))"

text \<open>\<open>runSpec\<close> is \<^verbatim>\<open>execute\<close> from line 127 on, for a specification that is not skipped.\<close>

definition runSpec :: "resolver \<Rightarrow> specExecutor \<Rightarrow> (specResult \<times> specExecutor) option" where
  "runSpec R e =
     (let (beforeSpecHookStatus, e1) = executeBeforeSpecHook e in
      case (if getFailed (heap e1 beforeSpecHookStatus)
            then markFailed setSpecFailure
                   (e1\<lparr>specResult := addSpecPreHook (specResult e1) (heap e1 beforeSpecHookStatus)\<rparr>)
            else if getRowCount (dataTable (specification' e1)) = 0
            then (case executeScenarios R e1 of
                    None \<Rightarrow> None
                  | Some (scenarioResult, e2) \<Rightarrow>
                      Some (e2\<lparr>specResult := addScenarioResults scenarioResult (specResult e2)\<rparr>))
            else executeTableDrivenSpec R e1) of
        None \<Rightarrow> None
      | Some e2 \<Rightarrow>
          (let (afterSpecHookStatus, e3) = executeAfterSpecHook e2 in
           case (if getFailed (heap e3 afterSpecHookStatus)
                 then markFailed setSpecFailure
                        (e3\<lparr>specResult := addSpecPostHook (specResult e3) (heap e3 afterSpecHookStatus)\<rparr>)
                 else Some e3) of
             None \<Rightarrow> None
           | Some e4 \<Rightarrow>
               (let e5 = e4\<lparr>specResult := (specResult e4)
                            \<lparr>resSkipped := 0 < scenarioSkippedCount (specResult e4)\<rparr>\<rparr>
                in Some (specResult e5, e5))))"

definition execute :: "resolver \<Rightarrow> specExecutor \<Rightarrow> (specResult \<times> specExecutor) option" where
  "execute R e0 =
     (let sp = specification' e0;
          specInfo = \<lparr>specInfoName = specHeading sp, specInfoFileName = specFileName sp,
                      specInfoIsFailed = False, specInfoTags = getTagValue (specTags sp)\<rparr>;
          e = e0\<lparr>currentExecutionInfo :=
                   \<lparr>currentSpec = Some specInfo, currentScenario = None, currentStep = None\<rparr>,
                 specResult := newSpecResult sp\<rparr>
      in case resolveItems R e (specItems sp) of
           None \<Rightarrow> None
         | Some resolvedSpecItems \<Rightarrow>
             (let e1 = e\<lparr>specResult := addSpecItems resolvedSpecItems (specResult e)\<rparr>
              in if specRef sp \<in> dom (specErrs (errMap e1))
                 then getSkippedSpecResult R e1
                 else runSpec R e1))"

section \<open>Notions used in the properties\<close>

text \<open>A reply that is not an execution status response carrying a result.\<close>

fun isProtocolError :: "reply \<Rightarrow> bool" where
  "isProtocolError (TransportError err) = True"
| "isProtocolError (Reply (ExecutionStatusResponse None)) = True"
| "isProtocolError (Reply (ExecutionStatusResponse (Some r))) = False"
| "isProtocolError (Reply (OtherResponse ty)) = True"

text \<open>A reply that makes the round trip report failure: a protocol error, or a failed result.\<close>

fun replyFailed :: "reply \<Rightarrow> bool" where
  "replyFailed (Reply (ExecutionStatusResponse (Some r))) = getFailed r"
| "replyFailed r = True"

text \<open>The result object a round trip returns, read from the heap it leaves.\<close>

definition roundTripResult :: "specExecutor \<Rightarrow> message \<Rightarrow> protoExecutionResult" where
  "roundTripResult e m = heap (snd (executeAndGetStatus e m)) (fst (executeAndGetStatus e m))"

text \<open>The fields of the executor that executing items leaves alone.\<close>

definition sameEnv :: "specExecutor \<Rightarrow> specExecutor \<Rightarrow> bool" where
  "sameEnv e e' \<longleftrightarrow>
     specification' e' = specification' e \<and> dataTableIndex e' = dataTableIndex e \<and>
     runner e' = runner e \<and> specResult e' = specResult e \<and>
     currentTableRow e' = currentTableRow e \<and> errMap e' = errMap e"

text \<open>
  The execution info names a current specification and a current scenario, as it does
  from line 205 of \<^verbatim>\<open>executeScenario\<close> on: \<^verbatim>\<open>setStepFailure\<close> dereferences both.
\<close>

definition inScenario :: "specExecutor \<Rightarrow> bool" where
  "inScenario e \<longleftrightarrow>
     currentSpec (currentExecutionInfo e) \<noteq> None \<and> currentScenario (currentExecutionInfo e) \<noteq> None"

text \<open>The execution info a step's hooks start from (line 451).\<close>

definition stepStarting :: "specExecutor \<Rightarrow> protoStep \<Rightarrow> executionInfo" where
  "stepStarting e st =
     (currentExecutionInfo e)\<lparr>currentStep :=
        Some \<lparr>stepInfoStep = createStepRequest st, stepInfoIsFailed = False\<rparr>\<rparr>"

subsection \<open>A small run\<close>

text \<open>
  A resolver that resolves no parameter, plain steps named by their text, and a runner
  that answers every hook with success in no time and a step by its text: \<open>S1\<close> passes
  in 10 ms, \<open>S2\<close> fails in 5 ms, \<open>S3\<close> passes in 1 ms, any other step passes in 2 ms.
\<close>

definition plainResolver :: resolver where
  "plainResolver =
     \<lparr>resolveParams = (\<lambda>d p look. []), populateLookup = (\<lambda>d p look. lookup d),
      fromDataTableRow = (\<lambda>t row. [])\<rparr>"

definition plainStep :: "addr \<Rightarrow> string \<Rightarrow> step" where
  "plainStep ref txt =
     Step \<lparr>stepRef = ref, lineNo = 1, lineText = txt, stepValue = txt, isConcept = False,
           stepArgs = [], stepFragments = [], lookup = []\<rparr> None []"

definition status :: "bool \<Rightarrow> int64 \<Rightarrow> reply" where
  "status f t =
     Reply (ExecutionStatusResponse (Some
       \<lparr>failed = Some f, recoverableError = None, errorMessage = None, stackTrace = None,
        executionTime = Some t, message = []\<rparr>))"

fun scriptedRunner :: "message list \<Rightarrow> message \<Rightarrow> reply" where
  "scriptedRunner h (ExecuteStep req) =
     (if reqActualStepText req = ''S1'' then status False 10
      else if reqActualStepText req = ''S2'' then status True 5
      else if reqActualStepText req = ''S3'' then status False 1
      else status False 2)"
| "scriptedRunner h m = status False 0"

definition emptySpec :: gaugeSpecification where
  "emptySpec =
     \<lparr>specRef = 0, specHeading = ''Spec'', specFileName = ''a.spec'', specTags = None,
      contexts = [], tearDownSteps = [], dataTable = \<lparr>headers = [], tableRows = []\<rparr>,
      scenarios = [], specItems = []\<rparr>"

definition noErrs :: validationErrMaps where
  "noErrs = \<lparr>specErrs = Map.empty, scenarioErrs = Map.empty, stepErrs = Map.empty\<rparr>"

definition executorOf ::
    "gaugeSpecification \<Rightarrow> (message list \<Rightarrow> message \<Rightarrow> reply) \<Rightarrow> validationErrMaps \<Rightarrow> specExecutor" where
  "executorOf sp rn em =
     \<lparr>specification' = sp, dataTableIndex = \<lparr>rangeStart = 0, rangeEnd = 0\<rparr>, runner = rn,
      currentExecutionInfo =
        \<lparr>currentSpec = Some \<lparr>specInfoName = specHeading sp, specInfoFileName = specFileName sp,
                              specInfoIsFailed = False, specInfoTags = []\<rparr>,
         currentScenario = Some \<lparr>scenarioInfoName = ''Scenario'', scenarioInfoIsFailed = False,
                                  scenarioInfoTags = []\<rparr>,
         currentStep = None\<rparr>,
      specResult = newSpecResult sp, currentTableRow = 0, errMap = em,
      heap = (\<lambda>a. errorResult []), nextAddr = 0, sent = [], notified = []\<rparr>"

definition protoStepOf :: "string \<Rightarrow> protoStep" where
  "protoStepOf txt =
     \<lparr>actualText = txt, parsedText = txt, fragments = [],
      stepExecutionResult = Some (emptyStepExecutionResult\<lparr>skipped := Some False\<rparr>)\<rparr>"

definition specStarting :: "gaugeSpecification \<Rightarrow> executionInfo" where
  "specStarting sp =
     \<lparr>currentSpec = Some \<lparr>specInfoName = specHeading sp, specInfoFileName = specFileName sp,
                           specInfoIsFailed = False, specInfoTags = getTagValue (specTags sp)\<rparr>,
      currentScenario = None, currentStep = None\<rparr>"

definition skippedShell :: "validationErrMaps \<Rightarrow> scenario \<Rightarrow> scenarioResult \<Rightarrow> scenarioResult" where
  "skippedShell em scn shell =
     shell\<lparr>pSkipped := Some True,
           pSkipErrors := map skipError (case scenarioErrs em (scenarioRef scn) of None \<Rightarrow> [] | Some errs \<Rightarrow> errs)\<rparr>"

definition bumpSkipped :: "nat \<Rightarrow> specExecutor \<Rightarrow> specExecutor" where
  "bumpSkipped n e =
     e\<lparr>specResult := (specResult e)\<lparr>scenarioSkippedCount := scenarioSkippedCount (specResult e) + n\<rparr>\<rparr>"

definition oneError :: stepValidationError where
  "oneError =
     \<lparr>errFileName = ''a.spec'', errStepLineNo = 12, errStepLineText = ''* S1'',
      errMessage = ''Step implementation not found''\<rparr>"

definition scenarioOf :: "addr \<Rightarrow> step list \<Rightarrow> scenario" where
  "scenarioOf ref sts =
     \<lparr>scenarioRef = ref, scenarioHeading = ''Scenario'', scenarioTags = None,
      scenarioItems = map StepItem sts\<rparr>"

definition specOf :: "scenario list \<Rightarrow> gaugeSpecification" where
  "specOf scns = emptySpec\<lparr>scenarios := scns\<rparr>"

text \<open>The text an item of the static tree and a proto item are known by.\<close>

fun itemText :: "item \<Rightarrow> string" where
  "itemText (StepItem st) = lineText (stepData st)"
| "itemText (CommentItem c) = c"
| "itemText TearDownItem = []"

fun protoItemText :: "protoItem \<Rightarrow> string" where
  "protoItemText (ProtoItem_Step protoStep) = actualText protoStep"
| "protoItemText (ProtoItem_Concept conceptStep steps cres) = actualText conceptStep"
| "protoItemText (ProtoItem_Comment c) = c"

definition contextSpec :: gaugeSpecification where
  "contextSpec =
     emptySpec\<lparr>contexts := [plainStep 20 ''Ctx''], tearDownSteps := [plainStep 30 ''Td''],
               scenarios := [scenarioOf 5 [plainStep 10 ''S1'']]\<rparr>"

subsection \<open>Concepts and their children\<close>

text \<open>
  The result object of an item: what \<^verbatim>\<open>GetStep().GetStepExecutionResult().GetExecutionResult()\<close>
  and \<^verbatim>\<open>GetConcept().GetConceptExecutionResult().GetExecutionResult()\<close> read at lines 414 to 421.
\<close>

fun itemResult :: "protoItem \<Rightarrow> addr option" where
  "itemResult (ProtoItem_Step protoStep) = getExecutionResult (stepExecutionResult protoStep)"
| "itemResult (ProtoItem_Concept conceptStep steps cres) = getExecutionResult cres"
| "itemResult (ProtoItem_Comment c) = None"

text \<open>
  An item as resolution leaves it, before it is executed: a step has its (empty) step
  execution result and no result object yet, a concept has none, and so for its children.
\<close>

fun fresh :: "protoItem \<Rightarrow> bool" where
  "fresh (ProtoItem_Step protoStep) =
     (stepExecutionResult protoStep \<noteq> None \<and> getExecutionResult (stepExecutionResult protoStep) = None)"
| "fresh (ProtoItem_Concept conceptStep steps cres) =
     (getExecutionResult cres = None \<and> (\<forall>x \<in> set steps. fresh x))"
| "fresh (ProtoItem_Comment c) = True"

text \<open>
  The children the loop of \<^verbatim>\<open>executeConcept\<close> (lines 396 to 408) executes, in order: for
  each child that \<^verbatim>\<open>executeItem\<close> is called on, whether the call reported failure and the
  execution time the child's result carries when the call returns. The loop is the one of
  \<open>executeConceptSteps\<close>; it records instead of building the item.
\<close>

fun conceptLog ::
    "specExecutor \<Rightarrow> protoStep \<Rightarrow> protoStepExecutionResult option \<Rightarrow> protoItem list \<Rightarrow> protoItem list
       \<Rightarrow> (bool \<times> int64) list option" where
  "conceptLog e conceptStep cres done [] = Some []"
| "conceptLog e conceptStep cres done (step # rest) =
     (case executeItem e step of
        None \<Rightarrow> None
      | Some (failure, step', e1) \<Rightarrow>
          (case setExecutionResultForConcept e1 conceptStep (done @ step' # rest) of
             (conceptStep', cres', e2) \<Rightarrow>
               if failure then Some [(True, itemTime (heap e1) step')]
               else map_option ((#) (False, itemTime (heap e1) step'))
                      (conceptLog e2 conceptStep' cres' (done @ [step']) rest)))"

text \<open>What executing a fresh item establishes.\<close>

definition executed :: "specExecutor \<Rightarrow> bool \<Rightarrow> protoItem \<Rightarrow> specExecutor \<Rightarrow> bool" where
  "executed e f x' e' \<longleftrightarrow>
     f = failedAt (heap e') (itemResult x') \<and>
     (\<forall>a. itemResult x' = Some a \<longrightarrow> nextAddr e \<le> a \<and> a < nextAddr e') \<and>
     nextAddr e \<le> nextAddr e' \<and> (\<forall>a<nextAddr e. heap e' a = heap e a) \<and>
     sameEnv e e' \<and> inScenario e'"

text \<open>The state of the aggregate between two iterations of the loop.\<close>

definition aggregated :: "specExecutor \<Rightarrow> protoStepExecutionResult option \<Rightarrow> protoItem list \<Rightarrow> bool" where
  "aggregated e cres done \<longleftrightarrow>
     \<not> failedAt (heap e) (getExecutionResult cres) \<and>
     timeAt (heap e) (getExecutionResult cres) = sum_list (map (itemTime (heap e)) done) \<and>
     (\<forall>a. getExecutionResult cres = Some a \<longrightarrow> a < nextAddr e) \<and>
     (\<forall>y \<in> set done. \<not> failedAt (heap e) (itemResult y) \<and>
        (\<forall>a. itemResult y = Some a \<longrightarrow> a < nextAddr e))"

text \<open>What the loop establishes from such a state.\<close>

definition loopRun ::
    "specExecutor \<Rightarrow> protoStepExecutionResult option \<Rightarrow> protoItem list \<Rightarrow> protoItem list
       \<Rightarrow> bool \<Rightarrow> protoItem \<Rightarrow> specExecutor \<Rightarrow> (bool \<times> int64) list \<Rightarrow> bool" where
  "loopRun e cres done rest f x' e' log \<longleftrightarrow>
     (\<exists>cs' cres' exd.
        x' = ProtoItem_Concept cs' (done @ exd @ drop (length log) rest) cres' \<and>
        length exd = length log \<and>
        f = failedAt (heap e') (getExecutionResult cres') \<and>
        timeAt (heap e') (getExecutionResult cres') =
          sum_list (map (itemTime (heap e)) done) + sum_list (map snd log) \<and>
        (\<forall>a. getExecutionResult cres' = Some a \<longrightarrow>
           a < nextAddr e' \<and> (getExecutionResult cres = Some a \<or> nextAddr e \<le> a))) \<and>
     length log \<le> length rest \<and>
     nextAddr e \<le> nextAddr e' \<and> (\<forall>a<nextAddr e. heap e' a = heap e a) \<and>
     sameEnv e e' \<and> inScenario e' \<and>
     (\<forall>p \<in> set (butlast log). \<not> fst p) \<and>
     (f \<longrightarrow> log \<noteq> [] \<and> fst (last log)) \<and>
     (\<not> f \<longrightarrow> length log = length rest \<and> (\<forall>p \<in> set log. \<not> fst p))"

subsection \<open>Reading the trace\<close>

datatype messageType = Message_SpecExecutionStarting | Message_SpecExecutionEnding
  | Message_ScenarioExecutionStarting | Message_ScenarioExecutionEnding
  | Message_StepExecutionStarting | Message_StepExecutionEnding | Message_ExecuteStep
  | Message_SpecDataStoreInit | Message_ScenarioDataStoreInit

fun messageTypeOf :: "message \<Rightarrow> messageType" where
  "messageTypeOf (SpecExecutionStarting i) = Message_SpecExecutionStarting"
| "messageTypeOf (SpecExecutionEnding i) = Message_SpecExecutionEnding"
| "messageTypeOf (ScenarioExecutionStarting i) = Message_ScenarioExecutionStarting"
| "messageTypeOf (ScenarioExecutionEnding i) = Message_ScenarioExecutionEnding"
| "messageTypeOf (StepExecutionStarting i) = Message_StepExecutionStarting"
| "messageTypeOf (StepExecutionEnding i) = Message_StepExecutionEnding"
| "messageTypeOf (ExecuteStep r) = Message_ExecuteStep"
| "messageTypeOf SpecDataStoreInit = Message_SpecDataStoreInit"
| "messageTypeOf ScenarioDataStoreInit = Message_ScenarioDataStoreInit"

text \<open>The text of the step a message is about, if it is about a step.\<close>

fun messageStep :: "message \<Rightarrow> string" where
  "messageStep (StepExecutionStarting i) = (case currentStep i of None \<Rightarrow> [] | Some s \<Rightarrow> reqActualStepText (stepInfoStep s))"
| "messageStep (StepExecutionEnding i) = (case currentStep i of None \<Rightarrow> [] | Some s \<Rightarrow> reqActualStepText (stepInfoStep s))"
| "messageStep (ExecuteStep r) = reqActualStepText r"
| "messageStep m = []"

subsection \<open>Children that were executed\<close>

text \<open>A result object with a failure flag and an execution time.\<close>

definition resultOf :: "bool \<Rightarrow> int64 \<Rightarrow> protoExecutionResult" where
  "resultOf f t =
     \<lparr>failed = Some f, recoverableError = None, errorMessage = None, stackTrace = None,
      executionTime = Some t, message = []\<rparr>"

text \<open>A step that was executed, its result object at an address.\<close>

definition ranStep :: "string \<Rightarrow> addr \<Rightarrow> protoItem" where
  "ranStep txt a =
     ProtoItem_Step ((protoStepOf txt)\<lparr>stepExecutionResult :=
        Some (emptyStepExecutionResult\<lparr>executionResult := Some a, skipped := Some False\<rparr>)\<rparr>)"

text \<open>
  An executor whose heap holds a passed result (10 ms) at address 3 and a failed result (5 ms)
  at address 4.
\<close>

definition twoRan :: specExecutor where
  "twoRan =
     (executorOf emptySpec scriptedRunner noErrs)
       \<lparr>heap := (\<lambda>a. resultOf False 0)(3 := resultOf False 10, 4 := resultOf True 5), nextAddr := 5\<rparr>"

subsection \<open>Items of a scenario\<close>

text \<open>
  What executing a list of fresh items establishes: the failure flag says whether an item
  of the list has a failed result, and the results lie at addresses allocated by the call.
\<close>

definition itemsExecuted :: "specExecutor \<Rightarrow> bool \<Rightarrow> protoItem list \<Rightarrow> specExecutor \<Rightarrow> bool" where
  "itemsExecuted e f xs' e' \<longleftrightarrow>
     f = (\<exists>x \<in> set xs'. failedAt (heap e') (itemResult x)) \<and>
     (\<forall>x \<in> set xs'. \<forall>a. itemResult x = Some a \<longrightarrow> nextAddr e \<le> a \<and> a < nextAddr e') \<and>
     nextAddr e \<le> nextAddr e' \<and> (\<forall>a<nextAddr e. heap e' a = heap e a) \<and>
     sameEnv e e' \<and> inScenario e'"

text \<open>The execution info the hooks of a scenario start from (line 205).\<close>

definition scenarioStarting :: "specExecutor \<Rightarrow> scenario \<Rightarrow> executionInfo" where
  "scenarioStarting e scn =
     (currentExecutionInfo e)\<lparr>currentScenario :=
        Some \<lparr>scenarioInfoName = scenarioHeading scn, scenarioInfoIsFailed = False,
              scenarioInfoTags = getTagValue (scenarioTags scn)\<rparr>\<rparr>"

text \<open>
  Two specifications for the runner above: in one the context step fails, in the other
  the first step of the scenario fails; both have a tear-down step.
\<close>

definition failingContextSpec :: gaugeSpecification where
  "failingContextSpec =
     emptySpec\<lparr>contexts := [plainStep 20 ''S2''], tearDownSteps := [plainStep 30 ''S3''],
               scenarios := [scenarioOf 5 [plainStep 10 ''S1'']]\<rparr>"

definition failingBodySpec :: gaugeSpecification where
  "failingBodySpec =
     emptySpec\<lparr>contexts := [plainStep 20 ''S1''], tearDownSteps := [plainStep 30 ''S3''],
               scenarios := [scenarioOf 5 [plainStep 10 ''S2'', plainStep 11 ''S4'']]\<rparr>"

subsection \<open>Skip flags\<close>

text \<open>The skip flag an item carries in its result, as resolution sets it (lines 332 to 339).\<close>

fun itemSkipped :: "protoItem \<Rightarrow> bool option" where
  "itemSkipped (ProtoItem_Step protoStep) =
     (case stepExecutionResult protoStep of None \<Rightarrow> None | Some r \<Rightarrow> skipped r)"
| "itemSkipped (ProtoItem_Concept conceptStep steps cres) =
     (case cres of None \<Rightarrow> None | Some r \<Rightarrow> skipped r)"
| "itemSkipped (ProtoItem_Comment c) = None"

text \<open>
  The step \<open>S1\<close> as it is resolved when it is in the step skip map, a skip map that holds
  only that step, and one that also holds its scenario.
\<close>

definition skippedStep :: protoStep where
  "skippedStep =
     (protoStepOf ''S1'')\<lparr>stepExecutionResult :=
        Some (emptyStepExecutionResult\<lparr>skipped := Some True,
                skippedReason := Some ''Step implemenatation not found''\<rparr>)\<rparr>"

definition stepSkipErrs :: validationErrMaps where
  "stepSkipErrs = noErrs\<lparr>stepErrs := [10 \<mapsto> [oneError]]\<rparr>"

definition bothSkipErrs :: validationErrMaps where
  "bothSkipErrs = noErrs\<lparr>scenarioErrs := [5 \<mapsto> [oneError]], stepErrs := [10 \<mapsto> [oneError]]\<rparr>"

section \<open>Auxiliary facts\<close>

subsection \<open>Allocation and the round trip\<close>

lemma alloc_simps [simp]:
  "fst (alloc r e) = nextAddr e"
  "heap (snd (alloc r e)) = (heap e)(nextAddr e := r)"
  "nextAddr (snd (alloc r e)) = Suc (nextAddr e)"
  "sent (snd (alloc r e)) = sent e"
  "notified (snd (alloc r e)) = notified e"
  "currentExecutionInfo (snd (alloc r e)) = currentExecutionInfo e"
  "specResult (snd (alloc r e)) = specResult e"
  "errMap (snd (alloc r e)) = errMap e"
  "runner (snd (alloc r e)) = runner e"
  "specification' (snd (alloc r e)) = specification' e"
  "dataTableIndex (snd (alloc r e)) = dataTableIndex e"
  "currentTableRow (snd (alloc r e)) = currentTableRow e"
  by (simp_all add: alloc_def)

lemma getFailed_simps [simp]:
  "getFailed \<lparr>failed = f, recoverableError = a, errorMessage = b, stackTrace = c, executionTime = d,
      message = g\<rparr> = (f = Some True)"
  "getFailed (r\<lparr>executionTime := t\<rparr>) = getFailed r"
  "getFailed (r\<lparr>message := ms\<rparr>) = getFailed r"
  "getFailed (r\<lparr>failed := Some v\<rparr>) = v"
  by (auto simp: getFailed_def split: option.splits)

lemma getRecoverableError_simps [simp]:
  "getRecoverableError \<lparr>failed = f, recoverableError = a, errorMessage = b, stackTrace = c,
      executionTime = d, message = g\<rparr> = (a = Some True)"
  "getRecoverableError (r\<lparr>executionTime := t\<rparr>) = getRecoverableError r"
  "getRecoverableError (r\<lparr>message := ms\<rparr>) = getRecoverableError r"
  "getRecoverableError (r\<lparr>failed := v\<rparr>) = getRecoverableError r"
  by (auto simp: getRecoverableError_def split: option.splits)

lemma notifyPlugins_simps [simp]:
  "heap (notifyPlugins e m) = heap e"
  "nextAddr (notifyPlugins e m) = nextAddr e"
  "sent (notifyPlugins e m) = sent e"
  "notified (notifyPlugins e m) = notified e @ [m]"
  "currentExecutionInfo (notifyPlugins e m) = currentExecutionInfo e"
  "specResult (notifyPlugins e m) = specResult e"
  "errMap (notifyPlugins e m) = errMap e"
  "runner (notifyPlugins e m) = runner e"
  "specification' (notifyPlugins e m) = specification' e"
  "dataTableIndex (notifyPlugins e m) = dataTableIndex e"
  "currentTableRow (notifyPlugins e m) = currentTableRow e"
  by (simp_all add: notifyPlugins_def)

lemma executeAndGetStatus_fst [simp]: "fst (executeAndGetStatus e m) = nextAddr e"
  by (simp add: executeAndGetStatus_def Let_def split: reply.splits response.splits option.splits)

lemma executeAndGetStatus_frame [simp]:
  "sent (snd (executeAndGetStatus e m)) = sent e @ [m]"
  "notified (snd (executeAndGetStatus e m)) = notified e"
  "currentExecutionInfo (snd (executeAndGetStatus e m)) = currentExecutionInfo e"
  "specResult (snd (executeAndGetStatus e m)) = specResult e"
  "errMap (snd (executeAndGetStatus e m)) = errMap e"
  "runner (snd (executeAndGetStatus e m)) = runner e"
  "specification' (snd (executeAndGetStatus e m)) = specification' e"
  "dataTableIndex (snd (executeAndGetStatus e m)) = dataTableIndex e"
  "currentTableRow (snd (executeAndGetStatus e m)) = currentTableRow e"
  "nextAddr (snd (executeAndGetStatus e m)) = Suc (nextAddr e)"
  by (simp_all add: executeAndGetStatus_def Let_def split: reply.splits response.splits option.splits)

lemma executeAndGetStatus_heap_old [simp]:
  "a \<noteq> nextAddr e \<Longrightarrow> heap (snd (executeAndGetStatus e m)) a = heap e a"
  by (simp add: executeAndGetStatus_def Let_def split: reply.splits response.splits option.splits)

lemma executeAndGetStatus_failed [simp]:
  "a = nextAddr e \<Longrightarrow>
   getFailed (heap (snd (executeAndGetStatus e m)) a) = replyFailed (runner e (sent e) m)"
  by (simp add: executeAndGetStatus_def Let_def errorResult_def
      split: reply.splits response.splits option.splits)

lemma executeAndGetStatus_error:
  "isProtocolError (runner e (sent e) m) \<Longrightarrow>
     getFailed (heap (snd (executeAndGetStatus e m)) (nextAddr e)) \<and>
     (\<exists>msg. errorMessage (heap (snd (executeAndGetStatus e m)) (nextAddr e)) = Some msg) \<and>
     \<not> getRecoverableError (heap (snd (executeAndGetStatus e m)) (nextAddr e))"
  by (auto simp: executeAndGetStatus_def Let_def errorResult_def
      split: reply.splits response.splits option.splits)

subsection \<open>Steps\<close>

lemma setStepFailure_Some:
  "currentSpec i = Some sp \<Longrightarrow> currentScenario i = Some sc \<Longrightarrow> currentStep i = Some st \<Longrightarrow>
   setStepFailure i = Some (i\<lparr>currentSpec := Some (sp\<lparr>specInfoIsFailed := True\<rparr>),
       currentScenario := Some (sc\<lparr>scenarioInfoIsFailed := True\<rparr>),
       currentStep := Some (st\<lparr>stepInfoIsFailed := True\<rparr>)\<rparr>)"
  by (simp add: setStepFailure_def setScenarioFailure_def setSpecFailure_def)

lemma addExecutionTimes_other [simp]: "b \<noteq> a \<Longrightarrow> addExecutionTimes h a rs b = h b"
  by (induction rs arbitrary: h) simp_all

lemma addExecutionTimes_failed [simp]: "getFailed (addExecutionTimes h a rs a) = getFailed (h a)"
  by (induction rs arbitrary: h) simp_all

lemma addExecutionTimes_recoverable [simp]:
  "getRecoverableError (addExecutionTimes h a rs a) = getRecoverableError (h a)"
  by (induction rs arbitrary: h) simp_all

lemma runStep_Some:
  assumes "inScenario e" "currentStep (currentExecutionInfo e) \<noteq> None"
  shows "\<exists>res e'. runStep e req = Some (nextAddr e, res, e') \<and>
           executionResult res = Some (Suc (nextAddr e)) \<and>
           nextAddr e' = Suc (Suc (nextAddr e)) \<and>
           sent e' = sent e @ StepExecutionStarting (currentExecutionInfo e) #
              (if replyFailed (runner e (sent e) (StepExecutionStarting (currentExecutionInfo e)))
               then [] else [ExecuteStep req]) \<and>
           notified e' = notified e @ [StepExecutionStarting (currentExecutionInfo e)] \<and>
           (\<forall>a < nextAddr e. heap e' a = heap e a) \<and>
           (replyFailed (runner e (sent e) (StepExecutionStarting (currentExecutionInfo e))) \<longrightarrow>
              getFailed (heap e' (Suc (nextAddr e))) \<and> \<not> getRecoverableError (heap e' (Suc (nextAddr e)))) \<and>
           sameEnv e e' \<and> inScenario e' \<and> currentStep (currentExecutionInfo e') \<noteq> None"
proof -
  obtain sp sc st where i: "currentSpec (currentExecutionInfo e) = Some sp"
      "currentScenario (currentExecutionInfo e) = Some sc" "currentStep (currentExecutionInfo e) = Some st"
    using assms by (auto simp: inScenario_def)
  have mf: "markFailed setStepFailure e' = Some (e'\<lparr>currentExecutionInfo :=
       (currentExecutionInfo e)\<lparr>currentSpec := Some (sp\<lparr>specInfoIsFailed := True\<rparr>),
       currentScenario := Some (sc\<lparr>scenarioInfoIsFailed := True\<rparr>),
       currentStep := Some (st\<lparr>stepInfoIsFailed := True\<rparr>)\<rparr>\<rparr>)"
    if "currentExecutionInfo e' = currentExecutionInfo e" for e'
    using that i by (simp add: markFailed_def setStepFailure_Some)
  show ?thesis
    unfolding runStep_def executeBeforeStepHook_def
    by (simp add: Let_def split_beta mf sameEnv_def inScenario_def i emptyStepExecutionResult_def)
qed

lemma executeStep_Some:
  assumes "inScenario e" "stepExecutionResult st = Some old"
  shows "\<exists>f st' e'. executeStep e st = Some (f, st', e') \<and>
           f = getFailed (heap e' (Suc (nextAddr e))) \<and>
           st' = st\<lparr>stepExecutionResult := stepExecutionResult st'\<rparr> \<and>
           (\<exists>res. stepExecutionResult st' = Some res \<and>
              executionResult res = Some (Suc (nextAddr e)) \<and>
              skipped res = skipped old \<and> skippedReason res = skippedReason old) \<and>
           nextAddr e' = Suc (Suc (Suc (nextAddr e))) \<and>
           (\<exists>i. sent e' = sent e @ StepExecutionStarting (stepStarting e st) #
              (if replyFailed (runner e (sent e) (StepExecutionStarting (stepStarting e st)))
               then [] else [ExecuteStep (createStepRequest st)]) @ [StepExecutionEnding i]) \<and>
           (\<forall>a < nextAddr e. heap e' a = heap e a) \<and>
           (replyFailed (runner e (sent e) (StepExecutionStarting (stepStarting e st))) \<longrightarrow>
              f \<and> \<not> getRecoverableError (heap e' (Suc (nextAddr e)))) \<and>
           sameEnv e e' \<and> inScenario e'"
proof -
  let ?e = "e\<lparr>currentExecutionInfo := stepStarting e st\<rparr>"
  have pre: "inScenario ?e" "currentStep (currentExecutionInfo ?e) \<noteq> None"
    using assms(1) by (simp_all add: inScenario_def stepStarting_def)
  from runStep_Some [OF pre, of "createStepRequest st"]
  obtain res e1 where r: "runStep ?e (createStepRequest st) = Some (nextAddr e, res, e1)"
      "executionResult res = Some (Suc (nextAddr e))"
      "nextAddr e1 = Suc (Suc (nextAddr e))"
      "sent e1 = sent e @ StepExecutionStarting (stepStarting e st) #
              (if replyFailed (runner e (sent e) (StepExecutionStarting (stepStarting e st)))
               then [] else [ExecuteStep (createStepRequest st)])"
      "\<forall>a < nextAddr e. heap e1 a = heap e a"
      "replyFailed (runner e (sent e) (StepExecutionStarting (stepStarting e st))) \<longrightarrow>
              getFailed (heap e1 (Suc (nextAddr e))) \<and> \<not> getRecoverableError (heap e1 (Suc (nextAddr e)))"
      "sameEnv ?e e1" "inScenario e1" "currentStep (currentExecutionInfo e1) \<noteq> None"
    by auto
  obtain sp sc cst where i: "currentSpec (currentExecutionInfo e1) = Some sp"
      "currentScenario (currentExecutionInfo e1) = Some sc" "currentStep (currentExecutionInfo e1) = Some cst"
    using r by (auto simp: inScenario_def)
  have mf: "markFailed setStepFailure e' = Some (e'\<lparr>currentExecutionInfo :=
       (currentExecutionInfo e1)\<lparr>currentSpec := Some (sp\<lparr>specInfoIsFailed := True\<rparr>),
       currentScenario := Some (sc\<lparr>scenarioInfoIsFailed := True\<rparr>),
       currentStep := Some (cst\<lparr>stepInfoIsFailed := True\<rparr>)\<rparr>\<rparr>)"
    if "currentExecutionInfo e' = currentExecutionInfo e1" for e'
    using that i by (simp add: markFailed_def setStepFailure_Some)
  have unf: "executeStep e st =
     (case runStep ?e (createStepRequest st) of
           None \<Rightarrow> None
         | Some (beforeHookStatus, res, e1) \<Rightarrow>
             (case executionResult res of
                None \<Rightarrow> None
              | Some a \<Rightarrow>
                  (let (afterStepHookStatus, e2) = executeAfterStepHook e1;
                       e3 = e2\<lparr>heap := addExecutionTimes (heap e2) a [beforeHookStatus, afterStepHookStatus]\<rparr>
                   in case (if getFailed (heap e3 afterStepHookStatus)
                            then map_option
                                   (\<lambda>e4. (res\<lparr>postHookFailure :=
                                                  Some (getProtoHookFailure (heap e3 afterStepHookStatus))\<rparr>,
                                           e4\<lparr>heap := (heap e4)(a := (heap e4 a)\<lparr>failed := Some True\<rparr>)\<rparr>))
                                   (markFailed setStepFailure e3)
                            else Some (res, e3)) of
                        None \<Rightarrow> None
                      | Some (res1, e5) \<Rightarrow>
                          (let e6 = e5\<lparr>heap := (heap e5)
                                      (a := (heap e5 a)\<lparr>message := message (heap e5 afterStepHookStatus)\<rparr>)\<rparr>
                           in case stepExecutionResult st of
                                None \<Rightarrow> None
                              | Some old \<Rightarrow>
                                  Some (getFailed (heap e6 a),
                                        st\<lparr>stepExecutionResult :=
                                          Some (res1\<lparr>skipped := skipped old,
                                                     skippedReason := skippedReason old\<rparr>)\<rparr>,
                                        e6)))))"
    by (simp add: executeStep_def stepStarting_def Let_def)
  show ?thesis
    using r(2-) assms(2)
    unfolding unf executeAfterStepHook_def
    by (simp add: Let_def split_beta mf r(1) sameEnv_def inScenario_def i)
qed

declare showNat.simps [simp del]
declare resolveToProtoItem.simps [simp del]
declare resolveToProtoConceptItem.simps [simp del]
declare executeRows.simps [simp del]

lemma resolveItems_cong:
  "errMap e' = errMap e \<Longrightarrow> specification' e' = specification' e \<Longrightarrow>
   currentTableRow e' = currentTableRow e \<Longrightarrow> resolveItems R e' its = resolveItems R e its"
  by (simp add: resolveItems_def dataTableLookup_def)

lemma addAllItems_cong:
  "errMap e' = errMap e \<Longrightarrow> specification' e' = specification' e \<Longrightarrow>
   currentTableRow e' = currentTableRow e \<Longrightarrow>
   addAllItemsForScenarioExecution R e' scn res = addAllItemsForScenarioExecution R e scn res"
  unfolding addAllItemsForScenarioExecution_def getContextItemsForScenarioExecution_def
    resolveItems_def dataTableLookup_def
  by (simp cong: option.case_cong)

lemma bumpSkipped_0 [simp]: "bumpSkipped 0 e = e"
  by (simp add: bumpSkipped_def)

lemma bumpSkipped_add: "bumpSkipped m (bumpSkipped n e) = bumpSkipped (n + m) e"
  by (simp add: bumpSkipped_def add.assoc)

lemma bumpSkipped_simps [simp]:
  "errMap (bumpSkipped n e) = errMap e"
  "specification' (bumpSkipped n e) = specification' e"
  "currentTableRow (bumpSkipped n e) = currentTableRow e"
  "sent (bumpSkipped n e) = sent e"
  "notified (bumpSkipped n e) = notified e"
  by (simp_all add: bumpSkipped_def)

lemma getSkippedScenarioResults_Some:
  assumes "\<forall>scn \<in> set scns. addAllItemsForScenarioExecution R e scn (newProtoScenario scn) \<noteq> None"
  shows "\<exists>rs. getSkippedScenarioResults R e scns = Some (rs, bumpSkipped (length scns) e) \<and>
           list_all2 (\<lambda>scn r. \<exists>shell. addAllItemsForScenarioExecution R e scn (newProtoScenario scn) = Some shell \<and>
                                r = skippedShell (errMap e) scn shell) scns rs"
  using assms
proof (induction scns arbitrary: e)
  case Nil
  then show ?case by simp
next
  case (Cons scn scns)
  then obtain shell where shell: "addAllItemsForScenarioExecution R e scn (newProtoScenario scn) = Some shell"
    by auto
  let ?bumped = "bumpSkipped (Suc 0) e"
  have one: "getSkippedScenarioResult R e scn = Some (skippedShell (errMap e) scn shell, ?bumped)"
    by (simp add: getSkippedScenarioResult_def shell setSkipInfoInResult_def skippedShell_def bumpSkipped_def)
  have same: "addAllItemsForScenarioExecution R ?bumped s (newProtoScenario s) =
              addAllItemsForScenarioExecution R e s (newProtoScenario s)" for s
    by (rule addAllItems_cong) simp_all
  from Cons.prems have "\<forall>s \<in> set scns. addAllItemsForScenarioExecution R ?bumped s (newProtoScenario s) \<noteq> None"
    by (simp add: same)
  from Cons.IH [OF this]
  obtain rs where rs: "getSkippedScenarioResults R ?bumped scns = Some (rs, bumpSkipped (length scns) ?bumped)"
      "list_all2 (\<lambda>scn r. \<exists>shell. addAllItemsForScenarioExecution R ?bumped scn (newProtoScenario scn) = Some shell \<and>
                                r = skippedShell (errMap ?bumped) scn shell) scns rs"
    by auto
  show ?case
    using one rs shell by (simp add: same bumpSkipped_add)
qed

lemma resolve_plainStep:
  "resolveToProtoItem plainResolver em look (StepItem (plainStep ref txt)) =
     Some (ProtoItem_Step ((protoStepOf txt)\<lparr>stepExecutionResult :=
        Some (emptyStepExecutionResult\<lparr>skipped := Some (ref \<in> dom (stepErrs em)),
               skippedReason := (if ref \<in> dom (stepErrs em) then Some ''Step implemenatation not found'' else None)\<rparr>)\<rparr>))"
  by (auto simp: resolveToProtoItem.simps plainStep_def plainResolver_def resolveToProtoStepItem_def updateProtoStepParameters_def
      convertToProtoStep_def getResolvedParams_def setSkipInfo_def protoStepOf_def
      emptyStepExecutionResult_def split: option.splits)

subsection \<open>Resolution keeps the texts\<close>

lemma convertStepToProtoItem_text: "protoItemText (convertStepToProtoItem st) = lineText (stepData st)"
  by (cases st) (simp add: convertToProtoStep_def)

lemma populate_stepData [simp]:
  "lineText (stepData (populateConceptDynamicParams R c look)) = lineText (stepData c)"
  "isConcept (stepData (populateConceptDynamicParams R c look)) = isConcept (stepData c)"
  by (simp_all add: populateConceptDynamicParams_def)

lemma resolveToProtoConceptItem_text:
  assumes "resolveToProtoConceptItem R em look c = Some (children, p)"
  shows "protoItemText p = lineText (stepData c)"
proof -
  let ?c = "populateConceptDynamicParams R c look"
  have t: "protoItemText (convertStepToProtoItem ?c) = lineText (stepData c)"
    by (simp add: convertStepToProtoItem_text)
  show ?thesis
    using assms t
    by (auto simp: resolveToProtoConceptItem.simps Let_def split: protoItem.splits option.splits)
qed

lemma updateProtoStepParameters_text:
  "updateProtoStepParameters protoStep ps = Some protoStep' \<Longrightarrow> actualText protoStep' = actualText protoStep"
  by (auto simp: updateProtoStepParameters_def)

lemma setSkipInfo_text [simp]: "actualText (setSkipInfo em protoStep st) = actualText protoStep"
  by (simp add: setSkipInfo_def split: option.splits)

lemma resolveToProtoItem_text:
  "resolveToProtoItem R em look it = Some p \<Longrightarrow> protoItemText p = itemText it"
proof (cases it)
  case (StepItem st)
  assume r: "resolveToProtoItem R em look it = Some p"
  show ?thesis
  proof (cases "isConcept (stepData st)")
    case True
    with r StepItem obtain children where "resolveToProtoConceptItem R em look st = Some (children, p)"
      by (auto simp: resolveToProtoItem.simps)
    from resolveToProtoConceptItem_text [OF this] show ?thesis using StepItem by simp
  next
    case False
    with r StepItem show ?thesis
      by (auto simp: resolveToProtoItem.simps resolveToProtoStepItem_def convertToProtoStep_def
          dest!: updateProtoStepParameters_text split: option.splits)
  qed
qed (auto simp: resolveToProtoItem.simps)

lemma resolveItemsWith_texts:
  "resolveItemsWith R em look its = Some ps \<Longrightarrow>
   map protoItemText ps = map itemText (filter (\<lambda>i. i \<noteq> TearDownItem) its)"
proof (induction its arbitrary: ps)
  case Nil
  then show ?case by simp
next
  case (Cons it its)
  show ?case
  proof (cases "it = TearDownItem")
    case True
    with Cons show ?thesis by simp
  next
    case False
    then have unf: "resolveItemsWith R em look (it # its) =
       (case resolveToProtoItem R em look it of None \<Rightarrow> None
        | Some p \<Rightarrow> map_option ((#) p) (resolveItemsWith R em look its))"
      by (cases it) simp_all
    from Cons.prems obtain p ps' where p: "resolveToProtoItem R em look it = Some p"
      and ps': "resolveItemsWith R em look its = Some ps'" and ps: "ps = p # ps'"
      unfolding unf by (auto split: option.splits)
    from Cons.IH [OF ps'] resolveToProtoItem_text [OF p] False ps show ?thesis by simp
  qed
qed

lemma addAllItems_texts:
  assumes "addAllItemsForScenarioExecution R e scn (newProtoScenario scn) = Some shell"
  shows "pScenarioHeading shell = scenarioHeading scn"
    and "map protoItemText (pContexts shell) = map (\<lambda>st. lineText (stepData st)) (contexts (specification' e))"
    and "map protoItemText (pTearDownSteps shell) =
           map (\<lambda>st. lineText (stepData st)) (tearDownSteps (specification' e))"
    and "map protoItemText (pScenarioItems shell) =
           map itemText (filter (\<lambda>i. i \<noteq> TearDownItem) (scenarioItems scn))"
proof -
  from assms obtain cs ts its where
      cs: "resolveItemsWith R (errMap e) (dataTableLookup R e) (map StepItem (contexts (specification' e))) = Some cs"
      and ts: "resolveItemsWith R (errMap e) (dataTableLookup R e) (map StepItem (tearDownSteps (specification' e))) = Some ts"
      and its: "resolveItemsWith R (errMap e) (dataTableLookup R e) (scenarioItems scn) = Some its"
      and shell: "shell = (newProtoScenario scn)\<lparr>pContexts := cs, pTearDownSteps := ts, pScenarioItems := its\<rparr>"
    by (auto simp: addAllItemsForScenarioExecution_def getContextItemsForScenarioExecution_def
        resolveItems_def newProtoScenario_def split: option.splits)
  show "pScenarioHeading shell = scenarioHeading scn"
    by (simp add: shell newProtoScenario_def)
  show "map protoItemText (pContexts shell) = map (\<lambda>st. lineText (stepData st)) (contexts (specification' e))"
    using resolveItemsWith_texts [OF cs] by (simp add: shell filter_map comp_def)
  show "map protoItemText (pTearDownSteps shell) =
           map (\<lambda>st. lineText (stepData st)) (tearDownSteps (specification' e))"
    using resolveItemsWith_texts [OF ts] by (simp add: shell filter_map comp_def)
  show "map protoItemText (pScenarioItems shell) =
           map itemText (filter (\<lambda>i. i \<noteq> TearDownItem) (scenarioItems scn))"
    using resolveItemsWith_texts [OF its] by (simp add: shell)
qed

subsection \<open>The aggregate of a concept\<close>

lemma itemTime_itemResult: "itemTime h x = timeAt h (itemResult x)"
  by (cases x) (simp_all add: timeAt_def)

lemma walkConceptSteps_Cons:
  "walkConceptSteps h t (x # xs) =
     (if failedAt h (itemResult x) then (itemResult x, t + itemTime h x)
      else walkConceptSteps h (t + itemTime h x) xs)"
  by (cases x) (simp_all add: Let_def failedAt_def timeAt_def)

declare walkConceptSteps.simps(2,3,4) [simp del]

lemma walkConceptSteps_done:
  "\<forall>y \<in> set done. \<not> failedAt h (itemResult y) \<Longrightarrow>
   walkConceptSteps h t (done @ xs) = walkConceptSteps h (t + sum_list (map (itemTime h) done)) xs"
  by (induction "done" arbitrary: t) (simp_all add: walkConceptSteps_Cons add.assoc)

lemma fresh_itemResult: "fresh x \<Longrightarrow> itemResult x = None"
  by (cases x) simp_all

lemma walkConceptSteps_fresh:
  "\<forall>y \<in> set rest. fresh y \<Longrightarrow> walkConceptSteps h t rest = (None, t)"
  by (induction rest arbitrary: t)
     (simp_all add: walkConceptSteps_Cons fresh_itemResult itemTime_itemResult failedAt_def timeAt_def
       )

lemma walkConceptSteps_Some_failed:
  "walkConceptSteps h t xs = (Some a, u) \<Longrightarrow> getFailed (h a)"
  by (induction xs arbitrary: t)
     (auto simp: walkConceptSteps_Cons failedAt_def split: if_splits)

lemma setExecutionResultForConcept_failed:
  assumes "\<forall>y \<in> set done. \<not> failedAt (heap e) (itemResult y)"
      and "itemResult x = Some a" "getFailed (heap e a)"
  shows "setExecutionResultForConcept e cs (done @ x # rest) =
       (cs\<lparr>stepExecutionResult := Some (emptyStepExecutionResult\<lparr>executionResult := Some a, skipped := Some False\<rparr>)\<rparr>,
        Some (emptyStepExecutionResult\<lparr>executionResult := Some a, skipped := Some False\<rparr>),
        e\<lparr>heap := (heap e)(a := (heap e a)\<lparr>executionTime :=
             Some (sum_list (map (itemTime (heap e)) (done @ [x])))\<rparr>)\<rparr>)"
  using assms
  by (simp add: setExecutionResultForConcept_def walkConceptSteps_done walkConceptSteps_Cons Let_def
      failedAt_def)

lemma setExecutionResultForConcept_passed:
  assumes "\<forall>y \<in> set done. \<not> failedAt (heap e) (itemResult y)" "\<forall>y \<in> set rest. fresh y"
  shows "setExecutionResultForConcept e cs (done @ rest) =
       (cs\<lparr>stepExecutionResult := Some (emptyStepExecutionResult\<lparr>executionResult := Some (nextAddr e), skipped := Some False\<rparr>)\<rparr>,
        Some (emptyStepExecutionResult\<lparr>executionResult := Some (nextAddr e), skipped := Some False\<rparr>),
        e\<lparr>heap := (heap e)(nextAddr e :=
               \<lparr>failed = Some False, recoverableError = None, errorMessage = None, stackTrace = None,
                executionTime = Some (sum_list (map (itemTime (heap e)) done)), message = []\<rparr>),
           nextAddr := Suc (nextAddr e)\<rparr>)"
  using assms
  by (simp add: setExecutionResultForConcept_def walkConceptSteps_done walkConceptSteps_fresh alloc_def Let_def)

lemma failedAt_agree: "(\<And>a. p = Some a \<Longrightarrow> h' a = h a) \<Longrightarrow> failedAt h' p = failedAt h p"
  by (cases p) (simp_all add: failedAt_def)

lemma timeAt_agree: "(\<And>a. p = Some a \<Longrightarrow> h' a = h a) \<Longrightarrow> timeAt h' p = timeAt h p"
  by (cases p) (simp_all add: timeAt_def)

lemma itemTime_agree: "(\<And>a. itemResult x = Some a \<Longrightarrow> h' a = h a) \<Longrightarrow> itemTime h' x = itemTime h x"
  unfolding itemTime_itemResult by (rule timeAt_agree)

lemma sameEnv_refl [simp]: "sameEnv e e"
  by (simp add: sameEnv_def)

lemma sameEnv_trans: "sameEnv e e1 \<Longrightarrow> sameEnv e1 e2 \<Longrightarrow> sameEnv e e2"
  by (simp add: sameEnv_def)

lemma executeItem_loop_step_failed:
  assumes ex: "executeItem e step = Some (True, step', e1)" and exd: "executed e True step' e1"
      and agg: "aggregated e cres done"
  shows "\<exists>x' e'. executeConceptSteps e cs cres done (step # rest) = Some (True, x', e') \<and>
           conceptLog e cs cres done (step # rest) = Some [(True, itemTime (heap e1) step')] \<and>
           loopRun e cres done (step # rest) True x' e' [(True, itemTime (heap e1) step')]"
proof -
  have agree: "heap e1 a = heap e a" if "a < nextAddr e" for a
    using exd that by (simp add: executed_def)
  have done1: "\<not> failedAt (heap e1) (itemResult y)" "itemTime (heap e1) y = itemTime (heap e) y"
    if "y \<in> set done" for y
  proof -
    have ag: "heap e1 a = heap e a" if "itemResult y = Some a" for a
      using agg \<open>y \<in> set done\<close> that agree by (auto simp: aggregated_def)
    show "\<not> failedAt (heap e1) (itemResult y)"
      using agg \<open>y \<in> set done\<close> failedAt_agree [of "itemResult y" "heap e1" "heap e", OF ag]
      by (simp add: aggregated_def)
    show "itemTime (heap e1) y = itemTime (heap e) y"
      by (rule itemTime_agree) (rule ag)
  qed
  have sumdone: "sum_list (map (itemTime (heap e1)) done) = sum_list (map (itemTime (heap e)) done)"
    by (rule arg_cong [where f = sum_list]) (simp add: done1)
  have failed1: "failedAt (heap e1) (itemResult step')"
    using exd by (simp add: executed_def)
  from failed1 obtain a where a: "itemResult step' = Some a" and gf: "getFailed (heap e1 a)"
    by (auto simp: failedAt_def split: option.splits)
  have notfailed: "\<forall>y \<in> set done. \<not> failedAt (heap e1) (itemResult y)"
    using done1(1) by simp
  note setr = setExecutionResultForConcept_failed [OF notfailed a gf, of cs rest]
  let ?r = "emptyStepExecutionResult\<lparr>executionResult := Some a, skipped := Some False\<rparr>"
  let ?e2 = "e1\<lparr>heap := (heap e1)(a := (heap e1 a)\<lparr>executionTime :=
             Some (sum_list (map (itemTime (heap e1)) (done @ [step'])))\<rparr>)\<rparr>"
  let ?x = "ProtoItem_Concept (cs\<lparr>stepExecutionResult := Some ?r\<rparr>) (done @ step' # rest) (Some ?r)"
  have bounds: "nextAddr e \<le> a" "a < nextAddr e1" "nextAddr e \<le> nextAddr e1"
    using exd a by (simp_all add: executed_def)
  have run: "executeConceptSteps e cs cres done (step # rest) = Some (True, ?x, ?e2)"
    by (simp add: ex setr)
  have log: "conceptLog e cs cres done (step # rest) = Some [(True, itemTime (heap e1) step')]"
    by (simp add: ex setr)
  have lr: "loopRun e cres done (step # rest) True ?x ?e2 [(True, itemTime (heap e1) step')]"
    unfolding loopRun_def
  proof (intro conjI exI [of _ "cs\<lparr>stepExecutionResult := Some ?r\<rparr>"] exI [of _ "Some ?r"] exI [of _ "[step']"])
    show "timeAt (heap ?e2) (getExecutionResult (Some ?r)) =
          sum_list (map (itemTime (heap e)) done) + sum_list (map snd [(True, itemTime (heap e1) step')])"
      by (simp add: getExecutionResult_def timeAt_def getExecutionTime_def sumdone)
    show "\<forall>b<nextAddr e. heap ?e2 b = heap e b"
      using bounds agree by simp
    show "sameEnv e ?e2" using exd by (simp add: executed_def sameEnv_def)
    show "inScenario ?e2" using exd by (simp add: executed_def inScenario_def)
    show "True = failedAt (heap ?e2) (getExecutionResult (Some ?r))"
      using gf by (simp add: getExecutionResult_def failedAt_def)
    show "\<forall>b. getExecutionResult (Some ?r) = Some b \<longrightarrow>
           b < nextAddr ?e2 \<and> (getExecutionResult cres = Some b \<or> nextAddr e \<le> b)"
      using bounds by (simp add: getExecutionResult_def)
    show "nextAddr e \<le> nextAddr ?e2" using bounds by simp
  qed simp_all
  from run log lr show ?thesis
    by (intro exI [of _ ?x] exI [of _ ?e2] conjI)
qed

lemma executeItem_loop_step_passed:
  assumes exd: "executed e False step' e1" and agg: "aggregated e cres done"
      and fr: "\<forall>y \<in> set rest. fresh y"
  shows "\<exists>cs' cres' e2. setExecutionResultForConcept e1 cs (done @ step' # rest) = (cs', cres', e2) \<and>
           aggregated e2 cres' (done @ [step']) \<and> inScenario e2 \<and> sameEnv e1 e2 \<and>
           nextAddr e2 = Suc (nextAddr e1) \<and> (\<forall>a<nextAddr e1. heap e2 a = heap e1 a) \<and>
           getExecutionResult cres' = Some (nextAddr e1) \<and>
           sum_list (map (itemTime (heap e2)) (done @ [step'])) =
             sum_list (map (itemTime (heap e)) done) + itemTime (heap e1) step'"
proof -
  have agree: "heap e1 a = heap e a" if "a < nextAddr e" for a
    using exd that by (simp add: executed_def)
  have le: "nextAddr e \<le> nextAddr e1"
    using exd by (simp add: executed_def)
  have ag: "heap e1 a = heap e a" if "y \<in> set done" "itemResult y = Some a" for a y
    using agg that agree by (auto simp: aggregated_def)
  have done1: "\<not> failedAt (heap e1) (itemResult y)" "itemTime (heap e1) y = itemTime (heap e) y"
    if "y \<in> set done" for y
  proof -
    show "\<not> failedAt (heap e1) (itemResult y)"
      using agg that failedAt_agree [of "itemResult y" "heap e1" "heap e", OF ag [OF that]]
      by (simp add: aggregated_def)
    show "itemTime (heap e1) y = itemTime (heap e) y"
      by (rule itemTime_agree) (rule ag [OF that])
  qed
  have sumdone: "sum_list (map (itemTime (heap e1)) done) = sum_list (map (itemTime (heap e)) done)"
    by (rule arg_cong [where f = sum_list]) (simp add: done1)
  have below: "a < nextAddr e1" if "y \<in> set (done @ [step'])" "itemResult y = Some a" for a y
  proof (cases "y = step'")
    case True
    then show ?thesis using exd that by (simp add: executed_def)
  next
    case False
    then have "a < nextAddr e" using agg that by (auto simp: aggregated_def)
    then show ?thesis using le by simp
  qed
  have notfailed: "\<forall>y \<in> set (done @ [step']). \<not> failedAt (heap e1) (itemResult y)"
    using done1(1) exd by (auto simp: executed_def)
  let ?t = "sum_list (map (itemTime (heap e1)) (done @ [step']))"
  let ?new = "\<lparr>failed = Some False, recoverableError = None, errorMessage = None, stackTrace = None,
                executionTime = Some ?t, message = []\<rparr>"
  let ?e2 = "e1\<lparr>heap := (heap e1)(nextAddr e1 := ?new), nextAddr := Suc (nextAddr e1)\<rparr>"
  let ?r = "emptyStepExecutionResult\<lparr>executionResult := Some (nextAddr e1), skipped := Some False\<rparr>"
  have setr: "setExecutionResultForConcept e1 cs (done @ step' # rest) =
       (cs\<lparr>stepExecutionResult := Some ?r\<rparr>, Some ?r, ?e2)"
    using setExecutionResultForConcept_passed [OF notfailed fr, of cs] by simp
  let ?h = "(heap e1)(nextAddr e1 := ?new)"
  have h: "heap ?e2 = ?h" by simp
  have same2: "failedAt ?h (itemResult y) = failedAt (heap e1) (itemResult y)"
      "itemTime ?h y = itemTime (heap e1) y" if "y \<in> set (done @ [step'])" for y
  proof -
    have k: "?h a = heap e1 a" if "itemResult y = Some a" for a
      using below [OF \<open>y \<in> set (done @ [step'])\<close> that] by simp
    show "failedAt ?h (itemResult y) = failedAt (heap e1) (itemResult y)"
      by (rule failedAt_agree) (rule k)
    show "itemTime ?h y = itemTime (heap e1) y"
      by (rule itemTime_agree) (rule k)
  qed
  have sum2: "sum_list (map (itemTime ?h) (done @ [step'])) = ?t"
    by (rule arg_cong [where f = sum_list], rule map_cong [OF refl], rule same2(2))
  have agg2: "aggregated ?e2 (Some ?r) (done @ [step'])"
    unfolding aggregated_def h
  proof (intro conjI ballI allI impI)
    show "\<not> failedAt ?h (getExecutionResult (Some ?r))"
      by (simp add: getExecutionResult_def failedAt_def)
    show "timeAt ?h (getExecutionResult (Some ?r)) =
          sum_list (map (itemTime ?h) (done @ [step']))"
      unfolding sum2 by (simp add: getExecutionResult_def timeAt_def getExecutionTime_def)
    show "a < nextAddr ?e2" if "getExecutionResult (Some ?r) = Some a" for a
      using that by (simp add: getExecutionResult_def)
    show "\<not> failedAt ?h (itemResult y)" if "y \<in> set (done @ [step'])" for y
      using notfailed that same2(1) [OF that] by blast
    show "a < nextAddr ?e2" if "y \<in> set (done @ [step'])" "itemResult y = Some a" for y a
      using below [OF that] by simp
  qed
  have ins: "inScenario ?e2" using exd by (simp add: executed_def inScenario_def)
  have se: "sameEnv e1 ?e2" by (simp add: sameEnv_def)
  have total: "sum_list (map (itemTime (heap ?e2)) (done @ [step'])) =
             sum_list (map (itemTime (heap e)) done) + itemTime (heap e1) step'"
    unfolding h sum2 by (simp add: sumdone)
  show ?thesis
    apply (intro exI [of _ "cs\<lparr>stepExecutionResult := Some ?r\<rparr>"] exI [of _ "Some ?r"] exI [of _ ?e2] conjI)
           apply (rule setr)
          apply (rule agg2)
         apply (rule ins)
        apply (rule se)
       apply simp
      apply (simp)
     apply (simp add: getExecutionResult_def)
    apply (rule total)
    done
qed

lemma loopRun_Cons:
  assumes exd: "executed e False step' e1"
      and e2: "sameEnv e1 e2" "nextAddr e2 = Suc (nextAddr e1)" "\<forall>a<nextAddr e1. heap e2 a = heap e1 a"
        "getExecutionResult cres' = Some (nextAddr e1)"
        "sum_list (map (itemTime (heap e2)) (done @ [step'])) =
             sum_list (map (itemTime (heap e)) done) + t"
      and lr: "loopRun e2 cres' (done @ [step']) rest f x' e' log"
  shows "loopRun e cres done (step # rest) f x' e' ((False, t) # log)"
proof -
  from lr obtain cs'' cres'' exs where
      x': "x' = ProtoItem_Concept cs'' ((done @ [step']) @ exs @ drop (length log) rest) cres''"
      and len: "length exs = length log"
      and f: "f = failedAt (heap e') (getExecutionResult cres'')"
      and time: "timeAt (heap e') (getExecutionResult cres'') =
          sum_list (map (itemTime (heap e2)) (done @ [step'])) + sum_list (map snd log)"
      and addr: "\<forall>a. getExecutionResult cres'' = Some a \<longrightarrow>
           a < nextAddr e' \<and> (getExecutionResult cres' = Some a \<or> nextAddr e2 \<le> a)"
      and rest: "length log \<le> length rest" "nextAddr e2 \<le> nextAddr e'"
        "\<forall>a<nextAddr e2. heap e' a = heap e2 a" "sameEnv e2 e'" "inScenario e'"
        "\<forall>p \<in> set (butlast log). \<not> fst p" "f \<longrightarrow> log \<noteq> [] \<and> fst (last log)"
        "\<not> f \<longrightarrow> length log = length rest \<and> (\<forall>p \<in> set log. \<not> fst p)"
    unfolding loopRun_def by blast
  have le: "nextAddr e \<le> nextAddr e1" and agree: "\<forall>a<nextAddr e. heap e1 a = heap e a"
    and se: "sameEnv e e1"
    using exd by (simp_all add: executed_def)
  show ?thesis
    unfolding loopRun_def
  proof (intro conjI exI [of _ cs''] exI [of _ cres''] exI [of _ "step' # exs"])
    show "x' = ProtoItem_Concept cs'' (done @ (step' # exs) @ drop (length ((False, t) # log)) (step # rest)) cres''"
      using x' by simp
    show "length (step' # exs) = length ((False, t) # log)" using len by simp
    show "f = failedAt (heap e') (getExecutionResult cres'')" by (rule f)
    show "timeAt (heap e') (getExecutionResult cres'') =
          sum_list (map (itemTime (heap e)) done) + sum_list (map snd ((False, t) # log))"
      using time e2(5) by (simp add: add.assoc)
    show "\<forall>a. getExecutionResult cres'' = Some a \<longrightarrow>
           a < nextAddr e' \<and> (getExecutionResult cres = Some a \<or> nextAddr e \<le> a)"
      using addr e2(2,4) le by auto
    show "length ((False, t) # log) \<le> length (step # rest)" using rest(1) by simp
    show "nextAddr e \<le> nextAddr e'" using le e2(2) rest(2) by simp
    show "\<forall>a<nextAddr e. heap e' a = heap e a"
      using agree e2(2,3) rest(3) le by auto
    show "sameEnv e e'" using se e2(1) rest(4) by (simp add: sameEnv_def)
    show "inScenario e'" by (rule rest(5))
    show "\<forall>p \<in> set (butlast ((False, t) # log)). \<not> fst p" using rest(6) by auto
    show "f \<longrightarrow> (False, t) # log \<noteq> [] \<and> fst (last ((False, t) # log))" using rest(7) by auto
    show "\<not> f \<longrightarrow> length ((False, t) # log) = length (step # rest) \<and> (\<forall>p \<in> set ((False, t) # log). \<not> fst p)"
      using rest(8) by auto
  qed
qed

lemma executeItem_runs:
  "inScenario e \<Longrightarrow> fresh x \<Longrightarrow> \<exists>f x' e'. executeItem e x = Some (f, x', e') \<and> executed e f x' e'"
  "inScenario e \<Longrightarrow> \<forall>y \<in> set rest. fresh y \<Longrightarrow> aggregated e cres done \<Longrightarrow>
     \<exists>f x' e' log. executeConceptSteps e cs cres done rest = Some (f, x', e') \<and>
        conceptLog e cs cres done rest = Some log \<and> loopRun e cres done rest f x' e' log"
proof (induction e x and e cs cres "done" rest rule: executeItem_executeConceptSteps.induct)
  case (1 e conceptStep steps cres)
  from "1.prems" have fr: "\<forall>y \<in> set steps. fresh y" and none: "getExecutionResult cres = None"
    by simp_all
  have agg: "aggregated e cres []"
    by (simp add: aggregated_def none failedAt_def timeAt_def)
  from "1.IH" [OF "1.prems"(1) fr agg]
  obtain f x' e' log where run: "executeConceptSteps e conceptStep cres [] steps = Some (f, x', e')"
    and lr: "loopRun e cres [] steps f x' e' log" by blast
  have "executed e f x' e'"
    using lr none unfolding loopRun_def executed_def by auto
  then show ?case using run by simp
next
  case (2 e protoStep)
  from "2.prems" obtain old where old: "stepExecutionResult protoStep = Some old" by auto
  from executeStep_Some [OF "2.prems"(1) old]
  obtain f st' e' res where r: "executeStep e protoStep = Some (f, st', e')"
      "f = getFailed (heap e' (Suc (nextAddr e)))"
      "stepExecutionResult st' = Some res" "executionResult res = Some (Suc (nextAddr e))"
      "nextAddr e' = Suc (Suc (Suc (nextAddr e)))" "\<forall>a < nextAddr e. heap e' a = heap e a"
      "sameEnv e e'" "inScenario e'"
    by blast
  have "executed e f (ProtoItem_Step st') e'"
    using r(2-) by (simp add: executed_def getExecutionResult_def failedAt_def)
  then show ?case using r(1) by simp
next
  case (3 e c)
  have "executed e False (ProtoItem_Comment c) e"
    using "3.prems" by (simp add: executed_def failedAt_def)
  then show ?case by auto
next
  case (4 e conceptStep cres "done")
  have "loopRun e cres done [] (failedAt (heap e) (getExecutionResult cres))
          (ProtoItem_Concept conceptStep done cres) e []"
    using "4.prems" by (simp add: loopRun_def aggregated_def)
  then show ?case by simp
next
  case (5 e conceptStep cres "done" step rest)
  from "5.prems" have ins: "inScenario e" and frs: "fresh step" and fr: "\<forall>y \<in> set rest. fresh y"
    and agg: "aggregated e cres done" by simp_all
  from "5.IH"(1) [OF ins frs]
  obtain f step' e1 where ex: "executeItem e step = Some (f, step', e1)" and exd: "executed e f step' e1"
    by blast
  show ?case
  proof (cases f)
    case True
    with ex exd have ex': "executeItem e step = Some (True, step', e1)" and exd': "executed e True step' e1"
      by simp_all
    from executeItem_loop_step_failed [OF ex' exd' agg, of conceptStep rest]
    show ?thesis by (elim exE conjE) (intro exI conjI, assumption+)
  next
    case False
    with ex exd have ex': "executeItem e step = Some (False, step', e1)" and exd': "executed e False step' e1"
      by simp_all
    from executeItem_loop_step_passed [OF exd' agg fr, of conceptStep]
    obtain cs' cres' e2 where
      setr: "setExecutionResultForConcept e1 conceptStep (done @ step' # rest) = (cs', cres', e2)"
      and agg2: "aggregated e2 cres' (done @ [step'])" and ins2: "inScenario e2"
      and e2: "sameEnv e1 e2" "nextAddr e2 = Suc (nextAddr e1)" "\<forall>a<nextAddr e1. heap e2 a = heap e1 a"
        "getExecutionResult cres' = Some (nextAddr e1)"
        "sum_list (map (itemTime (heap e2)) (done @ [step'])) =
             sum_list (map (itemTime (heap e)) done) + itemTime (heap e1) step'"
      by blast
    from "5.IH"(2) [OF ex' refl refl setr [symmetric] refl _ ins2 fr agg2]
    obtain f' x' e' log where run: "executeConceptSteps e2 cs' cres' (done @ [step']) rest = Some (f', x', e')"
      and log: "conceptLog e2 cs' cres' (done @ [step']) rest = Some log"
      and lr: "loopRun e2 cres' (done @ [step']) rest f' x' e' log"
      by blast
    have run0: "executeConceptSteps e conceptStep cres done (step # rest) = Some (f', x', e')"
      by (simp add: ex' setr run)
    have log0: "conceptLog e conceptStep cres done (step # rest) =
                  Some ((False, itemTime (heap e1) step') # log)"
      by (simp add: ex' setr log)
    from loopRun_Cons [OF exd' e2 lr]
    have "loopRun e cres done (step # rest) f' x' e' ((False, itemTime (heap e1) step') # log)" .
    with run0 log0 show ?thesis by (intro exI conjI)
  qed
qed

lemmas run_defs = executeConcept_def executeStep_def runStep_def executeBeforeStepHook_def
  executeAfterStepHook_def executeAndGetStatus_def alloc_def notifyPlugins_def markFailed_def
  setStepFailure_def setScenarioFailure_def setSpecFailure_def setExecutionResultForConcept_def
  createStepRequest_def getProtoHookFailure_def emptyStepExecutionResult_def
  getExecutionResult_def failedAt_def timeAt_def getExecutionTime_def Let_def

subsection \<open>Resolved items are fresh\<close>

lemma convertStepToProtoItem_kind:
  "isConcept (stepData st) \<Longrightarrow> \<exists>cs steps. convertStepToProtoItem st = ProtoItem_Concept cs steps None \<and> length steps = length (conceptSteps st)"
  by (cases st) simp

lemma setSkipInfo_fresh [simp]:
  "\<exists>y. stepExecutionResult (setSkipInfo em protoStep st) = Some y"
  "getExecutionResult (stepExecutionResult (setSkipInfo em protoStep st)) = None"
  by (simp_all add: setSkipInfo_def getExecutionResult_def emptyStepExecutionResult_def split: option.splits)

lemma resolveConcept_fresh:
  "resolveToProtoConceptItem R em look c = Some (children, p) \<Longrightarrow> fresh p"
  "resolveConceptSteps R em look concept sts steps = Some (sts', ps') \<Longrightarrow> length steps = length sts \<Longrightarrow>
     \<forall>y \<in> set ps'. fresh y"
proof (induction R em look c and R em look concept sts steps arbitrary: children p and sts' ps'
    rule: resolveToProtoConceptItem_resolveConceptSteps.induct)
  case (1 R em look concept0)
  let ?c = "populateConceptDynamicParams R concept0 look"
  from "1.prems" obtain conceptStep steps cres steps' where
      conv: "convertStepToProtoItem ?c = ProtoItem_Concept conceptStep steps cres"
      and rs: "resolveConceptSteps R em look ?c (conceptSteps concept0) steps = Some (children, steps')"
      and p: "p = ProtoItem_Concept
                       (conceptStep\<lparr>stepExecutionResult :=
                          Some (emptyStepExecutionResult\<lparr>skipped := Some False\<rparr>)\<rparr>) steps' cres"
    by (auto simp: resolveToProtoConceptItem.simps Let_def split: protoItem.splits option.splits)
  have cs: "conceptSteps ?c = conceptSteps concept0" "isConcept (stepData ?c) = isConcept (stepData concept0)"
    by (simp_all add: populateConceptDynamicParams_def)
  from conv have isc: "isConcept (stepData ?c)" by (cases ?c) (auto split: if_splits)
  from convertStepToProtoItem_kind [OF isc] conv cs
  have len: "length steps = length (conceptSteps concept0)" and cres: "cres = None" by auto
  from "1.IH" [OF refl conv rs len] have "\<forall>y \<in> set steps'. fresh y" .
  then show ?case by (simp add: p cres getExecutionResult_def)
next
  case (2 R em look concept steps)
  then show ?case by simp
next
  case (3 R em look concept st sts)
  then show ?case by simp
next
  case (4 R em look concept st sts p ps)
  show ?case
  proof (cases "isConcept (stepData st)")
    case True
    with "4.prems" obtain grandChildren p' sts1 ps1 where
        a: "resolveToProtoConceptItem R em look (Step (stepData st) (Some concept) (conceptSteps st)) = Some (grandChildren, p')"
        and b: "resolveConceptSteps R em look concept sts ps = Some (sts1, ps1)"
        and c: "ps' = p' # ps1"
      by (auto split: option.splits)
    from "4.IH"(1) [OF True a] have "fresh p'" .
    moreover from "4.IH"(2) [OF True a refl b] "4.prems"(2) have "\<forall>y \<in> set ps1. fresh y" by simp
    ultimately show ?thesis by (simp add: c)
  next
    case False
    with "4.prems" obtain protoStep protoStep' sts1 ps1 where
        p: "p = ProtoItem_Step protoStep"
        and u: "updateProtoStepParameters protoStep (getResolvedParams R st (Some concept) look) = Some protoStep'"
        and b: "resolveConceptSteps R em look concept sts ps = Some (sts1, ps1)"
        and c: "ps' = ProtoItem_Step (setSkipInfo em protoStep' st) # ps1"
      by (auto split: option.splits protoItem.splits)
    from "4.IH"(3) [OF False p u b] "4.prems"(2) have "\<forall>y \<in> set ps1. fresh y" by simp
    then show ?thesis by (simp add: c)
  qed
qed

lemma resolveToProtoItem_fresh:
  "resolveToProtoItem R em look it = Some p \<Longrightarrow> fresh p"
  by (cases it)
     (auto simp: resolveToProtoItem.simps resolveToProtoStepItem_def
        dest: resolveConcept_fresh(1) split: if_splits option.splits)

lemma resolveItemsWith_fresh:
  "resolveItemsWith R em look its = Some ps \<Longrightarrow> \<forall>y \<in> set ps. fresh y"
proof (induction its arbitrary: ps)
  case Nil
  then show ?case by simp
next
  case (Cons it its)
  show ?case
  proof (cases "it = TearDownItem")
    case True
    with Cons show ?thesis by simp
  next
    case False
    then have unf: "resolveItemsWith R em look (it # its) =
       (case resolveToProtoItem R em look it of None \<Rightarrow> None
        | Some p \<Rightarrow> map_option ((#) p) (resolveItemsWith R em look its))"
      by (cases it) simp_all
    from Cons.prems obtain p ps' where p: "resolveToProtoItem R em look it = Some p"
      and ps': "resolveItemsWith R em look its = Some ps'" and ps: "ps = p # ps'"
      unfolding unf by (auto split: option.splits)
    from Cons.IH [OF ps'] resolveToProtoItem_fresh [OF p] ps show ?thesis by simp
  qed
qed

lemma addAllItems_fresh:
  assumes "addAllItemsForScenarioExecution R e scn (newProtoScenario scn) = Some shell"
  shows "\<forall>y \<in> set (pContexts shell). fresh y" "\<forall>y \<in> set (pScenarioItems shell). fresh y"
    "\<forall>y \<in> set (pTearDownSteps shell). fresh y" "pFailed shell = Some False"
proof -
  from assms obtain cs ts its where
      cs: "resolveItemsWith R (errMap e) (dataTableLookup R e) (map StepItem (contexts (specification' e))) = Some cs"
      and ts: "resolveItemsWith R (errMap e) (dataTableLookup R e) (map StepItem (tearDownSteps (specification' e))) = Some ts"
      and its: "resolveItemsWith R (errMap e) (dataTableLookup R e) (scenarioItems scn) = Some its"
      and shell: "shell = (newProtoScenario scn)\<lparr>pContexts := cs, pTearDownSteps := ts, pScenarioItems := its\<rparr>"
    by (auto simp: addAllItemsForScenarioExecution_def getContextItemsForScenarioExecution_def
        resolveItems_def newProtoScenario_def split: option.splits)
  show "\<forall>y \<in> set (pContexts shell). fresh y" using resolveItemsWith_fresh [OF cs] by (simp add: shell)
  show "\<forall>y \<in> set (pScenarioItems shell). fresh y" using resolveItemsWith_fresh [OF its] by (simp add: shell)
  show "\<forall>y \<in> set (pTearDownSteps shell). fresh y" using resolveItemsWith_fresh [OF ts] by (simp add: shell)
  show "pFailed shell = Some False" by (simp add: shell newProtoScenario_def)
qed

subsection \<open>Items of a scenario\<close>

lemma executeItems_runs:
  "inScenario e \<Longrightarrow> \<forall>y \<in> set xs. fresh y \<Longrightarrow>
   \<exists>f xs' e'. executeItems e xs = Some (f, xs', e') \<and> itemsExecuted e f xs' e' \<and> length xs' = length xs"
proof (induction xs arbitrary: e)
  case Nil
  then show ?case by (auto simp: itemsExecuted_def)
next
  case (Cons x xs)
  from executeItem_runs(1) [OF Cons.prems(1), of x] Cons.prems(2)
  obtain f x' e1 where ex: "executeItem e x = Some (f, x', e1)" and exd: "executed e f x' e1"
    by auto
  have ins1: "inScenario e1" using exd by (simp add: executed_def)
  show ?case
  proof (cases f)
    case True
    have none: "itemResult y = None" if "y \<in> set xs" for y
      using Cons.prems(2) that by (simp add: fresh_itemResult)
    have "itemsExecuted e True (x' # xs) e1"
      using exd True none unfolding itemsExecuted_def executed_def by (auto simp: failedAt_def)
    then show ?thesis using ex True by auto
  next
    case False
    from Cons.IH [OF ins1] Cons.prems(2)
    obtain f' xs' e2 where r: "executeItems e1 xs = Some (f', xs', e2)" and ie: "itemsExecuted e1 f' xs' e2"
      and len: "length xs' = length xs" by auto
    have x'2: "failedAt (heap e2) (itemResult x') = failedAt (heap e1) (itemResult x')"
      by (rule failedAt_agree) (use exd ie in \<open>auto simp: executed_def itemsExecuted_def\<close>)
    have "itemsExecuted e f' (x' # xs') e2"
      unfolding itemsExecuted_def
    proof (intro conjI)
      show "f' = (\<exists>y \<in> set (x' # xs'). failedAt (heap e2) (itemResult y))"
        using ie exd False x'2 by (auto simp: itemsExecuted_def executed_def)
      show "\<forall>y \<in> set (x' # xs'). \<forall>a. itemResult y = Some a \<longrightarrow> nextAddr e \<le> a \<and> a < nextAddr e2"
        using ie exd by (fastforce simp: itemsExecuted_def executed_def)
      show "nextAddr e \<le> nextAddr e2" using ie exd by (auto simp: itemsExecuted_def executed_def)
      show "\<forall>a<nextAddr e. heap e2 a = heap e a" using ie exd by (auto simp: itemsExecuted_def executed_def)
      show "sameEnv e e2" using ie exd sameEnv_trans by (auto simp: itemsExecuted_def executed_def)
      show "inScenario e2" using ie by (simp add: itemsExecuted_def)
    qed
    then show ?thesis using ex False r len by auto
  qed
qed


lemma scenarioResult_simps [simp]:
  "getFailure (setFailure r) = True"
  "getFailure (addExecTime t r) = getFailure r"
  "getFailure (addPostHook r h) = (getFailure r \<or> getFailed h)"
  "getFailure (updateExecutionTime hp r) = getFailure r"
  "getFailure (r\<lparr>pContexts := xs\<rparr>) = getFailure r"
  "getFailure (r\<lparr>pScenarioItems := xs\<rparr>) = getFailure r"
  "getFailure (r\<lparr>pTearDownSteps := xs\<rparr>) = getFailure r"
  "getFailure (r\<lparr>pSkipped := b\<rparr>) = getFailure r"
  "pContexts (setFailure r) = pContexts r" "pScenarioItems (setFailure r) = pScenarioItems r"
  "pTearDownSteps (setFailure r) = pTearDownSteps r"
  "pContexts (addExecTime t r) = pContexts r" "pScenarioItems (addExecTime t r) = pScenarioItems r"
  "pTearDownSteps (addExecTime t r) = pTearDownSteps r"
  "pContexts (addPostHook r h) = pContexts r" "pScenarioItems (addPostHook r h) = pScenarioItems r"
  "pTearDownSteps (addPostHook r h) = pTearDownSteps r"
  "pContexts (updateExecutionTime hp r) = pContexts r" "pScenarioItems (updateExecutionTime hp r) = pScenarioItems r"
  "pTearDownSteps (updateExecutionTime hp r) = pTearDownSteps r"
  by (simp_all add: getFailure_def setFailure_def addExecTime_def addPostHook_def updateExecutionTime_def)

lemma itemsExecuted_fresh:
  "inScenario e \<Longrightarrow> \<forall>y \<in> set xs. fresh y \<Longrightarrow> itemsExecuted e False xs e"
  by (auto simp: itemsExecuted_def fresh_itemResult failedAt_def)

lemma itemsExecuted_later:
  assumes "itemsExecuted e f xs e1" "\<forall>a<nextAddr e1. h a = heap e1 a"
  shows "f = (\<exists>x \<in> set xs. failedAt h (itemResult x))"
proof -
  have "failedAt h (itemResult x) = failedAt (heap e1) (itemResult x)" if "x \<in> set xs" for x
    by (rule failedAt_agree) (use assms that in \<open>auto simp: itemsExecuted_def\<close>)
  then show ?thesis using assms(1) by (auto simp: itemsExecuted_def)
qed

lemma markFailed_setScenarioFailure:
  "inScenario e \<Longrightarrow> \<exists>i. markFailed setScenarioFailure e = Some (e\<lparr>currentExecutionInfo := i\<rparr>)"
  by (auto simp: inScenario_def markFailed_def setScenarioFailure_def setSpecFailure_def)

lemma runItems_runs:
  assumes ins: "inScenario e1"
      and fr: "\<forall>y \<in> set (pContexts res). fresh y" "\<forall>y \<in> set (pScenarioItems res). fresh y"
        "\<forall>y \<in> set (pTearDownSteps res). fresh y"
      and nf: "\<not> getFailure res"
  shows "\<exists>fc cs ec fb bs eb ft ts et res'.
           executeItems e1 (pContexts res) = Some (fc, cs, ec) \<and>
           (if fc then fb = False \<and> bs = pScenarioItems res \<and> eb = ec
            else executeItems ec (pScenarioItems res) = Some (fb, bs, eb)) \<and>
           executeItems eb (pTearDownSteps res) = Some (ft, ts, et) \<and>
           runItems e1 res = Some (res', et) \<and>
           pContexts res' = cs \<and> pScenarioItems res' = bs \<and> pTearDownSteps res' = ts \<and>
           getFailure res' = (fc \<or> fb \<or> ft) \<and>
           itemsExecuted e1 fc cs ec \<and> itemsExecuted ec fb bs eb \<and> itemsExecuted eb ft ts et"
proof -
  from executeItems_runs [OF ins fr(1)]
  obtain fc cs ec where c: "executeItems e1 (pContexts res) = Some (fc, cs, ec)"
    and ce: "itemsExecuted e1 fc cs ec" by blast
  have insc: "inScenario ec" using ce by (simp add: itemsExecuted_def)
  let ?res1 = "if fc then setFailure (res\<lparr>pContexts := cs\<rparr>) else res\<lparr>pContexts := cs\<rparr>"
  have c': "executeContextItems e1 res = Some (?res1, ec)"
    by (simp add: executeContextItems_def c)
  have "\<exists>fb bs eb res2.
          (if fc then fb = False \<and> bs = pScenarioItems res \<and> eb = ec
            else executeItems ec (pScenarioItems res) = Some (fb, bs, eb)) \<and>
          (if \<not> getFailure ?res1 then executeScenarioItems ec ?res1 else Some (?res1, ec)) = Some (res2, eb) \<and>
          pContexts res2 = cs \<and> pScenarioItems res2 = bs \<and> pTearDownSteps res2 = pTearDownSteps res \<and>
          getFailure res2 = (fc \<or> fb) \<and> itemsExecuted ec fb bs eb"
  proof (cases fc)
    case True
    then show ?thesis using itemsExecuted_fresh [OF insc fr(2)] by auto
  next
    case False
    from executeItems_runs [OF insc fr(2)]
    obtain fb bs eb where b: "executeItems ec (pScenarioItems res) = Some (fb, bs, eb)"
      and be: "itemsExecuted ec fb bs eb" by blast
    show ?thesis
      using False nf b be by (cases fb) (auto simp: executeScenarioItems_def)
  qed
  then obtain fb bs eb res2 where
      b: "if fc then fb = False \<and> bs = pScenarioItems res \<and> eb = ec
            else executeItems ec (pScenarioItems res) = Some (fb, bs, eb)"
      and b': "(if \<not> getFailure ?res1 then executeScenarioItems ec ?res1 else Some (?res1, ec)) = Some (res2, eb)"
      and r2: "pContexts res2 = cs" "pScenarioItems res2 = bs" "pTearDownSteps res2 = pTearDownSteps res"
        "getFailure res2 = (fc \<or> fb)"
      and be: "itemsExecuted ec fb bs eb"
    by blast
  have insb: "inScenario eb" using be by (simp add: itemsExecuted_def)
  from executeItems_runs [OF insb fr(3)]
  obtain ft ts et where t: "executeItems eb (pTearDownSteps res) = Some (ft, ts, et)"
    and te: "itemsExecuted eb ft ts et" by blast
  let ?res3 = "if ft then setFailure (res2\<lparr>pTearDownSteps := ts\<rparr>) else res2\<lparr>pTearDownSteps := ts\<rparr>"
  have t': "executeTearDownItems eb res2 = Some (?res3, et)"
    by (simp add: executeTearDownItems_def r2 t)
  have run: "runItems e1 res = Some (?res3, et)"
    unfolding runItems_def c' using b' t' by simp
  have r3: "pContexts ?res3 = cs" "pScenarioItems ?res3 = bs" "pTearDownSteps ?res3 = ts"
      "getFailure ?res3 = (fc \<or> fb \<or> ft)"
    using r2 by simp_all
  show ?thesis
    by (intro exI [of _ fc] exI [of _ cs] exI [of _ ec] exI [of _ fb] exI [of _ bs] exI [of _ eb]
        exI [of _ ft] exI [of _ ts] exI [of _ et] exI [of _ ?res3] conjI c b t run r3 ce be te)
qed

lemma executeScenarioHook_eq:
  "executeScenarioHook e m res =
     (nextAddr e,
      addExecTime (getExecutionTime (heap (snd (executeAndGetStatus (notifyPlugins e m) m)) (nextAddr e))) res,
      snd (executeAndGetStatus (notifyPlugins e m) m))"
  by (simp add: executeScenarioHook_def split_beta Let_def)

lemmas scenario_defs = executeScenario_def runScenario_def runItems_def executeContextItems_def
  executeScenarioItems_def executeTearDownItems_def executeBeforeScenarioHook_def
  executeAfterScenarioHook_def executeScenarioHook_def addAllItemsForScenarioExecution_def
  getContextItemsForScenarioExecution_def resolveItems_def newProtoScenario_def scenarioOf_def
  setFailure_def getFailure_def addExecTime_def addPostHook_def addPreHook_def updateExecutionTime_def

subsection \<open>The messages of a step\<close>

lemma runStep_info:
  assumes "inScenario e" "currentStep (currentExecutionInfo e) = Some cst"
  shows "\<exists>res e'. runStep e req = Some (nextAddr e, res, e') \<and>
           map_option stepInfoStep (currentStep (currentExecutionInfo e')) = Some (stepInfoStep cst)"
proof -
  obtain sp sc where i: "currentSpec (currentExecutionInfo e) = Some sp"
      "currentScenario (currentExecutionInfo e) = Some sc" "currentStep (currentExecutionInfo e) = Some cst"
    using assms by (auto simp: inScenario_def)
  have mf: "markFailed setStepFailure e' = Some (e'\<lparr>currentExecutionInfo :=
       (currentExecutionInfo e)\<lparr>currentSpec := Some (sp\<lparr>specInfoIsFailed := True\<rparr>),
       currentScenario := Some (sc\<lparr>scenarioInfoIsFailed := True\<rparr>),
       currentStep := Some (cst\<lparr>stepInfoIsFailed := True\<rparr>)\<rparr>\<rparr>)"
    if "currentExecutionInfo e' = currentExecutionInfo e" for e'
    using that i by (simp add: markFailed_def setStepFailure_Some)
  show ?thesis
    unfolding runStep_def executeBeforeStepHook_def
    by (simp add: Let_def split_beta mf i)
qed

lemma executeStep_ending:
  assumes "inScenario e" "stepExecutionResult st = Some old"
  shows "\<exists>f st' e' i. executeStep e st = Some (f, st', e') \<and>
           last (sent e') = StepExecutionEnding i \<and>
           map_option stepInfoStep (currentStep i) = Some (createStepRequest st)"
proof -
  let ?e = "e\<lparr>currentExecutionInfo := stepStarting e st\<rparr>"
  have pre: "inScenario ?e" "currentStep (currentExecutionInfo ?e) \<noteq> None"
    using assms(1) by (simp_all add: inScenario_def stepStarting_def)
  have cur: "currentStep (currentExecutionInfo ?e) =
      Some \<lparr>stepInfoStep = createStepRequest st, stepInfoIsFailed = False\<rparr>"
    by (simp add: stepStarting_def)
  from runStep_Some [OF pre, of "createStepRequest st"]
  obtain res e1 where r: "runStep ?e (createStepRequest st) = Some (nextAddr e, res, e1)"
      "executionResult res = Some (Suc (nextAddr e))"
      "inScenario e1" "currentStep (currentExecutionInfo e1) \<noteq> None"
    by auto
  from runStep_info [OF pre(1) cur, of "createStepRequest st"] r(1)
  have info: "map_option stepInfoStep (currentStep (currentExecutionInfo e1)) = Some (createStepRequest st)"
    by simp
  obtain sp sc cst where i: "currentSpec (currentExecutionInfo e1) = Some sp"
      "currentScenario (currentExecutionInfo e1) = Some sc" "currentStep (currentExecutionInfo e1) = Some cst"
    using r by (auto simp: inScenario_def)
  have mf: "markFailed setStepFailure e' = Some (e'\<lparr>currentExecutionInfo :=
       (currentExecutionInfo e1)\<lparr>currentSpec := Some (sp\<lparr>specInfoIsFailed := True\<rparr>),
       currentScenario := Some (sc\<lparr>scenarioInfoIsFailed := True\<rparr>),
       currentStep := Some (cst\<lparr>stepInfoIsFailed := True\<rparr>)\<rparr>\<rparr>)"
    if "currentExecutionInfo e' = currentExecutionInfo e1" for e'
    using that i by (simp add: markFailed_def setStepFailure_Some)
  have unf: "executeStep e st =
     (case runStep ?e (createStepRequest st) of
           None \<Rightarrow> None
         | Some (beforeHookStatus, res, e1) \<Rightarrow>
             (case executionResult res of
                None \<Rightarrow> None
              | Some a \<Rightarrow>
                  (let (afterStepHookStatus, e2) = executeAfterStepHook e1;
                       e3 = e2\<lparr>heap := addExecutionTimes (heap e2) a [beforeHookStatus, afterStepHookStatus]\<rparr>
                   in case (if getFailed (heap e3 afterStepHookStatus)
                            then map_option
                                   (\<lambda>e4. (res\<lparr>postHookFailure :=
                                                  Some (getProtoHookFailure (heap e3 afterStepHookStatus))\<rparr>,
                                           e4\<lparr>heap := (heap e4)(a := (heap e4 a)\<lparr>failed := Some True\<rparr>)\<rparr>))
                                   (markFailed setStepFailure e3)
                            else Some (res, e3)) of
                        None \<Rightarrow> None
                      | Some (res1, e5) \<Rightarrow>
                          (let e6 = e5\<lparr>heap := (heap e5)
                                      (a := (heap e5 a)\<lparr>message := message (heap e5 afterStepHookStatus)\<rparr>)\<rparr>
                           in case stepExecutionResult st of
                                None \<Rightarrow> None
                              | Some old \<Rightarrow>
                                  Some (getFailed (heap e6 a),
                                        st\<lparr>stepExecutionResult :=
                                          Some (res1\<lparr>skipped := skipped old,
                                                     skippedReason := skippedReason old\<rparr>)\<rparr>,
                                        e6)))))"
    by (simp add: executeStep_def stepStarting_def Let_def)
  show ?thesis
    using r(2-) assms(2) info
    unfolding unf executeAfterStepHook_def
    by (auto simp add: Let_def split_beta mf r(1) i)
qed

section \<open>Properties\<close>

text \<open>
  C8. A round trip that ends in a transport error, in an execution status response
  without a result or in a response of another type returns a synthesized result: its
  failed flag is set, its error message is the text of the transport error, the text
  \<^verbatim>\<open>ProtoExecutionResult obtained is nil\<close>, or \<^verbatim>\<open>Expected ExecutionStatusResponse. Obtained: \<close>
  followed by the type of the response, and \<^verbatim>\<open>GetRecoverableError\<close> reads false on it (the
  field itself is unset after a transport error and set to false in the two other
  cases). And when the before-step hook of a step fails, the step's result is failed and
  not recoverable, and the messages written for the step are the two hooks: no
  \<^verbatim>\<open>ExecuteStep\<close> is written.
\<close>

theorem protocol_error_gives_failed_result:
  "(runner e (sent e) m = TransportError err \<longrightarrow>
      roundTripResult e m =
        \<lparr>failed = Some True, recoverableError = None, errorMessage = Some err,
         stackTrace = None, executionTime = None, message = []\<rparr>) \<and>
   (runner e (sent e) m = Reply (ExecutionStatusResponse None) \<longrightarrow>
      roundTripResult e m =
        \<lparr>failed = Some True, recoverableError = Some False,
         errorMessage = Some ''ProtoExecutionResult obtained is nil'',
         stackTrace = None, executionTime = None, message = []\<rparr>) \<and>
   (runner e (sent e) m = Reply (OtherResponse ty) \<longrightarrow>
      roundTripResult e m =
        \<lparr>failed = Some True, recoverableError = Some False,
         errorMessage = Some (''Expected ExecutionStatusResponse. Obtained: '' @ ty),
         stackTrace = None, executionTime = None, message = []\<rparr>) \<and>
   (isProtocolError (runner e (sent e) m) \<longrightarrow>
      getFailed (roundTripResult e m) \<and>
      getErrorMessage (roundTripResult e m) =
        (case runner e (sent e) m of
           TransportError err \<Rightarrow> err
         | Reply (OtherResponse ty) \<Rightarrow> ''Expected ExecutionStatusResponse. Obtained: '' @ ty
         | Reply (ExecutionStatusResponse r) \<Rightarrow> ''ProtoExecutionResult obtained is nil'') \<and>
      \<not> getRecoverableError (roundTripResult e m) \<and>
      sent (snd (executeAndGetStatus e m)) = sent e @ [m]) \<and>
   (inScenario e \<and> stepExecutionResult st \<noteq> None \<and>
    replyFailed (runner e (sent e) (StepExecutionStarting (stepStarting e st))) \<longrightarrow>
      (\<exists>st' e' res a i.
          executeStep e st = Some (True, st', e') \<and>
          stepExecutionResult st' = Some res \<and> executionResult res = Some a \<and>
          getFailed (heap e' a) \<and> \<not> getRecoverableError (heap e' a) \<and>
          sent e' = sent e @ [StepExecutionStarting (stepStarting e st), StepExecutionEnding i]))"
proof (intro conjI impI)
  assume "runner e (sent e) m = TransportError err"
  then show "roundTripResult e m =
        \<lparr>failed = Some True, recoverableError = None, errorMessage = Some err,
         stackTrace = None, executionTime = None, message = []\<rparr>"
    by (simp add: roundTripResult_def executeAndGetStatus_def Let_def alloc_def)
next
  assume "runner e (sent e) m = Reply (ExecutionStatusResponse None)"
  then show "roundTripResult e m =
        \<lparr>failed = Some True, recoverableError = Some False,
         errorMessage = Some ''ProtoExecutionResult obtained is nil'',
         stackTrace = None, executionTime = None, message = []\<rparr>"
    by (simp add: roundTripResult_def executeAndGetStatus_def Let_def alloc_def errorResult_def)
next
  assume "runner e (sent e) m = Reply (OtherResponse ty)"
  then show "roundTripResult e m =
        \<lparr>failed = Some True, recoverableError = Some False,
         errorMessage = Some (''Expected ExecutionStatusResponse. Obtained: '' @ ty),
         stackTrace = None, executionTime = None, message = []\<rparr>"
    by (simp add: roundTripResult_def executeAndGetStatus_def Let_def alloc_def errorResult_def)
next
  assume p: "isProtocolError (runner e (sent e) m)"
  then show "getFailed (roundTripResult e m)"
    by (cases "runner e (sent e) m" rule: isProtocolError.cases)
       (simp_all add: roundTripResult_def executeAndGetStatus_def Let_def alloc_def errorResult_def)
  from p show "getErrorMessage (roundTripResult e m) =
        (case runner e (sent e) m of
           TransportError err \<Rightarrow> err
         | Reply (OtherResponse ty) \<Rightarrow> ''Expected ExecutionStatusResponse. Obtained: '' @ ty
         | Reply (ExecutionStatusResponse r) \<Rightarrow> ''ProtoExecutionResult obtained is nil'')"
    by (cases "runner e (sent e) m" rule: isProtocolError.cases)
       (simp_all add: roundTripResult_def executeAndGetStatus_def Let_def alloc_def errorResult_def
          getErrorMessage_def)
  from p show "\<not> getRecoverableError (roundTripResult e m)"
    by (cases "runner e (sent e) m" rule: isProtocolError.cases)
       (simp_all add: roundTripResult_def executeAndGetStatus_def Let_def alloc_def errorResult_def)
  show "sent (snd (executeAndGetStatus e m)) = sent e @ [m]" by simp
next
  assume a: "inScenario e \<and> stepExecutionResult st \<noteq> None \<and>
    replyFailed (runner e (sent e) (StepExecutionStarting (stepStarting e st)))"
  then obtain old where old: "stepExecutionResult st = Some old" by auto
  from executeStep_Some [OF _ old, of e] a
  show "\<exists>st' e' res a i.
          executeStep e st = Some (True, st', e') \<and>
          stepExecutionResult st' = Some res \<and> executionResult res = Some a \<and>
          getFailed (heap e' a) \<and> \<not> getRecoverableError (heap e' a) \<and>
          sent e' = sent e @ [StepExecutionStarting (stepStarting e st), StepExecutionEnding i]"
    by force
qed

theorem protocol_error_gives_failed_result_witness:
  "runner (executorOf emptySpec (\<lambda>h m. TransportError ''EOF'') noErrs)
      (sent (executorOf emptySpec (\<lambda>h m. TransportError ''EOF'') noErrs)) SpecDataStoreInit
     = TransportError ''EOF'' \<and>
   roundTripResult (executorOf emptySpec (\<lambda>h m. TransportError ''EOF'') noErrs) SpecDataStoreInit =
     \<lparr>failed = Some True, recoverableError = None, errorMessage = Some ''EOF'',
      stackTrace = None, executionTime = None, message = []\<rparr> \<and>
   runner (executorOf emptySpec (\<lambda>h m. Reply (ExecutionStatusResponse None)) noErrs)
      (sent (executorOf emptySpec (\<lambda>h m. Reply (ExecutionStatusResponse None)) noErrs)) SpecDataStoreInit
     = Reply (ExecutionStatusResponse None) \<and>
   roundTripResult (executorOf emptySpec (\<lambda>h m. Reply (ExecutionStatusResponse None)) noErrs)
      SpecDataStoreInit =
     \<lparr>failed = Some True, recoverableError = Some False,
      errorMessage = Some ''ProtoExecutionResult obtained is nil'',
      stackTrace = None, executionTime = None, message = []\<rparr> \<and>
   runner (executorOf emptySpec (\<lambda>h m. Reply (OtherResponse ''StepNamesResponse'')) noErrs)
      (sent (executorOf emptySpec (\<lambda>h m. Reply (OtherResponse ''StepNamesResponse'')) noErrs))
      SpecDataStoreInit
     = Reply (OtherResponse ''StepNamesResponse'') \<and>
   roundTripResult (executorOf emptySpec (\<lambda>h m. Reply (OtherResponse ''StepNamesResponse'')) noErrs)
      SpecDataStoreInit =
     \<lparr>failed = Some True, recoverableError = Some False,
      errorMessage = Some ''Expected ExecutionStatusResponse. Obtained: StepNamesResponse'',
      stackTrace = None, executionTime = None, message = []\<rparr> \<and>
   isProtocolError (runner (executorOf emptySpec (\<lambda>h m. TransportError ''EOF'') noErrs)
      (sent (executorOf emptySpec (\<lambda>h m. TransportError ''EOF'') noErrs)) SpecDataStoreInit) \<and>
   getFailed (roundTripResult (executorOf emptySpec (\<lambda>h m. TransportError ''EOF'') noErrs) SpecDataStoreInit) \<and>
   getErrorMessage (roundTripResult (executorOf emptySpec (\<lambda>h m. TransportError ''EOF'') noErrs)
      SpecDataStoreInit) = ''EOF'' \<and>
   getRecoverableError (roundTripResult (executorOf emptySpec (\<lambda>h m. TransportError ''EOF'') noErrs)
      SpecDataStoreInit) = False \<and>
   inScenario (executorOf emptySpec (\<lambda>h m. TransportError ''EOF'') noErrs) \<and>
   stepExecutionResult (protoStepOf ''S1'') \<noteq> None \<and>
   replyFailed (runner (executorOf emptySpec (\<lambda>h m. TransportError ''EOF'') noErrs)
      (sent (executorOf emptySpec (\<lambda>h m. TransportError ''EOF'') noErrs))
      (StepExecutionStarting (stepStarting (executorOf emptySpec (\<lambda>h m. TransportError ''EOF'') noErrs)
         (protoStepOf ''S1'')))) \<and>
   (\<exists>st' e'. executeStep (executorOf emptySpec (\<lambda>h m. TransportError ''EOF'') noErrs) (protoStepOf ''S1'')
        = Some (True, st', e') \<and> length (sent e') = 2)"
proof -
  let ?T = "executorOf emptySpec (\<lambda>h m. TransportError ''EOF'') noErrs"
  let ?N = "executorOf emptySpec (\<lambda>h m. Reply (ExecutionStatusResponse None)) noErrs"
  let ?O = "executorOf emptySpec (\<lambda>h m. Reply (OtherResponse ''StepNamesResponse'')) noErrs"
  have t: "runner ?T (sent ?T) SpecDataStoreInit = TransportError ''EOF''"
    and n: "runner ?N (sent ?N) SpecDataStoreInit = Reply (ExecutionStatusResponse None)"
    and o: "runner ?O (sent ?O) SpecDataStoreInit = Reply (OtherResponse ''StepNamesResponse'')"
    by (simp_all add: executorOf_def)
  have s: "inScenario ?T" "stepExecutionResult (protoStepOf ''S1'') \<noteq> None"
    "replyFailed (runner ?T (sent ?T) (StepExecutionStarting (stepStarting ?T (protoStepOf ''S1''))))"
    by (simp_all add: executorOf_def inScenario_def protoStepOf_def)
  have p: "isProtocolError (runner ?T (sent ?T) SpecDataStoreInit)"
    by (simp add: t)
  note T = protocol_error_gives_failed_result [of ?T SpecDataStoreInit "''EOF''" _ "protoStepOf ''S1''"]
  note N = protocol_error_gives_failed_result [of ?N SpecDataStoreInit]
  note O = protocol_error_gives_failed_result [of ?O SpecDataStoreInit _ "''StepNamesResponse''"]
  have r1: "roundTripResult ?T SpecDataStoreInit =
     \<lparr>failed = Some True, recoverableError = None, errorMessage = Some ''EOF'',
      stackTrace = None, executionTime = None, message = []\<rparr>"
    using T t by blast
  have r2: "roundTripResult ?N SpecDataStoreInit =
     \<lparr>failed = Some True, recoverableError = Some False,
      errorMessage = Some ''ProtoExecutionResult obtained is nil'',
      stackTrace = None, executionTime = None, message = []\<rparr>"
    using N n by blast
  have r3: "roundTripResult ?O SpecDataStoreInit =
     \<lparr>failed = Some True, recoverableError = Some False,
      errorMessage = Some ''Expected ExecutionStatusResponse. Obtained: StepNamesResponse'',
      stackTrace = None, executionTime = None, message = []\<rparr>"
    using O o by simp
  have g: "getFailed (roundTripResult ?T SpecDataStoreInit)"
      "getErrorMessage (roundTripResult ?T SpecDataStoreInit) = ''EOF''"
      "getRecoverableError (roundTripResult ?T SpecDataStoreInit) = False"
    using T p t by (simp_all add: getErrorMessage_def)
  have x: "\<exists>st' e'. executeStep ?T (protoStepOf ''S1'') = Some (True, st', e') \<and> length (sent e') = 2"
  proof -
    from T s obtain st' e' i where "executeStep ?T (protoStepOf ''S1'') = Some (True, st', e')"
      "sent e' = sent ?T @ [StepExecutionStarting (stepStarting ?T (protoStepOf ''S1'')), StepExecutionEnding i]"
      by blast
    then show ?thesis by (simp add: executorOf_def)
  qed
  show ?thesis
    by (intro conjI t n o r1 r2 r3 p g s x)
qed

text \<open>
  C7. Executing a scenario that is in the scenario skip map returns a result that is
  marked skipped, whose skip errors are, for each validation error of the scenario, the
  text \<^verbatim>\<open><file>:<line>: <message>. <line text>\<close>, and whose shell is the resolved
  contexts, items and tear-down steps; the skipped count of the spec result goes up by
  exactly one; nothing is written to the runner and no plugin is notified.
\<close>

theorem skipped_scenario_result:
  assumes "scenarioErrs (errMap e) (scenarioRef scn) = Some errs"
      and "addAllItemsForScenarioExecution R e scn (newProtoScenario scn) = Some shell"
  shows "\<exists>res e'. executeScenario R e scn = Some (res, e') \<and>
           pSkipped res = Some True \<and>
           pSkipErrors res =
             map (\<lambda>err. errFileName err @ '':'' @ showInt (errStepLineNo err) @ '': '' @ errMessage err
                          @ ''. '' @ errStepLineText err) errs \<and>
           pContexts res = pContexts shell \<and> pScenarioItems res = pScenarioItems shell \<and>
           pTearDownSteps res = pTearDownSteps shell \<and>
           scenarioSkippedCount (specResult e') = scenarioSkippedCount (specResult e) + 1 \<and>
           sent e' = sent e \<and> notified e' = notified e"
proof -
  let ?e = "e\<lparr>currentExecutionInfo := (currentExecutionInfo e)
                \<lparr>currentScenario := Some \<lparr>scenarioInfoName = scenarioHeading scn,
                                          scenarioInfoIsFailed = False,
                                          scenarioInfoTags = getTagValue (scenarioTags scn)\<rparr>\<rparr>\<rparr>"
  have "addAllItemsForScenarioExecution R ?e scn (newProtoScenario scn) = Some shell"
    using assms(2) addAllItems_cong [of ?e e R scn] by simp
  then show ?thesis
    using assms(1)
    by (simp add: executeScenario_def Let_def setSkipInfoInResult_def skipError_def domI)
qed

theorem skipped_scenario_result_witness:
  "scenarioErrs (errMap (executorOf (specOf [scenarioOf 1 [plainStep 10 ''S1'']]) scriptedRunner
        (noErrs\<lparr>scenarioErrs := [1 \<mapsto> [oneError]]\<rparr>))) (scenarioRef (scenarioOf 1 [plainStep 10 ''S1'']))
     = Some [oneError] \<and>
   addAllItemsForScenarioExecution plainResolver
      (executorOf (specOf [scenarioOf 1 [plainStep 10 ''S1'']]) scriptedRunner
        (noErrs\<lparr>scenarioErrs := [1 \<mapsto> [oneError]]\<rparr>))
      (scenarioOf 1 [plainStep 10 ''S1'']) (newProtoScenario (scenarioOf 1 [plainStep 10 ''S1'']))
     = Some ((newProtoScenario (scenarioOf 1 [plainStep 10 ''S1'']))
               \<lparr>pScenarioItems := [ProtoItem_Step (protoStepOf ''S1'')]\<rparr>) \<and>
   (\<exists>res e'. executeScenario plainResolver
        (executorOf (specOf [scenarioOf 1 [plainStep 10 ''S1'']]) scriptedRunner
           (noErrs\<lparr>scenarioErrs := [1 \<mapsto> [oneError]]\<rparr>))
        (scenarioOf 1 [plainStep 10 ''S1'']) = Some (res, e') \<and>
      pSkipped res = Some True \<and>
      pSkipErrors res = [''a.spec:12: Step implementation not found. * S1''] \<and>
      scenarioSkippedCount (specResult e') = 1 \<and> sent e' = [])"
proof -
  let ?E = "executorOf (specOf [scenarioOf 1 [plainStep 10 ''S1'']]) scriptedRunner
        (noErrs\<lparr>scenarioErrs := [1 \<mapsto> [oneError]]\<rparr>)"
  have h1: "scenarioErrs (errMap ?E) (scenarioRef (scenarioOf 1 [plainStep 10 ''S1''])) = Some [oneError]"
    by (simp add: executorOf_def scenarioOf_def)
  have h2: "addAllItemsForScenarioExecution plainResolver ?E
      (scenarioOf 1 [plainStep 10 ''S1'']) (newProtoScenario (scenarioOf 1 [plainStep 10 ''S1'']))
     = Some ((newProtoScenario (scenarioOf 1 [plainStep 10 ''S1'']))
               \<lparr>pScenarioItems := [ProtoItem_Step (protoStepOf ''S1'')]\<rparr>)"
    by (simp add: addAllItemsForScenarioExecution_def getContextItemsForScenarioExecution_def
        resolveItems_def executorOf_def specOf_def emptySpec_def scenarioOf_def resolve_plainStep
        noErrs_def newProtoScenario_def protoStepOf_def emptyStepExecutionResult_def)
  show ?thesis
    using skipped_scenario_result [OF h1 h2] h1 h2
    by (auto simp: oneError_def showInt_def showNat.simps executorOf_def newSpecResult_def)
qed

text \<open>
  C3. When the specification is not in the skip map and the before-spec hook fails, the
  messages written are the before-spec hook and the after-spec hook and nothing else:
  no scenario is executed and none is attached to the result. The failure is recorded
  as the pre-hook entry of the result, and the execution info the after-spec hook
  carries has the specification marked failed.
\<close>

theorem failed_before_spec_hook:
  assumes "specRef (specification' e) \<notin> dom (specErrs (errMap e))"
      and "resolveItems R e (specItems (specification' e)) = Some items"
      and "replyFailed (runner e (sent e) (SpecExecutionStarting (specStarting (specification' e))))"
  shows "\<exists>res e' i sp. execute R e = Some (res, e') \<and>
           sent e' = sent e @ [SpecExecutionStarting (specStarting (specification' e)), SpecExecutionEnding i] \<and>
           currentSpec i = Some sp \<and> specInfoIsFailed sp \<and>
           resPreHookFailure res \<noteq> None \<and>
           resScenarioResults res = [] \<and> resTableDrivenResults res = []"
proof -
  let ?e = "e\<lparr>currentExecutionInfo := specStarting (specification' e),
                 specResult := newSpecResult (specification' e)\<rparr>"
  have "resolveItems R ?e (specItems (specification' e)) = Some items"
    using assms(2) resolveItems_cong [of ?e e R] by simp
  then show ?thesis
    using assms(1,3)
    by (simp add: execute_def Let_def specStarting_def runSpec_def executeBeforeSpecHook_def
        executeAfterSpecHook_def executeSpecHook_def split_beta markFailed_def setSpecFailure_def
        addSpecPreHook_def addSpecPostHook_def addSpecItems_def newSpecResult_def addSpecExecTime_def)
qed

theorem failed_before_spec_hook_witness:
  "specRef (specification' (executorOf (specOf [scenarioOf 1 [plainStep 10 ''S1'']]) (\<lambda>h m. status True 3) noErrs))
     \<notin> dom (specErrs (errMap (executorOf (specOf [scenarioOf 1 [plainStep 10 ''S1'']]) (\<lambda>h m. status True 3) noErrs))) \<and>
   resolveItems plainResolver (executorOf (specOf [scenarioOf 1 [plainStep 10 ''S1'']]) (\<lambda>h m. status True 3) noErrs)
     (specItems (specification' (executorOf (specOf [scenarioOf 1 [plainStep 10 ''S1'']]) (\<lambda>h m. status True 3) noErrs)))
     = Some [] \<and>
   replyFailed (runner (executorOf (specOf [scenarioOf 1 [plainStep 10 ''S1'']]) (\<lambda>h m. status True 3) noErrs)
      (sent (executorOf (specOf [scenarioOf 1 [plainStep 10 ''S1'']]) (\<lambda>h m. status True 3) noErrs))
      (SpecExecutionStarting (specStarting (specification'
          (executorOf (specOf [scenarioOf 1 [plainStep 10 ''S1'']]) (\<lambda>h m. status True 3) noErrs))))) \<and>
   (\<exists>res e'. execute plainResolver
        (executorOf (specOf [scenarioOf 1 [plainStep 10 ''S1'']]) (\<lambda>h m. status True 3) noErrs) = Some (res, e') \<and>
      length (sent e') = 2 \<and> resScenarioResults res = [])"
proof -
  let ?E = "executorOf (specOf [scenarioOf 1 [plainStep 10 ''S1'']]) (\<lambda>h m. status True 3) noErrs"
  have h1: "specRef (specification' ?E) \<notin> dom (specErrs (errMap ?E))"
    by (simp add: executorOf_def noErrs_def)
  have h2: "resolveItems plainResolver ?E (specItems (specification' ?E)) = Some []"
    by (simp add: resolveItems_def executorOf_def specOf_def emptySpec_def)
  have h3: "replyFailed (runner ?E (sent ?E) (SpecExecutionStarting (specStarting (specification' ?E))))"
    by (simp add: executorOf_def status_def)
  show ?thesis
    using failed_before_spec_hook [OF h1 h2 h3] h1 h2 h3 by (auto simp: executorOf_def)
qed

text \<open>
  C5. Executing a specification that is in the spec skip map returns a result that
  holds, for every scenario in order, its shell marked skipped: the shell carries the
  heading of the scenario, one resolved item for each context step and each tear-down
  step of the specification and for each item of the scenario that is not a tear-down
  item, each with the text of its source, and the skip errors of the scenario. The
  skipped count is the number of scenarios, the result is marked skipped, nothing is
  written to the runner and no plugin is notified.
\<close>

theorem skipped_spec_result:
  assumes "specRef (specification' e) \<in> dom (specErrs (errMap e))"
      and "resolveItems R e (specItems (specification' e)) = Some items"
      and "\<forall>scn \<in> set (scenarios (specification' e)).
             addAllItemsForScenarioExecution R e scn (newProtoScenario scn) \<noteq> None"
  shows "\<exists>res e'. execute R e = Some (res, e') \<and>
           list_all2 (\<lambda>scn r. \<exists>shell.
                 addAllItemsForScenarioExecution R e scn (newProtoScenario scn) = Some shell \<and>
                 r = shell\<lparr>pSkipped := Some True,
                           pSkipErrors := map skipError
                             (case scenarioErrs (errMap e) (scenarioRef scn) of None \<Rightarrow> [] | Some errs \<Rightarrow> errs)\<rparr>)
             (scenarios (specification' e)) (resScenarioResults res) \<and>
           list_all2 (\<lambda>scn r.
                 pScenarioHeading r = scenarioHeading scn \<and>
                 map protoItemText (pContexts r) =
                   map (\<lambda>st. lineText (stepData st)) (contexts (specification' e)) \<and>
                 map protoItemText (pTearDownSteps r) =
                   map (\<lambda>st. lineText (stepData st)) (tearDownSteps (specification' e)) \<and>
                 map protoItemText (pScenarioItems r) =
                   map itemText (filter (\<lambda>i. i \<noteq> TearDownItem) (scenarioItems scn)) \<and>
                 pSkipped r = Some True \<and>
                 pSkipErrors r = map skipError
                   (case scenarioErrs (errMap e) (scenarioRef scn) of None \<Rightarrow> [] | Some errs \<Rightarrow> errs))
             (scenarios (specification' e)) (resScenarioResults res) \<and>
           (\<forall>r \<in> set (resScenarioResults res). pSkipped r = Some True) \<and>
           scenarioSkippedCount res = length (scenarios (specification' e)) \<and>
           resSkipped res \<and> sent e' = sent e \<and> notified e' = notified e"
proof -
  let ?e = "e\<lparr>currentExecutionInfo := specStarting (specification' e),
                 specResult := addSpecItems items (newSpecResult (specification' e))\<rparr>"
  let ?init = "e\<lparr>currentExecutionInfo := specStarting (specification' e),
                 specResult := newSpecResult (specification' e)\<rparr>"
  have items: "resolveItems R ?init (specItems (specification' e)) = Some items"
    using assms(2) resolveItems_cong [of ?init e R] by simp
  have same: "addAllItemsForScenarioExecution R ?e s (newProtoScenario s) =
              addAllItemsForScenarioExecution R e s (newProtoScenario s)" for s
    by (rule addAllItems_cong) simp_all
  have "\<forall>s \<in> set (scenarios (specification' e)).
          addAllItemsForScenarioExecution R ?e s (newProtoScenario s) \<noteq> None"
    using assms(3) by (simp add: same)
  from getSkippedScenarioResults_Some [OF this]
  obtain rs where rs:
      "getSkippedScenarioResults R ?e (scenarios (specification' e)) =
         Some (rs, bumpSkipped (length (scenarios (specification' e))) ?e)"
      "list_all2 (\<lambda>scn r. \<exists>shell. addAllItemsForScenarioExecution R ?e scn (newProtoScenario scn) = Some shell \<and>
                                r = skippedShell (errMap ?e) scn shell) (scenarios (specification' e)) rs"
    by auto
  have ex: "execute R e = Some
      ((addScenarioResults rs (specResult (bumpSkipped (length (scenarios (specification' e))) ?e)))
          \<lparr>resSkipped := True\<rparr>,
       (bumpSkipped (length (scenarios (specification' e))) ?e)
          \<lparr>specResult := (addScenarioResults rs
              (specResult (bumpSkipped (length (scenarios (specification' e))) ?e)))\<lparr>resSkipped := True\<rparr>\<rparr>)"
    using assms(1) items rs(1)
    by (simp add: execute_def Let_def specStarting_def getSkippedSpecResult_def)
  have skipped: "\<forall>r \<in> set rs. pSkipped r = Some True"
    using rs(2) by (induction rule: list_all2_induct) (auto simp: skippedShell_def)
  have shells: "list_all2 (\<lambda>scn r. \<exists>shell.
                 addAllItemsForScenarioExecution R e scn (newProtoScenario scn) = Some shell \<and>
                 r = shell\<lparr>pSkipped := Some True,
                           pSkipErrors := map skipError
                             (case scenarioErrs (errMap e) (scenarioRef scn) of None \<Rightarrow> [] | Some errs \<Rightarrow> errs)\<rparr>)
             (scenarios (specification' e)) rs"
    using rs(2) by (simp add: same skippedShell_def)
  have texts: "list_all2 (\<lambda>scn r.
                 pScenarioHeading r = scenarioHeading scn \<and>
                 map protoItemText (pContexts r) =
                   map (\<lambda>st. lineText (stepData st)) (contexts (specification' e)) \<and>
                 map protoItemText (pTearDownSteps r) =
                   map (\<lambda>st. lineText (stepData st)) (tearDownSteps (specification' e)) \<and>
                 map protoItemText (pScenarioItems r) =
                   map itemText (filter (\<lambda>i. i \<noteq> TearDownItem) (scenarioItems scn)) \<and>
                 pSkipped r = Some True \<and>
                 pSkipErrors r = map skipError
                   (case scenarioErrs (errMap e) (scenarioRef scn) of None \<Rightarrow> [] | Some errs \<Rightarrow> errs))
             (scenarios (specification' e)) rs"
    using shells
  proof (rule list_all2_mono)
    fix scn r
    assume "\<exists>shell. addAllItemsForScenarioExecution R e scn (newProtoScenario scn) = Some shell \<and>
                 r = shell\<lparr>pSkipped := Some True,
                           pSkipErrors := map skipError
                             (case scenarioErrs (errMap e) (scenarioRef scn) of None \<Rightarrow> [] | Some errs \<Rightarrow> errs)\<rparr>"
    then obtain shell where sh: "addAllItemsForScenarioExecution R e scn (newProtoScenario scn) = Some shell"
      and r: "r = shell\<lparr>pSkipped := Some True,
                           pSkipErrors := map skipError
                             (case scenarioErrs (errMap e) (scenarioRef scn) of None \<Rightarrow> [] | Some errs \<Rightarrow> errs)\<rparr>"
      by blast
    from addAllItems_texts [OF sh] r
    show "pScenarioHeading r = scenarioHeading scn \<and>
                 map protoItemText (pContexts r) =
                   map (\<lambda>st. lineText (stepData st)) (contexts (specification' e)) \<and>
                 map protoItemText (pTearDownSteps r) =
                   map (\<lambda>st. lineText (stepData st)) (tearDownSteps (specification' e)) \<and>
                 map protoItemText (pScenarioItems r) =
                   map itemText (filter (\<lambda>i. i \<noteq> TearDownItem) (scenarioItems scn)) \<and>
                 pSkipped r = Some True \<and>
                 pSkipErrors r = map skipError
                   (case scenarioErrs (errMap e) (scenarioRef scn) of None \<Rightarrow> [] | Some errs \<Rightarrow> errs)"
      by simp
  qed
  show ?thesis
    using shells texts skipped
    by (simp add: ex addScenarioResults_def bumpSkipped_def addSpecItems_def newSpecResult_def)
qed

theorem skipped_spec_result_witness:
  "specRef (specification' (executorOf contextSpec scriptedRunner
        (noErrs\<lparr>specErrs := [0 \<mapsto> [oneError]]\<rparr>)))
     \<in> dom (specErrs (errMap (executorOf contextSpec scriptedRunner
        (noErrs\<lparr>specErrs := [0 \<mapsto> [oneError]]\<rparr>)))) \<and>
   resolveItems plainResolver (executorOf contextSpec scriptedRunner
        (noErrs\<lparr>specErrs := [0 \<mapsto> [oneError]]\<rparr>))
     (specItems (specification' (executorOf contextSpec scriptedRunner
        (noErrs\<lparr>specErrs := [0 \<mapsto> [oneError]]\<rparr>)))) = Some [] \<and>
   scenarios (specification' (executorOf contextSpec scriptedRunner
        (noErrs\<lparr>specErrs := [0 \<mapsto> [oneError]]\<rparr>))) = [scenarioOf 5 [plainStep 10 ''S1'']] \<and>
   addAllItemsForScenarioExecution plainResolver
      (executorOf contextSpec scriptedRunner (noErrs\<lparr>specErrs := [0 \<mapsto> [oneError]]\<rparr>))
      (scenarioOf 5 [plainStep 10 ''S1'']) (newProtoScenario (scenarioOf 5 [plainStep 10 ''S1'']))
     = Some ((newProtoScenario (scenarioOf 5 [plainStep 10 ''S1'']))
               \<lparr>pContexts := [ProtoItem_Step (protoStepOf ''Ctx'')],
                pScenarioItems := [ProtoItem_Step (protoStepOf ''S1'')],
                pTearDownSteps := [ProtoItem_Step (protoStepOf ''Td'')]\<rparr>) \<and>
   (\<exists>res e'. execute plainResolver (executorOf contextSpec scriptedRunner
        (noErrs\<lparr>specErrs := [0 \<mapsto> [oneError]]\<rparr>)) = Some (res, e') \<and>
      resScenarioResults res =
        [(newProtoScenario (scenarioOf 5 [plainStep 10 ''S1'']))
               \<lparr>pContexts := [ProtoItem_Step (protoStepOf ''Ctx'')],
                pScenarioItems := [ProtoItem_Step (protoStepOf ''S1'')],
                pTearDownSteps := [ProtoItem_Step (protoStepOf ''Td'')],
                pSkipped := Some True, pSkipErrors := []\<rparr>] \<and>
      scenarioSkippedCount res = 1 \<and> resSkipped res \<and> sent e' = [] \<and> notified e' = [])"
proof -
  let ?E = "executorOf contextSpec scriptedRunner (noErrs\<lparr>specErrs := [0 \<mapsto> [oneError]]\<rparr>)"
  let ?scn = "scenarioOf 5 [plainStep 10 ''S1'']"
  let ?shell = "(newProtoScenario ?scn)
               \<lparr>pContexts := [ProtoItem_Step (protoStepOf ''Ctx'')],
                pScenarioItems := [ProtoItem_Step (protoStepOf ''S1'')],
                pTearDownSteps := [ProtoItem_Step (protoStepOf ''Td'')]\<rparr>"
  have h1: "specRef (specification' ?E) \<in> dom (specErrs (errMap ?E))"
    by (simp add: executorOf_def noErrs_def contextSpec_def emptySpec_def)
  have h2: "resolveItems plainResolver ?E (specItems (specification' ?E)) = Some []"
    by (simp add: resolveItems_def executorOf_def contextSpec_def emptySpec_def)
  have scns: "scenarios (specification' ?E) = [?scn]"
    by (simp add: executorOf_def contextSpec_def)
  have shell: "addAllItemsForScenarioExecution plainResolver ?E ?scn (newProtoScenario ?scn) = Some ?shell"
    by (simp add: addAllItemsForScenarioExecution_def getContextItemsForScenarioExecution_def
        resolveItems_def executorOf_def contextSpec_def emptySpec_def scenarioOf_def resolve_plainStep
        noErrs_def newProtoScenario_def protoStepOf_def emptyStepExecutionResult_def)
  have h3: "\<forall>scn \<in> set (scenarios (specification' ?E)).
      addAllItemsForScenarioExecution plainResolver ?E scn (newProtoScenario scn) \<noteq> None"
    unfolding scns using shell by simp
  from skipped_spec_result [OF h1 h2 h3]
  obtain res e' where r: "execute plainResolver ?E = Some (res, e')"
      "list_all2 (\<lambda>scn r. \<exists>shell.
                 addAllItemsForScenarioExecution plainResolver ?E scn (newProtoScenario scn) = Some shell \<and>
                 r = shell\<lparr>pSkipped := Some True,
                           pSkipErrors := map skipError
                             (case scenarioErrs (errMap ?E) (scenarioRef scn) of None \<Rightarrow> [] | Some errs \<Rightarrow> errs)\<rparr>)
             (scenarios (specification' ?E)) (resScenarioResults res)"
      "scenarioSkippedCount res = length (scenarios (specification' ?E))"
      "resSkipped res" "sent e' = sent ?E" "notified e' = notified ?E" by blast
  have errs: "scenarioErrs (errMap ?E) (scenarioRef ?scn) = None"
    by (simp add: executorOf_def noErrs_def)
  have m: "resScenarioResults res = [?shell\<lparr>pSkipped := Some True, pSkipErrors := []\<rparr>]"
    using r(2) unfolding scns by (auto simp: list_all2_Cons1 shell errs)
  have c: "scenarioSkippedCount res = 1" "sent e' = []" "notified e' = []"
    using r(3,5,6) by (simp_all add: executorOf_def contextSpec_def)
  show ?thesis
    by (intro conjI h1 h2 scns shell exI [of _ res] exI [of _ e'] r(1) r(4) m c)
qed

text \<open>
  C10 (\<^verbatim>\<open>setExecutionResultForConcept\<close>, lines 410 to 438). When the children before \<open>x\<close> have
  not failed and \<open>x\<close> has, the concept's result points to the result object of \<open>x\<close> itself: no
  object is allocated, and the one write to the heap sets the execution time of that object
  to the sum (of 64-bit integers) of the times of the children up to and including \<open>x\<close>. Read
  afterwards, the execution time of \<open>x\<close> is that sum and no longer its own time. The children
  after \<open>x\<close> are not looked at.
\<close>

theorem concept_result_is_failing_childs_object:
  assumes "\<forall>y \<in> set pre. \<not> failedAt (heap e) (itemResult y)"
      and "failedAt (heap e) (itemResult x)"
  shows "\<exists>a cs' r e'.
           itemResult x = Some a \<and>
           setExecutionResultForConcept e cs (pre @ x # post) = (cs', Some r, e') \<and>
           executionResult r = Some a \<and> stepExecutionResult cs' = Some r \<and>
           nextAddr e' = nextAddr e \<and>
           heap e' = (heap e)(a := (heap e a)\<lparr>executionTime :=
                        Some (sum_list (map (itemTime (heap e)) (pre @ [x])))\<rparr>) \<and>
           timeAt (heap e') (executionResult r) = sum_list (map (itemTime (heap e)) (pre @ [x])) \<and>
           itemTime (heap e') x = sum_list (map (itemTime (heap e)) (pre @ [x]))"
proof -
  from assms(2) obtain a where a: "itemResult x = Some a" and gf: "getFailed (heap e a)"
    by (auto simp: failedAt_def split: option.splits)
  note setr = setExecutionResultForConcept_failed [OF assms(1) a gf, of cs post]
  let ?t = "sum_list (map (itemTime (heap e)) (pre @ [x]))"
  let ?r = "emptyStepExecutionResult\<lparr>executionResult := Some a, skipped := Some False\<rparr>"
  let ?e' = "e\<lparr>heap := (heap e)(a := (heap e a)\<lparr>executionTime := Some ?t\<rparr>)\<rparr>"
  have t1: "timeAt (heap ?e') (executionResult ?r) = ?t"
    by (simp add: timeAt_def getExecutionTime_def)
  have t2: "itemTime (heap ?e') x = ?t"
    by (simp add: itemTime_itemResult a timeAt_def getExecutionTime_def)
  show ?thesis
    apply (intro exI [of _ a] exI [of _ "cs\<lparr>stepExecutionResult := Some ?r\<rparr>"] exI [of _ ?r] exI [of _ ?e'] conjI)
           apply (rule a)
          apply (rule setr)
         apply simp
        apply simp
       apply simp
      apply simp
     apply (rule t1)
    apply (rule t2)
    done
qed

theorem concept_result_is_failing_childs_object_witness:
  "\<not> failedAt (heap twoRan) (itemResult (ranStep ''S1'' 3)) \<and>
   failedAt (heap twoRan) (itemResult (ranStep ''S2'' 4)) \<and>
   itemTime (heap twoRan) (ranStep ''S1'' 3) = 10 \<and>
   itemTime (heap twoRan) (ranStep ''S2'' 4) = 5 \<and>
   (\<exists>cs' r e'.
      setExecutionResultForConcept twoRan (protoStepOf ''C'')
        [ranStep ''S1'' 3, ranStep ''S2'' 4, ProtoItem_Step (protoStepOf ''S3'')] = (cs', Some r, e') \<and>
      executionResult r = Some 4 \<and> stepExecutionResult cs' = Some r \<and>
      nextAddr e' = 5 \<and>
      timeAt (heap e') (executionResult r) = 15 \<and>
      itemTime (heap e') (ranStep ''S2'' 4) = 15 \<and>
      itemTime (heap e') (ranStep ''S1'' 3) = 10)"
proof -
  have h1: "\<forall>y \<in> set [ranStep ''S1'' 3]. \<not> failedAt (heap twoRan) (itemResult y)"
    by (simp add: twoRan_def ranStep_def resultOf_def failedAt_def getExecutionResult_def
        emptyStepExecutionResult_def)
  have h2: "failedAt (heap twoRan) (itemResult (ranStep ''S2'' 4))"
    by (simp add: twoRan_def ranStep_def resultOf_def failedAt_def getExecutionResult_def
        emptyStepExecutionResult_def)
  have t: "itemTime (heap twoRan) (ranStep ''S1'' 3) = 10" "itemTime (heap twoRan) (ranStep ''S2'' 4) = 5"
    by (simp_all add: twoRan_def ranStep_def resultOf_def timeAt_def getExecutionResult_def
        emptyStepExecutionResult_def getExecutionTime_def)
  have a: "itemResult (ranStep ''S2'' 4) = Some 4" "itemResult (ranStep ''S1'' 3) = Some 3"
    by (simp_all add: ranStep_def getExecutionResult_def emptyStepExecutionResult_def)
  from concept_result_is_failing_childs_object [OF h1 h2, of "protoStepOf ''C''" "[ProtoItem_Step (protoStepOf ''S3'')]"]
  obtain b cs' r e' where r: "itemResult (ranStep ''S2'' 4) = Some b"
      "setExecutionResultForConcept twoRan (protoStepOf ''C'')
         ([ranStep ''S1'' 3] @ ranStep ''S2'' 4 # [ProtoItem_Step (protoStepOf ''S3'')]) = (cs', Some r, e')"
      "executionResult r = Some b" "stepExecutionResult cs' = Some r" "nextAddr e' = nextAddr twoRan"
      "heap e' = (heap twoRan)(b := (heap twoRan b)\<lparr>executionTime :=
                        Some (sum_list (map (itemTime (heap twoRan)) ([ranStep ''S1'' 3] @ [ranStep ''S2'' 4])))\<rparr>)"
      "timeAt (heap e') (executionResult r) =
         sum_list (map (itemTime (heap twoRan)) ([ranStep ''S1'' 3] @ [ranStep ''S2'' 4]))"
      "itemTime (heap e') (ranStep ''S2'' 4) =
         sum_list (map (itemTime (heap twoRan)) ([ranStep ''S1'' 3] @ [ranStep ''S2'' 4]))"
    by (elim exE conjE)
  have b: "b = 4" using r(1) a(1) by simp
  have s1: "itemTime (heap e') (ranStep ''S1'' 3) = 10"
    using t(1) by (simp add: r(6) b itemTime_itemResult a timeAt_def)
  have c: "setExecutionResultForConcept twoRan (protoStepOf ''C'')
        [ranStep ''S1'' 3, ranStep ''S2'' 4, ProtoItem_Step (protoStepOf ''S3'')] = (cs', Some r, e')"
    using r(2) by simp
  have d: "executionResult r = Some 4" "nextAddr e' = 5"
      "timeAt (heap e') (executionResult r) = 15" "itemTime (heap e') (ranStep ''S2'' 4) = 15"
    using r(3,5,7,8) b t by (simp_all add: twoRan_def)
  show ?thesis
    using h1 by (intro conjI exI [of _ cs'] exI [of _ r] exI [of _ e'] h2 t c d r(4) s1) simp
qed

text \<open>
  C2 (\<^verbatim>\<open>executeConcept\<close>, lines 396 to 408, with \<^verbatim>\<open>setExecutionResultForConcept\<close>). A
  concept with freshly resolved children, executed inside a scenario, returns; \<open>log\<close> lists
  the children \<^verbatim>\<open>executeItem\<close> was called on, in order, each with its failure flag and the
  time of its result when the call returned. No child but the last of the log has failed; the
  concept has failed exactly when the last one has, and then the children after it are
  returned as they were given, not executed; with no failure every child is in the log. In
  both cases the execution time of the concept's result is the sum (of 64-bit integers) of
  the times in the log.
\<close>

theorem concept_time_is_sum_up_to_first_failure:
  assumes "inScenario e" "\<forall>y \<in> set steps. fresh y" "getExecutionResult cres = None"
  shows "\<exists>f cs' steps' cres' e' log.
           executeConcept e cs steps cres = Some (f, ProtoItem_Concept cs' steps' cres', e') \<and>
           conceptLog e cs cres [] steps = Some log \<and>
           f = failedAt (heap e') (getExecutionResult cres') \<and>
           timeAt (heap e') (getExecutionResult cres') = sum_list (map snd log) \<and>
           length steps' = length steps \<and> length log \<le> length steps \<and>
           drop (length log) steps' = drop (length log) steps \<and>
           (\<forall>p \<in> set (butlast log). \<not> fst p) \<and>
           (f \<longrightarrow> log \<noteq> [] \<and> fst (last log)) \<and>
           (\<not> f \<longrightarrow> length log = length steps \<and> (\<forall>p \<in> set log. \<not> fst p))"
proof -
  have agg: "aggregated e cres []"
    by (simp add: aggregated_def assms(3) failedAt_def timeAt_def)
  from executeItem_runs(2) [OF assms(1,2) agg, of cs]
  obtain f x' e' log where run: "executeConceptSteps e cs cres [] steps = Some (f, x', e')"
    and log: "conceptLog e cs cres [] steps = Some log"
    and lr: "loopRun e cres [] steps f x' e' log"
    by (elim exE conjE)
  from lr obtain cs' cres' exs where
      x': "x' = ProtoItem_Concept cs' ([] @ exs @ drop (length log) steps) cres'"
      and len: "length exs = length log"
      and f: "f = failedAt (heap e') (getExecutionResult cres')"
      and time: "timeAt (heap e') (getExecutionResult cres') =
          sum_list (map (itemTime (heap e)) []) + sum_list (map snd log)"
      and rest: "length log \<le> length steps"
        "\<forall>p \<in> set (butlast log). \<not> fst p" "f \<longrightarrow> log \<noteq> [] \<and> fst (last log)"
        "\<not> f \<longrightarrow> length log = length steps \<and> (\<forall>p \<in> set log. \<not> fst p)"
    unfolding loopRun_def by (elim exE conjE)
  have run': "executeConcept e cs steps cres =
      Some (f, ProtoItem_Concept cs' (exs @ drop (length log) steps) cres', e')"
    using run x' by (simp add: executeConcept_def)
  show ?thesis
    apply (intro exI [of _ f] exI [of _ cs'] exI [of _ "exs @ drop (length log) steps"] exI [of _ cres']
        exI [of _ e'] exI [of _ log] conjI)
             apply (rule run')
            apply (rule log)
           apply (rule f)
          apply (use time in simp)
         apply (use len rest(1) in simp)
        apply (rule rest(1))
       apply (use len in simp)
      apply (rule rest(2))
     apply (rule rest(3))
    apply (rule rest(4))
    done
qed

theorem concept_time_is_sum_up_to_first_failure_witness:
  "inScenario (executorOf emptySpec scriptedRunner noErrs) \<and>
   fresh (ProtoItem_Step (protoStepOf ''S1'')) \<and> fresh (ProtoItem_Step (protoStepOf ''S2'')) \<and>
   fresh (ProtoItem_Step (protoStepOf ''S3'')) \<and>
   conceptLog (executorOf emptySpec scriptedRunner noErrs) (protoStepOf ''C'') None []
      [ProtoItem_Step (protoStepOf ''S1''), ProtoItem_Step (protoStepOf ''S2''),
       ProtoItem_Step (protoStepOf ''S3'')] = Some [(False, 10), (True, 5)] \<and>
   (\<exists>cs' steps' cres' e'.
      executeConcept (executorOf emptySpec scriptedRunner noErrs) (protoStepOf ''C'')
        [ProtoItem_Step (protoStepOf ''S1''), ProtoItem_Step (protoStepOf ''S2''),
         ProtoItem_Step (protoStepOf ''S3'')] None = Some (True, ProtoItem_Concept cs' steps' cres', e') \<and>
      failedAt (heap e') (getExecutionResult cres') \<and>
      timeAt (heap e') (getExecutionResult cres') = 15 \<and>
      drop 2 steps' = [ProtoItem_Step (protoStepOf ''S3'')] \<and>
      map messageTypeOf (sent e') =
        [Message_StepExecutionStarting, Message_ExecuteStep, Message_StepExecutionEnding,
         Message_StepExecutionStarting, Message_ExecuteStep, Message_StepExecutionEnding] \<and>
      map messageStep (sent e') = [''S1'', ''S1'', ''S1'', ''S2'', ''S2'', ''S2''])"
proof -
  let ?E = "executorOf emptySpec scriptedRunner noErrs"
  let ?steps = "[ProtoItem_Step (protoStepOf ''S1''), ProtoItem_Step (protoStepOf ''S2''),
         ProtoItem_Step (protoStepOf ''S3'')]"
  have h1: "inScenario ?E" by (simp add: executorOf_def inScenario_def)
  have fr: "fresh (ProtoItem_Step (protoStepOf ''S1''))" "fresh (ProtoItem_Step (protoStepOf ''S2''))"
      "fresh (ProtoItem_Step (protoStepOf ''S3''))"
    by (simp_all add: protoStepOf_def getExecutionResult_def emptyStepExecutionResult_def)
  then have h2: "\<forall>y \<in> set ?steps. fresh y" by simp
  have h3: "getExecutionResult None = None" by (simp add: getExecutionResult_def)
  have log: "conceptLog ?E (protoStepOf ''C'') None [] ?steps = Some [(False, 10), (True, 5)]"
    by (simp add: run_defs executorOf_def protoStepOf_def status_def walkConceptSteps_Cons
        newSpecResult_def emptySpec_def noErrs_def)
  have ev: "(case executeConcept ?E (protoStepOf ''C'') ?steps None of
     None \<Rightarrow> False
   | Some (f, x, e') \<Rightarrow>
       f \<and> itemTime (heap e') x = 15 \<and>
       map messageTypeOf (sent e') =
        [Message_StepExecutionStarting, Message_ExecuteStep, Message_StepExecutionEnding,
         Message_StepExecutionStarting, Message_ExecuteStep, Message_StepExecutionEnding] \<and>
       map messageStep (sent e') = [''S1'', ''S1'', ''S1'', ''S2'', ''S2'', ''S2''])"
    by (simp add: run_defs executorOf_def protoStepOf_def status_def walkConceptSteps_Cons
        newSpecResult_def emptySpec_def noErrs_def)
  from concept_time_is_sum_up_to_first_failure [OF h1 h2 h3, of "protoStepOf ''C''"]
  obtain f cs' steps' cres' e' lg where r:
      "executeConcept ?E (protoStepOf ''C'') ?steps None = Some (f, ProtoItem_Concept cs' steps' cres', e')"
      "conceptLog ?E (protoStepOf ''C'') None [] ?steps = Some lg"
      "f = failedAt (heap e') (getExecutionResult cres')"
      "drop (length lg) steps' = drop (length lg) ?steps"
    by (elim exE conjE)
  have lg: "lg = [(False, 10), (True, 5)]" using r(2) log by simp
  have l2: "length lg = 2" by (simp add: lg)
  have d: "drop 2 steps' = [ProtoItem_Step (protoStepOf ''S3'')]"
    using r(4) unfolding l2 by simp
  from ev have ev': "f" "timeAt (heap e') (getExecutionResult cres') = 15"
      "map messageTypeOf (sent e') =
        [Message_StepExecutionStarting, Message_ExecuteStep, Message_StepExecutionEnding,
         Message_StepExecutionStarting, Message_ExecuteStep, Message_StepExecutionEnding]"
      "map messageStep (sent e') = [''S1'', ''S1'', ''S1'', ''S2'', ''S2'', ''S2'']"
    by (simp_all add: r(1))
  have run: "executeConcept ?E (protoStepOf ''C'') ?steps None = Some (True, ProtoItem_Concept cs' steps' cres', e')"
    using r(1) ev'(1) by simp
  have fl: "failedAt (heap e') (getExecutionResult cres')" using r(3) ev'(1) by simp
  show ?thesis
    by (intro conjI h1 fr log exI [of _ cs'] exI [of _ steps'] exI [of _ cres'] exI [of _ e'] run fl ev'(2-) d)
qed

text \<open>
  C4 (\<^verbatim>\<open>executeScenario\<close>, lines 213 to 236). For a scenario that is not skipped and whose
  before-scenario hook passed, the scenario is executed by three calls of \<^verbatim>\<open>executeItems\<close>:
  on the contexts, from the state the hook leaves; on the items of the scenario, unless the
  contexts failed, in which case the items are returned as they were resolved; and on the
  tear-down steps, from the state the two leave, whatever they reported. The after-scenario
  hook is the last message. The result is failed exactly when one of the three calls
  reported failure or the after-scenario hook failed, and each call reported failure
  exactly when an item of its list has a failed result in the final heap.
\<close>

theorem tear_down_runs_whatever_failed:
  assumes spec: "currentSpec (currentExecutionInfo e0) \<noteq> None"
      and notSkipped: "scenarioRef scn \<notin> dom (scenarioErrs (errMap e0))"
      and resolved: "addAllItemsForScenarioExecution R e0 scn (newProtoScenario scn) = Some shell"
      and hook: "\<not> replyFailed (runner e0 (sent e0) (ScenarioExecutionStarting (scenarioStarting e0 scn)))"
  shows "\<exists>a res1 e1 fc cs ec fb bs eb ft ts et res e'.
           executeBeforeScenarioHook (e0\<lparr>currentExecutionInfo := scenarioStarting e0 scn\<rparr>)
              (shell\<lparr>pSkipped := Some False\<rparr>) = (a, res1, e1) \<and>
           executeItems e1 (pContexts shell) = Some (fc, cs, ec) \<and>
           (if fc then fb = False \<and> bs = pScenarioItems shell \<and> eb = ec
            else executeItems ec (pScenarioItems shell) = Some (fb, bs, eb)) \<and>
           executeItems eb (pTearDownSteps shell) = Some (ft, ts, et) \<and>
           executeScenario R e0 scn = Some (res, e') \<and>
           pContexts res = cs \<and> pScenarioItems res = bs \<and> pTearDownSteps res = ts \<and>
           sent e' = sent et @ [ScenarioExecutionEnding (currentExecutionInfo et)] \<and>
           getFailure res =
             (fc \<or> fb \<or> ft \<or>
              replyFailed (runner e0 (sent et) (ScenarioExecutionEnding (currentExecutionInfo et)))) \<and>
           fc = (\<exists>x \<in> set cs. failedAt (heap e') (itemResult x)) \<and>
           fb = (\<exists>x \<in> set bs. failedAt (heap e') (itemResult x)) \<and>
           ft = (\<exists>x \<in> set ts. failedAt (heap e') (itemResult x))"
proof -
  let ?e = "e0\<lparr>currentExecutionInfo := scenarioStarting e0 scn\<rparr>"
  let ?res0 = "shell\<lparr>pSkipped := Some False\<rparr>"
  let ?m = "ScenarioExecutionStarting (scenarioStarting e0 scn)"
  let ?e1 = "snd (executeAndGetStatus (notifyPlugins ?e ?m) ?m)"
  let ?res1 = "addExecTime (getExecutionTime (heap ?e1 (nextAddr e0))) ?res0"
  have resolved': "addAllItemsForScenarioExecution R ?e scn (newProtoScenario scn) = Some shell"
    using resolved addAllItems_cong [of ?e e0 R scn] by simp
  note fr = addAllItems_fresh [OF resolved]
  have before: "executeBeforeScenarioHook ?e ?res0 = (nextAddr e0, ?res1, ?e1)"
    by (simp add: executeBeforeScenarioHook_def executeScenarioHook_eq)
  have pass: "\<not> getFailed (heap ?e1 (nextAddr e0))"
    using hook by simp
  have ins1: "inScenario ?e1"
    using spec by (simp add: inScenario_def scenarioStarting_def)
  have "\<not> getFailure shell" using fr(4) by (simp add: getFailure_def)
  then have nf: "\<not> getFailure ?res1" by simp
  have fr1: "\<forall>y \<in> set (pContexts ?res1). fresh y" "\<forall>y \<in> set (pScenarioItems ?res1). fresh y"
      "\<forall>y \<in> set (pTearDownSteps ?res1). fresh y"
    using fr(1-3) by simp_all
  from runItems_runs [OF ins1 fr1 nf]
  obtain fc cs ec fb bs eb ft ts et res2 where
      c0: "executeItems ?e1 (pContexts ?res1) = Some (fc, cs, ec)"
      and b0: "if fc then fb = False \<and> bs = pScenarioItems ?res1 \<and> eb = ec
            else executeItems ec (pScenarioItems ?res1) = Some (fb, bs, eb)"
      and t0: "executeItems eb (pTearDownSteps ?res1) = Some (ft, ts, et)"
      and run: "runItems ?e1 ?res1 = Some (res2, et)"
      and r2: "pContexts res2 = cs" "pScenarioItems res2 = bs" "pTearDownSteps res2 = ts"
        "getFailure res2 = (fc \<or> fb \<or> ft)"
      and ex: "itemsExecuted ?e1 fc cs ec" "itemsExecuted ec fb bs eb" "itemsExecuted eb ft ts et"
    by (elim exE conjE)
  have c: "executeItems ?e1 (pContexts shell) = Some (fc, cs, ec)"
    using c0 by simp
  have b: "if fc then fb = False \<and> bs = pScenarioItems shell \<and> eb = ec
            else executeItems ec (pScenarioItems shell) = Some (fb, bs, eb)"
    using b0 by (cases fc) simp_all
  have t: "executeItems eb (pTearDownSteps shell) = Some (ft, ts, et)"
    using t0 by simp
  have inst: "inScenario et" using ex(3) by (simp add: itemsExecuted_def)
  have envs: "sameEnv ?e1 ec" "sameEnv ec eb" "sameEnv eb et"
    using ex by (simp_all add: itemsExecuted_def)
  have env: "sameEnv ?e1 et"
    by (rule sameEnv_trans [OF sameEnv_trans [OF envs(1) envs(2)] envs(3)])
  then have rn: "runner et = runner e0" by (simp add: sameEnv_def)
  let ?n = "ScenarioExecutionEnding (currentExecutionInfo et)"
  let ?e3 = "snd (executeAndGetStatus (notifyPlugins et ?n) ?n)"
  let ?res3 = "addExecTime (getExecutionTime (heap ?e3 (nextAddr et))) res2"
  let ?res4 = "updateExecutionTime (heap ?e3) (addPostHook ?res3 (heap ?e3 (nextAddr et)))"
  have after: "executeAfterScenarioHook et res2 = (nextAddr et, ?res3, ?e3)"
    by (simp add: executeAfterScenarioHook_def executeScenarioHook_eq)
  have af: "getFailed (heap ?e3 (nextAddr et)) = replyFailed (runner e0 (sent et) ?n)"
    by (simp add: rn)
  have ins3: "inScenario ?e3" using inst by (simp add: inScenario_def)
  from markFailed_setScenarioFailure [OF ins3]
  obtain i where mf: "markFailed setScenarioFailure ?e3 = Some (?e3\<lparr>currentExecutionInfo := i\<rparr>)" ..
  let ?e4 = "if getFailed (heap ?e3 (nextAddr et)) then ?e3\<lparr>currentExecutionInfo := i\<rparr> else ?e3"
  have rs: "runScenario ?e ?res0 = Some (?res4, ?e4)"
    unfolding runScenario_def before using pass
    by (simp add: run after mf Let_def)
  have es: "executeScenario R e0 scn = Some (?res4, ?e4)"
    using notSkipped resolved' rs
    by (simp add: executeScenario_def scenarioStarting_def Let_def)
  have heap4: "heap ?e4 = heap ?e3" by simp
  have le: "nextAddr ec \<le> nextAddr eb" "nextAddr eb \<le> nextAddr et"
    using ex by (simp_all add: itemsExecuted_def)
  have old3: "\<forall>a<nextAddr et. heap ?e3 a = heap et a" by simp
  have oldb: "\<forall>a<nextAddr eb. heap ?e3 a = heap eb a"
    using old3 ex(3) le by (auto simp: itemsExecuted_def)
  have oldc: "\<forall>a<nextAddr ec. heap ?e3 a = heap ec a"
    using oldb ex(2) le by (auto simp: itemsExecuted_def)
  have fcs: "fc = (\<exists>x \<in> set cs. failedAt (heap ?e4) (itemResult x))"
    unfolding heap4 by (rule itemsExecuted_later [OF ex(1) oldc])
  have fbs: "fb = (\<exists>x \<in> set bs. failedAt (heap ?e4) (itemResult x))"
    unfolding heap4 by (rule itemsExecuted_later [OF ex(2) oldb])
  have fts: "ft = (\<exists>x \<in> set ts. failedAt (heap ?e4) (itemResult x))"
    unfolding heap4 by (rule itemsExecuted_later [OF ex(3) old3])
  have sent4: "sent ?e4 = sent et @ [?n]" by simp
  have gf: "getFailure ?res4 = (fc \<or> fb \<or> ft \<or> replyFailed (runner e0 (sent et) ?n))"
    using r2(4) af by simp
  have p4: "pContexts ?res4 = cs" "pScenarioItems ?res4 = bs" "pTearDownSteps ?res4 = ts"
    using r2 by simp_all
  show ?thesis
    by (intro exI [of _ "nextAddr e0"] exI [of _ ?res1] exI [of _ ?e1]
        exI [of _ fc] exI [of _ cs] exI [of _ ec] exI [of _ fb] exI [of _ bs] exI [of _ eb]
        exI [of _ ft] exI [of _ ts] exI [of _ et] exI [of _ ?res4] exI [of _ ?e4]
        conjI before c b t es p4 sent4 gf fcs fbs fts)
qed

theorem tear_down_runs_whatever_failed_witness:
  "currentSpec (currentExecutionInfo (executorOf failingContextSpec scriptedRunner noErrs)) \<noteq> None \<and>
   scenarioRef (scenarioOf 5 [plainStep 10 ''S1''])
     \<notin> dom (scenarioErrs (errMap (executorOf failingContextSpec scriptedRunner noErrs))) \<and>
   addAllItemsForScenarioExecution plainResolver (executorOf failingContextSpec scriptedRunner noErrs)
     (scenarioOf 5 [plainStep 10 ''S1'']) (newProtoScenario (scenarioOf 5 [plainStep 10 ''S1''])) \<noteq> None \<and>
   \<not> replyFailed (scriptedRunner []
        (ScenarioExecutionStarting (scenarioStarting (executorOf failingContextSpec scriptedRunner noErrs)
           (scenarioOf 5 [plainStep 10 ''S1''])))) \<and>
   (\<exists>res e'.
      executeScenario plainResolver (executorOf failingContextSpec scriptedRunner noErrs)
        (scenarioOf 5 [plainStep 10 ''S1'']) = Some (res, e') \<and>
      getFailure res \<and> pScenarioItems res = [ProtoItem_Step (protoStepOf ''S1'')] \<and>
      map messageTypeOf (sent e') =
        [Message_ScenarioExecutionStarting,
         Message_StepExecutionStarting, Message_ExecuteStep, Message_StepExecutionEnding,
         Message_StepExecutionStarting, Message_ExecuteStep, Message_StepExecutionEnding,
         Message_ScenarioExecutionEnding] \<and>
      map messageStep (sent e') = [[], ''S2'', ''S2'', ''S2'', ''S3'', ''S3'', ''S3'', []] \<and>
      map (\<lambda>x. failedAt (heap e') (itemResult x)) (pContexts res) = [True] \<and>
      map (\<lambda>x. failedAt (heap e') (itemResult x)) (pTearDownSteps res) = [False] \<and>
      map (itemTime (heap e')) (pTearDownSteps res) = [1]) \<and>
   (\<exists>res e'.
      executeScenario plainResolver (executorOf failingBodySpec scriptedRunner noErrs)
        (scenarioOf 5 [plainStep 10 ''S2'', plainStep 11 ''S4'']) = Some (res, e') \<and>
      getFailure res \<and>
      map messageTypeOf (sent e') =
        [Message_ScenarioExecutionStarting,
         Message_StepExecutionStarting, Message_ExecuteStep, Message_StepExecutionEnding,
         Message_StepExecutionStarting, Message_ExecuteStep, Message_StepExecutionEnding,
         Message_StepExecutionStarting, Message_ExecuteStep, Message_StepExecutionEnding,
         Message_ScenarioExecutionEnding] \<and>
      map messageStep (sent e') =
        [[], ''S1'', ''S1'', ''S1'', ''S2'', ''S2'', ''S2'', ''S3'', ''S3'', ''S3'', []] \<and>
      map (\<lambda>x. failedAt (heap e') (itemResult x)) (pContexts res) = [False] \<and>
      map (\<lambda>x. failedAt (heap e') (itemResult x)) (pScenarioItems res) = [True, False] \<and>
      pScenarioItems res ! 1 = ProtoItem_Step (protoStepOf ''S4'') \<and>
      map (\<lambda>x. failedAt (heap e') (itemResult x)) (pTearDownSteps res) = [False] \<and>
      map (itemTime (heap e')) (pTearDownSteps res) = [1])"
proof -
  let ?E = "executorOf failingContextSpec scriptedRunner noErrs"
  let ?scn = "scenarioOf 5 [plainStep 10 ''S1'']"
  have h1: "currentSpec (currentExecutionInfo ?E) \<noteq> None"
    by (simp add: executorOf_def)
  have h2: "scenarioRef ?scn \<notin> dom (scenarioErrs (errMap ?E))"
    by (simp add: executorOf_def scenarioOf_def noErrs_def)
  have h3: "addAllItemsForScenarioExecution plainResolver ?E ?scn (newProtoScenario ?scn) \<noteq> None"
    by (simp add: scenario_defs executorOf_def failingContextSpec_def resolve_plainStep emptySpec_def)
  then obtain shell where
      shell: "addAllItemsForScenarioExecution plainResolver ?E ?scn (newProtoScenario ?scn) = Some shell"
    by blast
  have h4: "\<not> replyFailed (scriptedRunner [] (ScenarioExecutionStarting (scenarioStarting ?E ?scn)))"
    by (simp add: status_def)
  have h4': "\<not> replyFailed (runner ?E (sent ?E) (ScenarioExecutionStarting (scenarioStarting ?E ?scn)))"
    using h4 by (simp add: executorOf_def)
  have ev: "(case executeScenario plainResolver ?E ?scn of
      None \<Rightarrow> False
    | Some (res, e') \<Rightarrow>
        getFailure res \<and> pScenarioItems res = [ProtoItem_Step (protoStepOf ''S1'')] \<and>
        map messageTypeOf (sent e') =
          [Message_ScenarioExecutionStarting,
           Message_StepExecutionStarting, Message_ExecuteStep, Message_StepExecutionEnding,
           Message_StepExecutionStarting, Message_ExecuteStep, Message_StepExecutionEnding,
           Message_ScenarioExecutionEnding] \<and>
        map messageStep (sent e') = [[], ''S2'', ''S2'', ''S2'', ''S3'', ''S3'', ''S3'', []] \<and>
        map (\<lambda>x. failedAt (heap e') (itemResult x)) (pContexts res) = [True] \<and>
        map (\<lambda>x. failedAt (heap e') (itemResult x)) (pTearDownSteps res) = [False] \<and>
        map (itemTime (heap e')) (pTearDownSteps res) = [1])"
    by (simp add: scenario_defs run_defs executorOf_def failingContextSpec_def resolve_plainStep
        protoStepOf_def status_def newSpecResult_def emptySpec_def noErrs_def)
  from tear_down_runs_whatever_failed [OF h1 h2 shell h4']
  obtain res e' where run: "executeScenario plainResolver ?E ?scn = Some (res, e')"
    by (elim exE conjE)
  from ev have first: "\<exists>res e'.
      executeScenario plainResolver ?E ?scn = Some (res, e') \<and>
      getFailure res \<and> pScenarioItems res = [ProtoItem_Step (protoStepOf ''S1'')] \<and>
      map messageTypeOf (sent e') =
        [Message_ScenarioExecutionStarting,
         Message_StepExecutionStarting, Message_ExecuteStep, Message_StepExecutionEnding,
         Message_StepExecutionStarting, Message_ExecuteStep, Message_StepExecutionEnding,
         Message_ScenarioExecutionEnding] \<and>
      map messageStep (sent e') = [[], ''S2'', ''S2'', ''S2'', ''S3'', ''S3'', ''S3'', []] \<and>
      map (\<lambda>x. failedAt (heap e') (itemResult x)) (pContexts res) = [True] \<and>
      map (\<lambda>x. failedAt (heap e') (itemResult x)) (pTearDownSteps res) = [False] \<and>
      map (itemTime (heap e')) (pTearDownSteps res) = [1]"
    unfolding run by (intro exI [of _ res] exI [of _ e']) simp
  let ?F = "executorOf failingBodySpec scriptedRunner noErrs"
  let ?scn2 = "scenarioOf 5 [plainStep 10 ''S2'', plainStep 11 ''S4'']"
  have ev2: "(case executeScenario plainResolver ?F ?scn2 of
      None \<Rightarrow> False
    | Some (res, e') \<Rightarrow>
        getFailure res \<and>
        map messageTypeOf (sent e') =
          [Message_ScenarioExecutionStarting,
           Message_StepExecutionStarting, Message_ExecuteStep, Message_StepExecutionEnding,
           Message_StepExecutionStarting, Message_ExecuteStep, Message_StepExecutionEnding,
           Message_StepExecutionStarting, Message_ExecuteStep, Message_StepExecutionEnding,
           Message_ScenarioExecutionEnding] \<and>
        map messageStep (sent e') =
          [[], ''S1'', ''S1'', ''S1'', ''S2'', ''S2'', ''S2'', ''S3'', ''S3'', ''S3'', []] \<and>
        map (\<lambda>x. failedAt (heap e') (itemResult x)) (pContexts res) = [False] \<and>
        map (\<lambda>x. failedAt (heap e') (itemResult x)) (pScenarioItems res) = [True, False] \<and>
        pScenarioItems res ! 1 = ProtoItem_Step (protoStepOf ''S4'') \<and>
        map (\<lambda>x. failedAt (heap e') (itemResult x)) (pTearDownSteps res) = [False] \<and>
        map (itemTime (heap e')) (pTearDownSteps res) = [1])"
    by (simp add: scenario_defs run_defs executorOf_def failingBodySpec_def resolve_plainStep
        protoStepOf_def status_def newSpecResult_def emptySpec_def noErrs_def)
  have second: "\<exists>res e'.
      executeScenario plainResolver ?F ?scn2 = Some (res, e') \<and>
      getFailure res \<and>
      map messageTypeOf (sent e') =
        [Message_ScenarioExecutionStarting,
         Message_StepExecutionStarting, Message_ExecuteStep, Message_StepExecutionEnding,
         Message_StepExecutionStarting, Message_ExecuteStep, Message_StepExecutionEnding,
         Message_StepExecutionStarting, Message_ExecuteStep, Message_StepExecutionEnding,
         Message_ScenarioExecutionEnding] \<and>
      map messageStep (sent e') =
        [[], ''S1'', ''S1'', ''S1'', ''S2'', ''S2'', ''S2'', ''S3'', ''S3'', ''S3'', []] \<and>
      map (\<lambda>x. failedAt (heap e') (itemResult x)) (pContexts res) = [False] \<and>
      map (\<lambda>x. failedAt (heap e') (itemResult x)) (pScenarioItems res) = [True, False] \<and>
      pScenarioItems res ! 1 = ProtoItem_Step (protoStepOf ''S4'') \<and>
      map (\<lambda>x. failedAt (heap e') (itemResult x)) (pTearDownSteps res) = [False] \<and>
      map (itemTime (heap e')) (pTearDownSteps res) = [1]"
    using ev2 by (cases "executeScenario plainResolver ?F ?scn2") auto
  show ?thesis
    by (intro conjI h1 h2 h3 h4 first second)
qed

text \<open>
  C1 (\<^verbatim>\<open>executeScenario\<close>, lines 204 to 212; \<^verbatim>\<open>executeStep\<close>, lines 445 to 489). The skip map
  keeps a scenario from the runner, not a step. A scenario in the scenario skip map is
  returned marked skipped and nothing is written to the runner or the plugins.
  \<^verbatim>\<open>executeStep\<close> does not read the skip flag: whatever flag resolution left on the step,
  inside a scenario it writes the before-step hook, the \<^verbatim>\<open>ExecuteStep\<close> message unless that
  hook failed, and the after-step hook, all three about this step, and it copies the flag
  and its reason onto the step's result.
\<close>

theorem scenario_skip_gates_but_step_skip_does_not:
  "(scenarioRef scn \<in> dom (scenarioErrs (errMap e)) \<longrightarrow>
      addAllItemsForScenarioExecution R e scn (newProtoScenario scn) = Some shell \<longrightarrow>
      (\<exists>res e'. executeScenario R e scn = Some (res, e') \<and> pSkipped res = Some True \<and>
         sent e' = sent e \<and> notified e' = notified e)) \<and>
   (inScenario e \<longrightarrow> stepExecutionResult st = Some old \<longrightarrow>
      (\<exists>f st' e' res i.
         executeStep e st = Some (f, st', e') \<and>
         stepExecutionResult st' = Some res \<and>
         skipped res = skipped old \<and> skippedReason res = skippedReason old \<and>
         sent e' = sent e @ StepExecutionStarting (stepStarting e st) #
            (if replyFailed (runner e (sent e) (StepExecutionStarting (stepStarting e st)))
             then [] else [ExecuteStep (createStepRequest st)]) @ [StepExecutionEnding i] \<and>
         map_option stepInfoStep (currentStep i) = Some (createStepRequest st) \<and>
         map_option stepInfoStep (currentStep (stepStarting e st)) = Some (createStepRequest st)))"
proof (intro conjI impI)
  assume sk: "scenarioRef scn \<in> dom (scenarioErrs (errMap e))"
    and sh: "addAllItemsForScenarioExecution R e scn (newProtoScenario scn) = Some shell"
  let ?e = "e\<lparr>currentExecutionInfo := (currentExecutionInfo e)
                \<lparr>currentScenario := Some \<lparr>scenarioInfoName = scenarioHeading scn,
                                          scenarioInfoIsFailed = False,
                                          scenarioInfoTags = getTagValue (scenarioTags scn)\<rparr>\<rparr>\<rparr>"
  have "addAllItemsForScenarioExecution R ?e scn (newProtoScenario scn) = Some shell"
    using sh addAllItems_cong [of ?e e R scn] by simp
  then show "\<exists>res e'. executeScenario R e scn = Some (res, e') \<and> pSkipped res = Some True \<and>
         sent e' = sent e \<and> notified e' = notified e"
    using sk by (simp add: executeScenario_def Let_def setSkipInfoInResult_def)
next
  assume ins: "inScenario e" and old: "stepExecutionResult st = Some old"
  from executeStep_Some [OF ins old]
  obtain f st' e' res i where r: "executeStep e st = Some (f, st', e')"
      "stepExecutionResult st' = Some res" "skipped res = skipped old" "skippedReason res = skippedReason old"
      "sent e' = sent e @ StepExecutionStarting (stepStarting e st) #
            (if replyFailed (runner e (sent e) (StepExecutionStarting (stepStarting e st)))
             then [] else [ExecuteStep (createStepRequest st)]) @ [StepExecutionEnding i]"
    by (elim exE conjE)
  from executeStep_ending [OF ins old] r(1)
  obtain i' where l: "last (sent e') = StepExecutionEnding i'"
     "map_option stepInfoStep (currentStep i') = Some (createStepRequest st)"
    by auto
  have "i' = i" using l(1) r(5) by simp
  then have info: "map_option stepInfoStep (currentStep i) = Some (createStepRequest st)"
    using l(2) by simp
  have start: "map_option stepInfoStep (currentStep (stepStarting e st)) = Some (createStepRequest st)"
    by (simp add: stepStarting_def)
  show "\<exists>f st' e' res i.
         executeStep e st = Some (f, st', e') \<and>
         stepExecutionResult st' = Some res \<and>
         skipped res = skipped old \<and> skippedReason res = skippedReason old \<and>
         sent e' = sent e @ StepExecutionStarting (stepStarting e st) #
            (if replyFailed (runner e (sent e) (StepExecutionStarting (stepStarting e st)))
             then [] else [ExecuteStep (createStepRequest st)]) @ [StepExecutionEnding i] \<and>
         map_option stepInfoStep (currentStep i) = Some (createStepRequest st) \<and>
         map_option stepInfoStep (currentStep (stepStarting e st)) = Some (createStepRequest st)"
    by (intro exI [of _ f] exI [of _ st'] exI [of _ e'] exI [of _ res] exI [of _ i] conjI r info start)
qed

theorem scenario_skip_gates_but_step_skip_does_not_witness:
  "scenarioRef (scenarioOf 5 [plainStep 10 ''S1''])
     \<in> dom (scenarioErrs (errMap (executorOf (specOf [scenarioOf 5 [plainStep 10 ''S1'']]) scriptedRunner bothSkipErrs))) \<and>
   addAllItemsForScenarioExecution plainResolver
     (executorOf (specOf [scenarioOf 5 [plainStep 10 ''S1'']]) scriptedRunner bothSkipErrs)
     (scenarioOf 5 [plainStep 10 ''S1'']) (newProtoScenario (scenarioOf 5 [plainStep 10 ''S1'']))
     = Some ((newProtoScenario (scenarioOf 5 [plainStep 10 ''S1'']))\<lparr>pScenarioItems := [ProtoItem_Step skippedStep]\<rparr>) \<and>
   (\<exists>res e'.
      executeScenario plainResolver
        (executorOf (specOf [scenarioOf 5 [plainStep 10 ''S1'']]) scriptedRunner bothSkipErrs)
        (scenarioOf 5 [plainStep 10 ''S1'']) = Some (res, e') \<and>
      pSkipped res = Some True \<and> sent e' = [] \<and> notified e' = []) \<and>
   inScenario (executorOf emptySpec scriptedRunner stepSkipErrs) \<and>
   stepExecutionResult skippedStep =
     Some (emptyStepExecutionResult\<lparr>skipped := Some True,
             skippedReason := Some ''Step implemenatation not found''\<rparr>) \<and>
   (\<exists>f st' e'.
      executeStep (executorOf emptySpec scriptedRunner stepSkipErrs) skippedStep = Some (f, st', e') \<and>
      \<not> f \<and> itemSkipped (ProtoItem_Step st') = Some True \<and>
      map messageTypeOf (sent e') =
        [Message_StepExecutionStarting, Message_ExecuteStep, Message_StepExecutionEnding] \<and>
      map messageStep (sent e') = [''S1'', ''S1'', ''S1''])"
proof -
  let ?E = "executorOf (specOf [scenarioOf 5 [plainStep 10 ''S1'']]) scriptedRunner bothSkipErrs"
  let ?scn = "scenarioOf 5 [plainStep 10 ''S1'']"
  let ?shell = "(newProtoScenario ?scn)\<lparr>pScenarioItems := [ProtoItem_Step skippedStep]\<rparr>"
  let ?F = "executorOf emptySpec scriptedRunner stepSkipErrs"
  let ?old = "emptyStepExecutionResult\<lparr>skipped := Some True,
             skippedReason := Some ''Step implemenatation not found''\<rparr>"
  have h1: "scenarioRef ?scn \<in> dom (scenarioErrs (errMap ?E))"
    by (simp add: executorOf_def scenarioOf_def bothSkipErrs_def)
  have h2: "addAllItemsForScenarioExecution plainResolver ?E ?scn (newProtoScenario ?scn) = Some ?shell"
    by (simp add: addAllItemsForScenarioExecution_def getContextItemsForScenarioExecution_def
        resolveItems_def executorOf_def specOf_def emptySpec_def scenarioOf_def resolve_plainStep
        noErrs_def bothSkipErrs_def newProtoScenario_def protoStepOf_def emptyStepExecutionResult_def
        skippedStep_def)
  have h3: "inScenario ?F" by (simp add: inScenario_def executorOf_def)
  have h4: "stepExecutionResult skippedStep = Some ?old" by (simp add: skippedStep_def)
  note T1 = scenario_skip_gates_but_step_skip_does_not [of ?scn ?E plainResolver ?shell skippedStep ?old]
  note T2 = scenario_skip_gates_but_step_skip_does_not [of ?scn ?F plainResolver ?shell skippedStep ?old]
  from T1 h1 h2 obtain res e' where r: "executeScenario plainResolver ?E ?scn = Some (res, e')"
      "pSkipped res = Some True" "sent e' = sent ?E" "notified e' = notified ?E"
    by blast
  have first: "\<exists>res e'. executeScenario plainResolver ?E ?scn = Some (res, e') \<and>
      pSkipped res = Some True \<and> sent e' = [] \<and> notified e' = []"
    using r by (simp add: executorOf_def)
  from T2 h3 h4 obtain f st' e2 res2 where s: "executeStep ?F skippedStep = Some (f, st', e2)"
      "stepExecutionResult st' = Some res2" "skipped res2 = skipped ?old"
    by blast
  have ev: "(case executeStep ?F skippedStep of
      None \<Rightarrow> False
    | Some (f, st', e') \<Rightarrow>
       \<not> f \<and>
        map messageTypeOf (sent e') =
          [Message_StepExecutionStarting, Message_ExecuteStep, Message_StepExecutionEnding] \<and>
        map messageStep (sent e') = [''S1'', ''S1'', ''S1''])"
    by (simp add: run_defs executorOf_def skippedStep_def stepSkipErrs_def
        protoStepOf_def status_def newSpecResult_def emptySpec_def noErrs_def)
  have sk: "itemSkipped (ProtoItem_Step st') = Some True"
    using s(2,3) by simp
  have second: "\<exists>f st' e'.
      executeStep ?F skippedStep = Some (f, st', e') \<and>
      \<not> f \<and> itemSkipped (ProtoItem_Step st') = Some True \<and>
      map messageTypeOf (sent e') =
        [Message_StepExecutionStarting, Message_ExecuteStep, Message_StepExecutionEnding] \<and>
      map messageStep (sent e') = [''S1'', ''S1'', ''S1'']"
    using ev sk unfolding s(1) by (intro exI [of _ f] exI [of _ st'] exI [of _ e2]) simp
  show ?thesis by (intro conjI h1 h2 first h3 h4 second)
qed

text \<open>
  A step that is in the step skip map while its scenario is not in the scenario skip map:
  it is resolved with its skip flag set, and executing the scenario writes its before-step
  hook, its \<^verbatim>\<open>ExecuteStep\<close> message and its after-step hook to the runner.
\<close>

theorem skipped_step_is_sent_to_the_worker:
  "10 \<in> dom (stepErrs (errMap (executorOf (specOf [scenarioOf 5 [plainStep 10 ''S1'']]) scriptedRunner stepSkipErrs))) \<and>
   resolveItems plainResolver (executorOf (specOf [scenarioOf 5 [plainStep 10 ''S1'']]) scriptedRunner stepSkipErrs)
      [StepItem (plainStep 10 ''S1'')] = Some [ProtoItem_Step skippedStep] \<and>
   itemSkipped (ProtoItem_Step skippedStep) = Some True \<and>
   (\<exists>res e'.
      executeScenario plainResolver (executorOf (specOf [scenarioOf 5 [plainStep 10 ''S1'']]) scriptedRunner stepSkipErrs)
        (scenarioOf 5 [plainStep 10 ''S1'']) = Some (res, e') \<and>
      pSkipped res = Some False \<and>
      map itemSkipped (pScenarioItems res) = [Some True] \<and>
      map protoItemText (pScenarioItems res) = [''S1''] \<and>
      map messageTypeOf (sent e') =
        [Message_ScenarioExecutionStarting,
         Message_StepExecutionStarting, Message_ExecuteStep, Message_StepExecutionEnding,
         Message_ScenarioExecutionEnding] \<and>
      map messageStep (sent e') = [[], ''S1'', ''S1'', ''S1'', []])"
proof -
  let ?E = "executorOf (specOf [scenarioOf 5 [plainStep 10 ''S1'']]) scriptedRunner stepSkipErrs"
  have a: "10 \<in> dom (stepErrs (errMap ?E))"
    by (simp add: executorOf_def stepSkipErrs_def)
  have b: "resolveItems plainResolver ?E [StepItem (plainStep 10 ''S1'')] = Some [ProtoItem_Step skippedStep]"
    by (simp add: resolveItems_def resolve_plainStep executorOf_def stepSkipErrs_def skippedStep_def
        emptyStepExecutionResult_def protoStepOf_def)
  have c: "itemSkipped (ProtoItem_Step skippedStep) = Some True"
    by (simp add: skippedStep_def)
  have ev: "(case executeScenario plainResolver ?E (scenarioOf 5 [plainStep 10 ''S1'']) of
      None \<Rightarrow> False
    | Some (res, e') \<Rightarrow>
        pSkipped res = Some False \<and>
        map itemSkipped (pScenarioItems res) = [Some True] \<and>
        map protoItemText (pScenarioItems res) = [''S1''] \<and>
        map messageTypeOf (sent e') =
          [Message_ScenarioExecutionStarting,
           Message_StepExecutionStarting, Message_ExecuteStep, Message_StepExecutionEnding,
           Message_ScenarioExecutionEnding] \<and>
        map messageStep (sent e') = [[], ''S1'', ''S1'', ''S1'', []])"
    by (simp add: scenario_defs run_defs executorOf_def specOf_def resolve_plainStep stepSkipErrs_def
        protoStepOf_def status_def newSpecResult_def emptySpec_def noErrs_def)
  have d: "\<exists>res e'.
      executeScenario plainResolver ?E (scenarioOf 5 [plainStep 10 ''S1'']) = Some (res, e') \<and>
      pSkipped res = Some False \<and>
      map itemSkipped (pScenarioItems res) = [Some True] \<and>
      map protoItemText (pScenarioItems res) = [''S1''] \<and>
      map messageTypeOf (sent e') =
        [Message_ScenarioExecutionStarting,
         Message_StepExecutionStarting, Message_ExecuteStep, Message_StepExecutionEnding,
         Message_ScenarioExecutionEnding] \<and>
      map messageStep (sent e') = [[], ''S1'', ''S1'', ''S1'', []]"
    using ev by (cases "executeScenario plainResolver ?E (scenarioOf 5 [plainStep 10 ''S1''])") auto
  show ?thesis by (intro conjI a b c d)
qed

end
